theory Spec2Isabelle
  imports Complex_Main "HOL-Library.Multiset"
begin

section \<open>A curling client: stone ordering, shot estimation, turn planning, protocol loop\<close>

text \<open>
  This theory embeds \<^verbatim>\<open>src/main.cpp\<close>, the client of a curling match server. The
  client depends on an external library (the simulator, the player noise model, the rule
  engine's \<^verbatim>\<open>ApplyMove\<close>, the JSON codec); those routines are parameters of the model,
  collected in the record \<open>Library\<close>. Conventions of the embedding:

  \<^item> a finite \<^verbatim>\<open>float\<close> is a \<open>real\<close>, and the result of an operation on finite
    floats is exact: rounding is not modelled. Where the source computes the launch speed
    of a shot, the infinities, not-a-number and the overflow of an operation are modelled
    as well (type \<open>fl\<close>).
  \<^item> fixed-size arrays (\<^verbatim>\<open>std::array\<close>) indexed by small numbers are functions from
    \<open>nat\<close>; the places where the source indexes with a value that may be out of range
    carry an explicit check, whose failure is the value \<open>UndefinedBehaviour\<close>.
  \<^item> the mutable globals of the program are the record \<open>Globals\<close>, passed into and
    returned from every operation that touches them.
  \<^item> \<^verbatim>\<open>assert\<close>, exceptions and loops that may not end are values of type \<open>failure\<close>.
\<close>

subsection \<open>Data model\<close>

datatype Vector2 = Vector2 (vx: real) (vy: real)

definition vec_minus :: "Vector2 \<Rightarrow> Vector2 \<Rightarrow> Vector2" where
  "vec_minus a b = Vector2 (vx a - vx b) (vy a - vy b)"

definition Length :: "Vector2 \<Rightarrow> real" where
  "Length v = sqrt (vx v * vx v + vy v * vy v)"

text \<open>\<^verbatim>\<open>dc::Transform\<close>: where a stone lies; \<^verbatim>\<open>ISimulator::StoneState\<close> adds the velocities.\<close>

record Transform =
  position :: Vector2
  angle :: real

record StoneState = Transform +
  linear_velocity :: Vector2
  angular_velocity :: real

text \<open>\<^verbatim>\<open>GameState::Stones\<close> is a 2 x 8 grid of optional transforms, indexed by team and
  stone number; \<^verbatim>\<open>ISimulator::AllStones\<close> is a row of 16 optional stone states.\<close>

type_synonym Stones = "nat \<Rightarrow> nat \<Rightarrow> Transform option"

type_synonym AllStones = "nat \<Rightarrow> StoneState option"

datatype Team = k0 | k1 | kInvalid

text \<open>\<^verbatim>\<open>static_cast<size_t>(team)\<close>: the enumerators count from zero, the sentinel last.\<close>

fun team_index :: "Team \<Rightarrow> nat" where
  "team_index k0 = 0"
| "team_index k1 = 1"
| "team_index kInvalid = 2"

datatype Rotation = kCCW | kCW

datatype Shot = Shot (velocity: Vector2) (rotation: Rotation)

datatype Move = Move_Shot Shot | Move_Concede

record GameResult =
  winner :: Team

record GameState =
  end_number :: nat
  shot :: nat
  stones :: Stones
  game_result :: "GameResult option"

record StoneIndex =
  team :: nat
  stone :: nat

subsection \<open>Failures\<close>

datatype exn =
    runtime_error string
  | json_error string
  | system_error string
  | library_error string

fun what :: "exn \<Rightarrow> string" where
  "what (runtime_error m) = m"
| "what (json_error m) = m"
| "what (system_error m) = m"
| "what (library_error m) = m"

text \<open>
  How a run can end other than by returning: an exception, a failed \<^verbatim>\<open>assert\<close>,
  undefined behaviour, a loop that does not end, and \<open>NonFinite\<close>: the source computes on
  with an infinite number where the model carries a real, and the model does not follow
  the run further.
\<close>

datatype failure =
    Thrown exn
  | AssertionFailed
  | UndefinedBehaviour
  | Diverges
  | NonFinite

subsection \<open>The external library\<close>

text \<open>An object behind an interface pointer is the record of what its methods return.\<close>

record 'sim ISimulatorFactory =
  GetSimulatorId :: string
  CreateSimulator :: 'sim

record 'player IPlayerFactory =
  CreatePlayer :: 'player

text \<open>
  The routines of the library that the planner and the estimator call. \<open>'sim\<close> is the
  physical state of a simulator object, \<open>'player\<close> the state of a player object (its
  random generator), \<open>'setting\<close> the match settings. \<open>ApplyMove\<close> runs one shot to
  rest: it changes the simulator and the player and returns the game state after the shot,
  or throws.
\<close>

record ('sim, 'player, 'setting) Library =
  kTee :: Vector2
  ApplyMove :: "'setting \<Rightarrow> 'sim \<Rightarrow> 'player \<Rightarrow> GameState \<Rightarrow> Move
                  \<Rightarrow> exn + ('sim \<times> 'player \<times> GameState)"
  SetStones :: "AllStones \<Rightarrow> 'sim \<Rightarrow> 'sim"
  GetStones :: "'sim \<Rightarrow> AllStones"
  Step :: "'sim \<Rightarrow> 'sim"
  AreAllStonesStopped :: "'sim \<Rightarrow> bool"
  SimulatorFCV1Factory :: "'sim ISimulatorFactory"
  PlayerNormalDistFactory :: "'player IPlayerFactory"
  GetNextTeam :: "GameState \<Rightarrow> Team"

subsection \<open>The globals of the program\<close>

text \<open>
  One event per call on the match simulator \<^verbatim>\<open>g_simulator\<close>. The list of events is a
  history kept beside the program state; no operation reads it. A rollout records the
  simulator state it started from and the one it left.
\<close>

datatype 'sim sim_event = EvSave | EvLoad | EvApplyMove 'sim 'sim

record ('sim, 'player, 'setting) Globals =
  g_team :: Team
  g_game_setting :: 'setting
  g_simulator :: 'sim
  g_simulator_storage :: 'sim
  g_players :: "nat \<Rightarrow> 'player"
  s_simulator :: "'sim option"
  trace :: "'sim sim_event list"

subsection \<open>\<^verbatim>\<open>SortStones\<close>\<close>

definition init_indices :: "StoneIndex list" where
  "init_indices = map (\<lambda>i. \<lparr>team = i div 8, stone = i mod 8\<rparr>) [0..<16]"

text \<open>The condition of the inner loop under which two neighbours are exchanged.\<close>

definition swap_needed :: "Vector2 \<Rightarrow> Stones \<Rightarrow> StoneIndex \<Rightarrow> StoneIndex \<Rightarrow> bool" where
  "swap_needed tee sts a b =
     (case sts (team a) (stone a) of
        None \<Rightarrow> True
      | Some stone_a \<Rightarrow>
          (case sts (team b) (stone b) of
             None \<Rightarrow> False
           | Some stone_b \<Rightarrow>
               Length (vec_minus (position stone_a) tee) > Length (vec_minus (position stone_b) tee)))"

definition swap_at :: "'a list \<Rightarrow> nat \<Rightarrow> nat \<Rightarrow> 'a list" where
  "swap_at xs i j = xs[i := xs ! j, j := xs ! i]"

text \<open>\<^verbatim>\<open>for (size_t j = i; j > 0; --j)\<close>: the pass runs down to the front without a break.\<close>

fun SortStones_inner :: "Vector2 \<Rightarrow> Stones \<Rightarrow> StoneIndex list \<Rightarrow> nat \<Rightarrow> StoneIndex list" where
  "SortStones_inner tee sts result 0 = result"
| "SortStones_inner tee sts result (Suc j) =
     SortStones_inner tee sts
       (if swap_needed tee sts (result ! j) (result ! Suc j)
        then swap_at result j (Suc j) else result) j"

function SortStones_outer :: "Vector2 \<Rightarrow> Stones \<Rightarrow> StoneIndex list \<Rightarrow> nat \<Rightarrow> StoneIndex list" where
  "SortStones_outer tee sts result i =
     (if i < 16 then SortStones_outer tee sts (SortStones_inner tee sts result i) (Suc i)
      else result)"
  by pat_completeness auto
termination
  by (relation "measure (\<lambda>(tee, sts, result, i). 16 - i)") auto

declare SortStones_outer.simps [simp del]

definition SortStones :: "Vector2 \<Rightarrow> Stones \<Rightarrow> StoneIndex list" where
  "SortStones tee sts = SortStones_outer tee sts init_indices 1"

text \<open>
  Vocabulary for the order: the distance of the stone an index names, \<open>None\<close> for an
  absent stone, and the comparison that puts an absent stone after every present one.
\<close>

definition tee_distance :: "Vector2 \<Rightarrow> Stones \<Rightarrow> StoneIndex \<Rightarrow> real option" where
  "tee_distance tee sts idx =
     map_option (\<lambda>t. Length (vec_minus (position t) tee)) (sts (team idx) (stone idx))"

definition not_farther :: "Vector2 \<Rightarrow> Stones \<Rightarrow> StoneIndex \<Rightarrow> StoneIndex \<Rightarrow> bool" where
  "not_farther tee sts a b =
     (case tee_distance tee sts b of
        None \<Rightarrow> True
      | Some db \<Rightarrow> (case tee_distance tee sts a of None \<Rightarrow> False | Some da \<Rightarrow> da \<le> db))"

text \<open>
  Proof vocabulary: one pass of the inner loop on a list kept in reverse (the head is the
  element next to the one being moved), for an arbitrary exchange condition; the passes
  over a whole list; the exchange condition and the order for an arbitrary key; the
  invariant of the outer loop.
\<close>

fun bubble :: "('a \<Rightarrow> 'a \<Rightarrow> bool) \<Rightarrow> 'a \<Rightarrow> 'a list \<Rightarrow> 'a list" where
  "bubble P x [] = [x]"
| "bubble P x (a # ys) = (if P a x then a # bubble P x ys else x # bubble P a ys)"

definition bubble_all :: "('a \<Rightarrow> 'a \<Rightarrow> bool) \<Rightarrow> 'a list \<Rightarrow> 'a list \<Rightarrow> 'a list" where
  "bubble_all P ys xs = foldl (\<lambda>acc x. bubble P x acc) ys xs"

definition key_swap :: "('a \<Rightarrow> 'k::linorder option) \<Rightarrow> 'a \<Rightarrow> 'a \<Rightarrow> bool" where
  "key_swap key a b =
     (case key a of None \<Rightarrow> True
      | Some da \<Rightarrow> (case key b of None \<Rightarrow> False | Some db \<Rightarrow> da > db))"

definition key_le :: "('a \<Rightarrow> 'k::linorder option) \<Rightarrow> 'a \<Rightarrow> 'a \<Rightarrow> bool" where
  "key_le key a b =
     (case key b of None \<Rightarrow> True
      | Some db \<Rightarrow> (case key a of None \<Rightarrow> False | Some da \<Rightarrow> da \<le> db))"

definition pass_inv :: "('a \<Rightarrow> 'k::linorder option) \<Rightarrow> 'a list \<Rightarrow> 'a list \<Rightarrow> bool" where
  "pass_inv key xs ys \<longleftrightarrow>
     (\<exists>zs. ys = filter (\<lambda>a. key a = None) xs @ zs \<and>
           (\<forall>z\<in>set zs. key z \<noteq> None) \<and>
           sorted_wrt (\<lambda>a b. the (key b) \<le> the (key a)) zs \<and>
           (\<forall>k. filter (\<lambda>a. key a = Some k) zs = rev (filter (\<lambda>a. key a = Some k) xs)))"

subsection \<open>\<^verbatim>\<open>EstimateShotVelocityFCV1\<close>\<close>

text \<open>
  The launch speed is computed in \<^verbatim>\<open>float\<close>. A \<^verbatim>\<open>float\<close> is a finite number, an
  infinity or not a number; the finite ones are taken as reals (rounding is not
  modelled), and an operation whose exact result lies beyond the largest finite
  \<^verbatim>\<open>float\<close> gives the infinity of its sign.
\<close>

datatype fl = Fin (fin: real) | PInf | NInf | NaN

definition FLT_MAX :: real where
  "FLT_MAX = 340282346638528859811704183484516925440"

definition fl_of :: "real \<Rightarrow> fl" where
  "fl_of a = (if FLT_MAX < a then PInf else if a < - FLT_MAX then NInf else Fin a)"

text \<open>The infinity with the sign of \<open>a\<close>; infinity times zero is not a number.\<close>

definition signed_inf :: "real \<Rightarrow> fl" where
  "signed_inf a = (if 0 < a then PInf else if a < 0 then NInf else NaN)"

fun fl_add :: "fl \<Rightarrow> fl \<Rightarrow> fl" where
  "fl_add (Fin a) (Fin b) = fl_of (a + b)"
| "fl_add NaN _ = NaN"
| "fl_add _ NaN = NaN"
| "fl_add PInf NInf = NaN"
| "fl_add NInf PInf = NaN"
| "fl_add PInf _ = PInf"
| "fl_add _ PInf = PInf"
| "fl_add NInf _ = NInf"
| "fl_add _ NInf = NInf"

fun fl_mul :: "fl \<Rightarrow> fl \<Rightarrow> fl" where
  "fl_mul (Fin a) (Fin b) = fl_of (a * b)"
| "fl_mul NaN _ = NaN"
| "fl_mul _ NaN = NaN"
| "fl_mul PInf (Fin b) = signed_inf b"
| "fl_mul NInf (Fin b) = signed_inf (- b)"
| "fl_mul (Fin a) PInf = signed_inf a"
| "fl_mul (Fin a) NInf = signed_inf (- a)"
| "fl_mul PInf PInf = PInf"
| "fl_mul NInf NInf = PInf"
| "fl_mul PInf NInf = NInf"
| "fl_mul NInf PInf = NInf"

text \<open>\<^verbatim>\<open>std::log\<close> and \<^verbatim>\<open>std::sqrt\<close>: the logarithm of zero is minus infinity, the
  logarithm and the square root of a negative number are not a number.\<close>

fun fl_log :: "fl \<Rightarrow> fl" where
  "fl_log (Fin a) = (if 0 < a then Fin (ln a) else if a = 0 then NInf else NaN)"
| "fl_log PInf = PInf"
| "fl_log NInf = NaN"
| "fl_log NaN = NaN"

fun fl_sqrt :: "fl \<Rightarrow> fl" where
  "fl_sqrt (Fin a) = (if 0 \<le> a then Fin (sqrt a) else NaN)"
| "fl_sqrt PInf = PInf"
| "fl_sqrt NInf = NaN"
| "fl_sqrt NaN = NaN"

text \<open>The comparison \<^verbatim>\<open><\<close>: false whenever an operand is not a number.\<close>

fun fl_less :: "fl \<Rightarrow> fl \<Rightarrow> bool" where
  "fl_less (Fin a) (Fin b) = (a < b)"
| "fl_less NaN _ = False"
| "fl_less _ NaN = False"
| "fl_less PInf _ = False"
| "fl_less _ NInf = False"
| "fl_less NInf _ = True"
| "fl_less _ PInf = True"

text \<open>\<^verbatim>\<open>target_position.Length()\<close>, the routine of the library that \<open>Length\<close> stands
  for, here as the float computation \<^verbatim>\<open>std::sqrt(x * x + y * y)\<close> with the overflow of
  the squares and of their sum.\<close>

definition float_Length :: "Vector2 \<Rightarrow> fl" where
  "float_Length v = fl_sqrt (fl_add (fl_mul (Fin (vx v)) (Fin (vx v))) (fl_mul (Fin (vy v)) (Fin (vy v))))"

text \<open>The last line of each band: \<^verbatim>\<open>std::sqrt(c0 * target_speed * target_speed + c1 * target_speed + c2)\<close>.\<close>

definition band_speed :: "fl \<Rightarrow> fl \<Rightarrow> fl \<Rightarrow> real \<Rightarrow> fl" where
  "band_speed c0 c1 c2 target_speed =
     fl_sqrt (fl_add (fl_add (fl_mul (fl_mul c0 (Fin target_speed)) (Fin target_speed))
                             (fl_mul c1 (Fin target_speed)))
                     c2)"

text \<open>
  The regression is discontinuous at four of its constants: the bound \<^verbatim>\<open>0.05f\<close> of the
  first band and the offsets inside the three logarithms, the second entries of the three
  arrays \<^verbatim>\<open>kC1\<close>. These are the \<^verbatim>\<open>float\<close> values of the program: \<^verbatim>\<open>0.05f\<close> is
  13421773 / 2^28 (0.0500000007...), and the floats nearest to the literals
  29.898958358378636, 29.86751291726946 and 8.228225657195706 are 15675665 / 2^19
  (29.8989582...), 15659179 / 2^19 (29.8675136...) and 539245 / 2^16 (8.2282257...). A
  distance close to an offset is a multiple of 1 / 2^19 like the offset, and their
  difference is computed exactly. The other coefficients are written as in the source.
\<close>

abbreviation band_low_max :: real where "band_low_max \<equiv> 13421773 / 2 ^ 28"

abbreviation offset_low :: real where "offset_low \<equiv> 15675665 / 2 ^ 19"

abbreviation offset_mid :: real where "offset_mid \<equiv> 15659179 / 2 ^ 19"

abbreviation offset_high :: real where "offset_high \<equiv> 539245 / 2 ^ 16"

text \<open>The three bands, the operations applied in the order in which the expressions of
  the source associate.\<close>

definition v0_speed :: "fl \<Rightarrow> real \<Rightarrow> fl" where
  "v0_speed target_r target_speed =
     (if target_speed \<le> band_low_max then
        (let c0 = fl_add (fl_mul (Fin 0.0005048122574925176) target_r) (Fin 0.2756242531609261);
             c1 = fl_add (fl_mul (Fin (- 0.00046669575066030805))
                                 (fl_log (fl_add target_r (Fin (- offset_low)))))
                         (Fin (- 0.0014030973174948508));
             c2 = fl_add (fl_mul (Fin 0.13968687866736632) target_r) (Fin 0.41120940058777616)
         in band_speed c0 c1 c2 target_speed)
      else if target_speed \<le> 1 then
        (let c0 = fl_add (fl_mul (Fin (- 0.0014309170115803444)) target_r) (Fin 0.9858457898438147);
             c1 = fl_add (fl_mul (Fin (- (- 0.0008339331735471273)))
                                 (fl_log (fl_add target_r (Fin (- offset_mid)))))
                         (Fin (- 0.19811799977982522));
             c2 = fl_add (fl_mul (Fin 0.13967323742978) target_r) (Fin 0.42816312110477517)
         in band_speed c0 c1 c2 target_speed)
      else
        (let c0 = fl_add (fl_add (fl_add
                      (fl_mul (fl_mul (fl_mul (Fin 0.0000010833113118071224) target_r) target_r) target_r)
                      (fl_mul (fl_mul (Fin (- 0.00012132851917870833)) target_r) target_r))
                      (fl_mul (Fin 0.004578093297561233) target_r))
                      (Fin 0.9767006869364527);
             c1 = fl_add (fl_mul (Fin (- 0.07950648211492622))
                                 (fl_log (fl_add target_r (Fin (- offset_high)))))
                         (Fin (- 0.05601306077702578));
             c2 = fl_add (fl_mul (Fin 0.14140440186382008) target_r) (Fin 0.3875782508767419)
         in band_speed c0 c1 c2 target_speed))"

text \<open>
  The first lambda of the function with the assertions around it: the launch speed, or the
  failed assertion. A launch speed that is not a number compares false with everything,
  so \<^verbatim>\<open>assert(target_speed < v0_speed)\<close> fails on it; an infinite one passes.
\<close>

definition launch_speed :: "Vector2 \<Rightarrow> real \<Rightarrow> failure + fl" where
  "launch_speed target_position target_speed =
     (if \<not> target_speed \<ge> 0 then Inl AssertionFailed
      else if \<not> target_speed \<le> 4 then Inl AssertionFailed
      else (let target_r = float_Length target_position in
              if \<not> fl_less (Fin 0) target_r then Inl AssertionFailed
              else (let v0 = v0_speed target_r target_speed in
                      if fl_less (Fin target_speed) v0 then Inr v0 else Inl AssertionFailed)))"

text \<open>
  The trial shot: step the simulator until stone 0 is as slow as the target speed or all
  stones have stopped. The loop ends only if the simulator lets it: \<open>None\<close> is the run
  that never ends. Reading stone 0 when the simulator reports none is undefined in the
  source.
\<close>

partial_function (option) trial_shot ::
  "('sim, 'player, 'setting) Library \<Rightarrow> real \<Rightarrow> 'sim \<Rightarrow> (failure + Vector2 \<times> 'sim) option" where
  "trial_shot lib target_speed sim =
     (if \<not> AreAllStonesStopped lib sim then
        (case GetStones lib sim 0 of
           None \<Rightarrow> Some (Inl UndefinedBehaviour)
         | Some st \<Rightarrow>
             if Length (linear_velocity st) \<le> target_speed then Some (Inr (position st, sim))
             else trial_shot lib target_speed (Step lib sim))
      else
        (case GetStones lib sim 0 of
           None \<Rightarrow> Some (Inl UndefinedBehaviour)
         | Some st \<Rightarrow> Some (Inr (position st, sim))))"

text \<open>\<^verbatim>\<open>std::atan2\<close>, by the quadrant of its second argument.\<close>

definition atan2 :: "real \<Rightarrow> real \<Rightarrow> real" where
  "atan2 b a =
     (if 0 < a then arctan (b / a)
      else if a < 0 \<and> 0 \<le> b then arctan (b / a) + pi
      else if a < 0 then arctan (b / a) - pi
      else if 0 < b then pi / 2
      else if b < 0 then - pi / 2
      else 0)"

text \<open>
  The whole function. With a finite launch speed the model follows the source to its
  return. With an infinite one (the assertion passes on it) the source goes on, handing
  the simulator a stone of infinite velocity; the stone states of the model carry reals,
  and the model ends that run with the value \<open>NonFinite\<close> instead of following it.
\<close>

definition EstimateShotVelocityFCV1 ::
  "('sim, 'player, 'setting) Library \<Rightarrow> ('sim, 'player, 'setting) Globals \<Rightarrow>
     Vector2 \<Rightarrow> real \<Rightarrow> Rotation \<Rightarrow> failure + Vector2 \<times> ('sim, 'player, 'setting) Globals" where
  "EstimateShotVelocityFCV1 lib g target_position target_speed rot =
     (case launch_speed target_position target_speed of
        Inl f \<Rightarrow> Inl f
      | Inr (Fin v0_speed') \<Rightarrow>
          (let rotation_factor = (if rot = kCCW then 1 else - 1);
               sim0 = (case s_simulator g of
                         None \<Rightarrow> CreateSimulator (SimulatorFCV1Factory lib)
                       | Some s \<Rightarrow> s);
               init_stones = (\<lambda>i. None)(0 := Some \<lparr>position = Vector2 0 0, angle = 0,
                                 linear_velocity = Vector2 0 v0_speed',
                                 angular_velocity = 1.57 * rotation_factor\<rparr>);
               sim1 = SetStones lib init_stones sim0
           in case trial_shot lib target_speed sim1 of
                None \<Rightarrow> Inl Diverges
              | Some (Inl f) \<Rightarrow> Inl f
              | Some (Inr (delta, sim2)) \<Rightarrow>
                  (let delta_angle = atan2 (vx delta) (vy delta);
                       target_angle = atan2 (vy target_position) (vx target_position);
                       v0_angle = target_angle + delta_angle
                   in Inr (Vector2 (v0_speed' * cos v0_angle) (v0_speed' * sin v0_angle),
                           g\<lparr>s_simulator := Some sim2\<rparr>)))
      | Inr _ \<Rightarrow> Inl NonFinite)"



subsection \<open>\<^verbatim>\<open>OnInit\<close>\<close>

text \<open>What the process does to the outside, in order.\<close>

datatype event =
    Connect string string
  | SocketWrite string
  | Stdout string
  | Stderr string

definition unsupported_simulator_warning :: string where
  "unsupported_simulator_warning =
     ''warning!: Unsupported simulator! EstimateShotVelocityFCV1() is only available for \"fcv1\" simulator.''"

text \<open>
  The loop that fills \<^verbatim>\<open>g_players\<close>. \<^verbatim>\<open>player_factories[player_order[i]]\<close> reads a
  four-element array at an index the caller chose.
\<close>

function OnInit_players ::
  "('sim, 'player, 'setting) Library \<Rightarrow> (nat \<Rightarrow> 'player IPlayerFactory option) \<Rightarrow> (nat \<Rightarrow> nat) \<Rightarrow>
     (nat \<Rightarrow> 'player) \<Rightarrow> nat \<Rightarrow> failure + (nat \<Rightarrow> 'player)" where
  "OnInit_players lib player_factories player_order players i =
     (if i < 4 then
        (if \<not> player_order i < 4 then Inl UndefinedBehaviour
         else
           (case player_factories (player_order i) of
              Some player_factory \<Rightarrow>
                OnInit_players lib player_factories player_order
                  (players(i := CreatePlayer player_factory)) (Suc i)
            | None \<Rightarrow>
                OnInit_players lib player_factories player_order
                  (players(i := CreatePlayer (PlayerNormalDistFactory lib))) (Suc i)))
      else Inr players)"
  by pat_completeness auto
termination
  by (relation "measure (\<lambda>(lib, player_factories, player_order, players, i). 4 - i)") auto

declare OnInit_players.simps [simp del]

text \<open>
  \<^verbatim>\<open>OnInit\<close> sets every global; the model builds the record of globals. In the source
  the \<^verbatim>\<open>if\<close> that guarded the warning is part of the comment line above it, so the
  warning is the first statement of the body. \<open>players0\<close> stands for the four empty
  slots of \<^verbatim>\<open>g_players\<close> before the call.
\<close>

definition OnInit ::
  "('sim, 'player, 'setting) Library \<Rightarrow> (nat \<Rightarrow> 'player) \<Rightarrow> Team \<Rightarrow> 'setting \<Rightarrow>
     'sim ISimulatorFactory option \<Rightarrow> (nat \<Rightarrow> 'player IPlayerFactory option) \<Rightarrow> (nat \<Rightarrow> nat) \<Rightarrow>
     event list \<times> (failure + ('sim, 'player, 'setting) Globals)" where
  "OnInit lib players0 a_team game_setting simulator_factory player_factories player_order =
     ([Stdout (unsupported_simulator_warning @ [CHR 0x0A])],
      (let sim = (case simulator_factory of
                    Some f \<Rightarrow> CreateSimulator f
                  | None \<Rightarrow> CreateSimulator (SimulatorFCV1Factory lib))
       in case OnInit_players lib player_factories player_order players0 0 of
            Inl f \<Rightarrow> Inl f
          | Inr players \<Rightarrow>
              Inr \<lparr>g_team = a_team, g_game_setting = game_setting, g_simulator = sim,
                   g_simulator_storage = sim, g_players = players, s_simulator = None,
                   trace = []\<rparr>))"

subsection \<open>\<^verbatim>\<open>OnMyTurn\<close>\<close>

text \<open>\<^verbatim>\<open>ISimulator::Save\<close> and \<^verbatim>\<open>ISimulator::Load\<close> on the match simulator and the
  storage of the session: the storage takes a copy of the simulator state, the simulator
  takes the state back.\<close>

definition Save :: "('sim, 'player, 'setting) Globals \<Rightarrow> ('sim, 'player, 'setting) Globals" where
  "Save g = g\<lparr>g_simulator_storage := g_simulator g, trace := trace g @ [EvSave]\<rparr>"

definition Load :: "('sim, 'player, 'setting) Globals \<Rightarrow> ('sim, 'player, 'setting) Globals" where
  "Load g = g\<lparr>g_simulator := g_simulator_storage g, trace := trace g @ [EvLoad]\<rparr>"

text \<open>
  \<^verbatim>\<open>dc::ApplyMove(g_game_setting, *g_simulator, current_player, temp_game_state, temp_move, 0ms)\<close>
  where \<^verbatim>\<open>current_player\<close> is \<^verbatim>\<open>*g_players[game_state.shot / 4]\<close> and
  \<^verbatim>\<open>temp_game_state\<close> a copy of the game state.
\<close>

definition rollout ::
  "('sim, 'player, 'setting) Library \<Rightarrow> ('sim, 'player, 'setting) Globals \<Rightarrow> GameState \<Rightarrow> Move \<Rightarrow>
     failure + GameState \<times> ('sim, 'player, 'setting) Globals" where
  "rollout lib g game_state temp_move =
     (case ApplyMove lib (g_game_setting g) (g_simulator g) (g_players g (shot game_state div 4))
             game_state temp_move of
        Inl e \<Rightarrow> Inl (Thrown e)
      | Inr (sim', player', temp_game_state) \<Rightarrow>
          Inr (temp_game_state,
               g\<lparr>g_simulator := sim',
                 g_players := (g_players g)(shot game_state div 4 := player'),
                 trace := trace g @ [EvApplyMove (g_simulator g) sim']\<rparr>))"

text \<open>The test that ends the speed search.\<close>

definition hit_succeeded :: "GameState \<Rightarrow> StoneIndex \<Rightarrow> GameState \<Rightarrow> bool" where
  "hit_succeeded game_state idx temp_game_state =
     (stones temp_game_state (shot game_state mod 2) (shot game_state div 2) \<noteq> None \<and>
      stones temp_game_state (team idx) (stone idx) = None)"

text \<open>\<^verbatim>\<open>for (; speed < 3.5f; speed += 0.5f)\<close>, entered with \<^verbatim>\<open>speed = 0.5f\<close>; the
  result is the value of \<^verbatim>\<open>speed\<close> after the loop.\<close>

function speed_search ::
  "('sim, 'player, 'setting) Library \<Rightarrow> ('sim, 'player, 'setting) Globals \<Rightarrow> GameState \<Rightarrow>
     StoneIndex \<Rightarrow> Transform \<Rightarrow> real \<Rightarrow> failure + real \<times> ('sim, 'player, 'setting) Globals" where
  "speed_search lib g game_state idx target speed =
     (if speed < 3.5 then
        (case EstimateShotVelocityFCV1 lib g (position target) speed kCCW of
           Inl f \<Rightarrow> Inl f
         | Inr (v, g1) \<Rightarrow>
             (case rollout lib (Load g1) game_state (Move_Shot (Shot v kCCW)) of
                Inl f \<Rightarrow> Inl f
              | Inr (temp_game_state, g2) \<Rightarrow>
                  if hit_succeeded game_state idx temp_game_state then Inr (speed, g2)
                  else speed_search lib g2 game_state idx target (speed + 0.5)))
      else Inr (speed, g))"
  by pat_completeness auto
termination
proof (relation "measure (\<lambda>(lib, g, game_state, idx, target, speed). nat \<lceil>(3.5 - speed) * 2\<rceil>)",
    goal_cases)
  case 1
  show ?case by simp
next
  case (2 lib g game_state idx target speed)
  have e: "(3.5 - (speed + 0.5)) * 2 = (3.5 - speed) * 2 - 1" by (simp add: algebra_simps)
  have p: "0 < \<lceil>(3.5 - speed) * 2\<rceil>" using 2(1) by (simp add: less_ceiling_iff)
  have "nat \<lceil>(3.5 - (speed + 0.5)) * 2\<rceil> < nat \<lceil>(3.5 - speed) * 2\<rceil>"
    unfolding e ceiling_diff_one using p by linarith
  then show ?case by simp
qed

declare speed_search.simps [simp del]

text \<open>The body of the two scoring loops: one rollout of candidate \<open>j\<close>.\<close>

definition add_point :: "int list \<Rightarrow> nat \<Rightarrow> int list" where
  "add_point points j = points[j := points ! j + 1]"

function score_inner ::
  "('sim, 'player, 'setting) Library \<Rightarrow> ('sim, 'player, 'setting) Globals \<Rightarrow> GameState \<Rightarrow>
     StoneIndex \<Rightarrow> Shot list \<Rightarrow> int list \<Rightarrow> nat \<Rightarrow>
     failure + int list \<times> ('sim, 'player, 'setting) Globals" where
  "score_inner lib g game_state idx candidate_shots points j =
     (if j < length candidate_shots then
        (case rollout lib (Load g) game_state (Move_Shot (candidate_shots ! j)) of
           Inl f \<Rightarrow> Inl f
         | Inr (temp_game_state, g1) \<Rightarrow>
             (let points1 = (if stones temp_game_state (shot game_state mod 2) (shot game_state div 2) \<noteq> None
                             then add_point points j else points);
                  points2 = (if stones temp_game_state (team idx) (stone idx) = None
                             then add_point points1 j else points1)
              in score_inner lib g1 game_state idx candidate_shots points2 (Suc j)))
      else Inr (points, g))"
  by pat_completeness auto
termination
  by (relation "measure (\<lambda>(lib, g, game_state, idx, candidate_shots, points, j). length candidate_shots - j)")
     auto

declare score_inner.simps [simp del]

function score_outer ::
  "('sim, 'player, 'setting) Library \<Rightarrow> ('sim, 'player, 'setting) Globals \<Rightarrow> GameState \<Rightarrow>
     StoneIndex \<Rightarrow> Shot list \<Rightarrow> int list \<Rightarrow> nat \<Rightarrow>
     failure + int list \<times> ('sim, 'player, 'setting) Globals" where
  "score_outer lib g game_state idx candidate_shots points i =
     (if i < 3 then
        (case score_inner lib g game_state idx candidate_shots points 0 of
           Inl f \<Rightarrow> Inl f
         | Inr (points', g1) \<Rightarrow> score_outer lib g1 game_state idx candidate_shots points' (Suc i))
      else Inr (points, g))"
  by pat_completeness auto
termination
  by (relation "measure (\<lambda>(lib, g, game_state, idx, candidate_shots, points, i). 3 - i)") auto

declare score_outer.simps [simp del]

text \<open>The body of the loop over the sorted indices for an opponent stone that is present:
  the speed search, the two candidates, their scores, the choice.\<close>

definition attack ::
  "('sim, 'player, 'setting) Library \<Rightarrow> ('sim, 'player, 'setting) Globals \<Rightarrow> GameState \<Rightarrow>
     StoneIndex \<Rightarrow> Transform \<Rightarrow> failure + Move \<times> ('sim, 'player, 'setting) Globals" where
  "attack lib g game_state idx target =
     (case speed_search lib g game_state idx target 0.5 of
        Inl f \<Rightarrow> Inl f
      | Inr (speed, g1) \<Rightarrow>
          (case EstimateShotVelocityFCV1 lib g1 (position target) speed kCCW of
             Inl f \<Rightarrow> Inl f
           | Inr (v_ccw, g2) \<Rightarrow>
               (case EstimateShotVelocityFCV1 lib g2 (position target) speed kCW of
                  Inl f \<Rightarrow> Inl f
                | Inr (v_cw, g3) \<Rightarrow>
                    (let candidate_shots = [Shot v_ccw kCCW, Shot v_cw kCW]
                     in case score_outer lib g3 game_state idx candidate_shots [0, 0] 0 of
                          Inl f \<Rightarrow> Inl f
                        | Inr (points, g4) \<Rightarrow>
                            if points ! 0 > points ! 1 then Inr (Move_Shot (candidate_shots ! 0), g4)
                            else Inr (Move_Shot (candidate_shots ! 1), g4)))))"

text \<open>The two statements after the loop.\<close>

definition draw_shot ::
  "('sim, 'player, 'setting) Library \<Rightarrow> ('sim, 'player, 'setting) Globals \<Rightarrow>
     failure + Move \<times> ('sim, 'player, 'setting) Globals" where
  "draw_shot lib g =
     (case EstimateShotVelocityFCV1 lib g (kTee lib) 0 kCCW of
        Inl f \<Rightarrow> Inl f
      | Inr (v0, g1) \<Rightarrow> Inr (Move_Shot (Shot v0 kCCW), g1))"

text \<open>\<^verbatim>\<open>for (auto const idx : sorted_indices)\<close>: skip the own team, stop at the first
  absent stone, otherwise return from inside the loop.\<close>

fun target_loop ::
  "('sim, 'player, 'setting) Library \<Rightarrow> ('sim, 'player, 'setting) Globals \<Rightarrow> GameState \<Rightarrow>
     StoneIndex list \<Rightarrow> failure + Move \<times> ('sim, 'player, 'setting) Globals" where
  "target_loop lib g game_state [] = draw_shot lib g"
| "target_loop lib g game_state (idx # rest) =
     (if team idx = team_index (g_team g) then target_loop lib g game_state rest
      else
        (case stones game_state (team idx) (stone idx) of
           None \<Rightarrow> draw_shot lib g
         | Some target \<Rightarrow> attack lib g game_state idx target))"

text \<open>\<^verbatim>\<open>*g_players[game_state.shot / 4]\<close> reads a four-element array.\<close>

definition OnMyTurn ::
  "('sim, 'player, 'setting) Library \<Rightarrow> ('sim, 'player, 'setting) Globals \<Rightarrow> GameState \<Rightarrow>
     failure + Move \<times> ('sim, 'player, 'setting) Globals" where
  "OnMyTurn lib g game_state =
     (let sorted_indices = SortStones (kTee lib) (stones game_state)
      in if \<not> shot game_state div 4 < 4 then Inl UndefinedBehaviour
         else target_loop lib (Save g) game_state sorted_indices)"

subsection \<open>Vocabulary for the properties of the planner\<close>

text \<open>
  The speed search in the words of the specification. A rollout succeeds when it leaves a
  stone at the own slot of the current shot, that is in the row of the planner's team
  \<open>own\<close> at the stone number of the shot, and removes the targeted stone. The search tries
  the given speeds in order, accepts the first whose rollout succeeds, and otherwise falls
  back to the given speed.
\<close>

definition own_stone_stays :: "Team \<Rightarrow> GameState \<Rightarrow> StoneIndex \<Rightarrow> GameState \<Rightarrow> bool" where
  "own_stone_stays own game_state idx temp_game_state =
     (stones temp_game_state (team_index own) (shot game_state div 2) \<noteq> None \<and>
      stones temp_game_state (team idx) (stone idx) = None)"

fun first_accepted ::
  "('sim, 'player, 'setting) Library \<Rightarrow> Team \<Rightarrow> ('sim, 'player, 'setting) Globals \<Rightarrow> GameState \<Rightarrow>
     StoneIndex \<Rightarrow> Transform \<Rightarrow> real list \<Rightarrow> real \<Rightarrow>
     failure + real \<times> ('sim, 'player, 'setting) Globals" where
  "first_accepted lib own g game_state idx target [] fallback = Inr (fallback, g)"
| "first_accepted lib own g game_state idx target (speed # speeds) fallback =
     (case EstimateShotVelocityFCV1 lib g (position target) speed kCCW of
        Inl f \<Rightarrow> Inl f
      | Inr (v, g1) \<Rightarrow>
          (case rollout lib (Load g1) game_state (Move_Shot (Shot v kCCW)) of
             Inl f \<Rightarrow> Inl f
           | Inr (temp_game_state, g2) \<Rightarrow>
               if own_stone_stays own game_state idx temp_game_state then Inr (speed, g2)
               else first_accepted lib own g2 game_state idx target speeds fallback))"

text \<open>A history made of rollouts only, each one right after a restore and started from
  the simulator state \<open>s0\<close>.\<close>

fun rollouts_from :: "'sim \<Rightarrow> 'sim sim_event list \<Rightarrow> bool" where
  "rollouts_from s0 [] = True"
| "rollouts_from s0 (EvLoad # EvApplyMove a b # evs) = (a = s0 \<and> rollouts_from s0 evs)"
| "rollouts_from s0 (e # evs) = False"

text \<open>The simulator state that a history leaves: the one the last rollout left, or the
  given state when no rollout ran.\<close>

fun state_left :: "'sim \<Rightarrow> 'sim sim_event list \<Rightarrow> 'sim" where
  "state_left s [] = s"
| "state_left s (EvApplyMove a b # evs) = state_left b evs"
| "state_left s (e # evs) = state_left s evs"

text \<open>What a part of the planner may do to the globals: add rollouts from the stored
  state to the history, leave the storage, the team and the settings alone.\<close>

definition planner_run ::
  "('sim, 'player, 'setting) Globals \<Rightarrow> 'sim sim_event list \<Rightarrow> ('sim, 'player, 'setting) Globals \<Rightarrow> bool" where
  "planner_run g evs g' \<longleftrightarrow>
     trace g' = trace g @ evs \<and>
     rollouts_from (g_simulator_storage g) evs \<and>
     g_simulator_storage g' = g_simulator_storage g \<and>
     g_simulator g' = state_left (g_simulator g) evs \<and>
     g_team g' = g_team g"

text \<open>A failure that one of the routines called by the planner produced: a run of the
  estimator, or an exception of \<open>ApplyMove\<close>.\<close>

definition callee_failure :: "('sim, 'player, 'setting) Library \<Rightarrow> failure \<Rightarrow> bool" where
  "callee_failure lib f \<longleftrightarrow>
     (\<exists>(g :: ('sim, 'player, 'setting) Globals) p s r. EstimateShotVelocityFCV1 lib g p s r = Inl f) \<or>
     (\<exists>st sim pl gs m e. ApplyMove lib st sim pl gs m = Inl e \<and> f = Thrown e)"

text \<open>No stone of another team than the planner's is present.\<close>

definition no_opponent_stone :: "Team \<Rightarrow> Stones \<Rightarrow> bool" where
  "no_opponent_stone own sts =
     list_all (\<lambda>idx. team idx = team_index own \<or> sts (team idx) (stone idx) = None) init_indices"

subsection \<open>Concrete inputs\<close>

text \<open>
  A library for running the model on concrete inputs. Its simulator state and its player
  state are counters; a rollout advances both and leaves every stone where it was. Its
  simulator reports all stones stopped at once, stone 0 lying at the origin.
\<close>

definition still_library :: "(nat, nat, unit) Library" where
  "still_library =
     \<lparr>kTee = Vector2 0 38.405,
      ApplyMove = (\<lambda>st sim pl gs m. Inr (Suc sim, Suc pl, gs)),
      SetStones = (\<lambda>sts sim. sim),
      GetStones = (\<lambda>sim i. if i = 0
                     then Some \<lparr>position = Vector2 0 0, angle = 0,
                                linear_velocity = Vector2 0 0, angular_velocity = 0\<rparr>
                     else None),
      Step = (\<lambda>sim. sim),
      AreAllStonesStopped = (\<lambda>sim. True),
      SimulatorFCV1Factory = \<lparr>GetSimulatorId = ''fcv1'', CreateSimulator = 0\<rparr>,
      PlayerNormalDistFactory = \<lparr>CreatePlayer = 0\<rparr>,
      GetNextTeam = (\<lambda>gs. if even (shot gs) then k0 else k1)\<rparr>"

definition start_globals :: "(nat, nat, unit) Globals" where
  "start_globals =
     \<lparr>g_team = k0, g_game_setting = (), g_simulator = 0, g_simulator_storage = 0,
      g_players = (\<lambda>i. 0), s_simulator = None, trace = []\<rparr>"

text \<open>An empty sheet, and a sheet with one stone of team 1 a little short of the tee.\<close>

definition empty_sheet :: GameState where
  "empty_sheet = \<lparr>end_number = 0, shot = 0, stones = (\<lambda>t s. None), game_result = None\<rparr>"

definition one_stone_sheet :: GameState where
  "one_stone_sheet =
     \<lparr>end_number = 0, shot = 2,
      stones = (\<lambda>t s. if t = 1 \<and> s = 0 then Some \<lparr>position = Vector2 0 38, angle = 0\<rparr> else None),
      game_result = None\<rparr>"

text \<open>The same library, except that the third shot that a player throws takes out every
  stone on the sheet and stays as stone 1 of team 0.\<close>

definition third_hit_library :: "(nat, nat, unit) Library" where
  "third_hit_library =
     still_library\<lparr>ApplyMove := (\<lambda>st sim pl gs m. Inr (Suc sim, Suc pl,
        if pl = 2
        then gs\<lparr>stones := (\<lambda>t s. if t = 0 \<and> s = 1 then Some \<lparr>position = Vector2 0 38, angle = 0\<rparr>
                                    else None)\<rparr>
        else gs))\<rparr>"

text \<open>The globals after the speed search on the sheet with one stone, run from the start
  globals once the state is saved: six rollouts, none of them successful.\<close>

definition after_search :: "(nat, nat, unit) Globals" where
  "after_search =
     \<lparr>g_team = k0, g_game_setting = (), g_simulator = 1, g_simulator_storage = 0,
      g_players = (\<lambda>i. 0)(0 := 6), s_simulator = Some 0,
      trace = [EvSave, EvLoad, EvApplyMove 0 1, EvLoad, EvApplyMove 0 1, EvLoad, EvApplyMove 0 1,
               EvLoad, EvApplyMove 0 1, EvLoad, EvApplyMove 0 1, EvLoad, EvApplyMove 0 1]\<rparr>"

subsection \<open>\<^verbatim>\<open>main\<close>: the protocol client\<close>

text \<open>A JSON value, as the parser of the JSON library returns it.\<close>

datatype json =
    JNull
  | JBool bool
  | JInt int
  | JFloat real
  | JString string
  | JArray "json list"
  | JObject "(string \<times> json) list"

text \<open>
  The conversions between JSON and the types of the library, the parser and the printer
  are routines of external libraries: parameters. A conversion that throws returns the
  exception.
\<close>

record ('sim, 'player, 'setting) Codec =
  json_parse :: "string \<Rightarrow> exn + json"
  json_dump :: "json \<Rightarrow> string"
  Team_from_json :: "json \<Rightarrow> exn + Team"
  GameSetting_from_json :: "json \<Rightarrow> exn + 'setting"
  SimulatorFactory_from_json :: "json \<Rightarrow> exn + 'sim ISimulatorFactory option"
  PlayerFactory_from_json :: "json \<Rightarrow> exn + 'player IPlayerFactory option"
  GameState_from_json :: "json \<Rightarrow> exn + GameState"
  Move_to_json :: "Move \<Rightarrow> json"
  ToString :: "Team \<Rightarrow> string"
  float_to_string :: "real \<Rightarrow> string"

text \<open>
  The network. \<open>incoming\<close> lists the pieces of data in which the peer's bytes arrive,
  one piece per call of \<^verbatim>\<open>read_until\<close>; when the list is used up the connection is at
  its end. Connecting and sending fail with the exception given, if any.
\<close>

record World =
  connect_error :: "string \<Rightarrow> string \<Rightarrow> exn option"
  incoming :: "string list"
  send_error :: "string \<Rightarrow> exn option"

datatype exit_status = Exited int | Aborted | Undefined | Hangs | NotFollowed

definition newline :: char where
  "newline = CHR 0x0A"

definition kName :: string where
  "kName = ''AIcyObsidian''"

definition kSupportedProtocolVersionMajor :: int where
  "kSupportedProtocolVersionMajor = 1"

text \<open>\<^verbatim>\<open>std::ostream << int\<close> for a number that is not negative.\<close>

fun string_of_nat :: "nat \<Rightarrow> string" where
  "string_of_nat n =
     (if n < 10 then [char_of (48 + n)]
      else string_of_nat (n div 10) @ [char_of (48 + n mod 10)])"

declare string_of_nat.simps [simp del]

text \<open>The accessors of the JSON library that \<^verbatim>\<open>main\<close> uses.\<close>

definition at_key :: "json \<Rightarrow> string \<Rightarrow> exn + json" where
  "at_key j k =
     (case j of
        JObject kvs \<Rightarrow>
          (case map_of kvs k of
             Some v \<Rightarrow> Inr v
           | None \<Rightarrow> Inl (json_error (''key '' @ k @ '' not found'')))
      | _ \<Rightarrow> Inl (json_error ''cannot use at() with this type''))"

definition get_string :: "json \<Rightarrow> exn + string" where
  "get_string j = (case j of JString s \<Rightarrow> Inr s | _ \<Rightarrow> Inl (json_error ''type must be string''))"

text \<open>
  \<^verbatim>\<open>get<int>()\<close>. The JSON value holds an integer in 64 bits, and the conversion to the
  32-bit \<^verbatim>\<open>int\<close> keeps its low 32 bits, read in two's complement. A floating-point
  number is cut off toward zero; the conversion is undefined when the result does not
  fit into an \<^verbatim>\<open>int\<close>.
\<close>

definition to_int32 :: "int \<Rightarrow> int" where
  "to_int32 n = (n + 2 ^ 31) mod 2 ^ 32 - 2 ^ 31"

definition get_int :: "json \<Rightarrow> failure + int" where
  "get_int j =
     (case j of
        JInt n \<Rightarrow> Inr (to_int32 n)
      | JFloat a \<Rightarrow>
          (let t = (if 0 \<le> a then \<lfloor>a\<rfloor> else \<lceil>a\<rceil>)
           in if - (2 ^ 31) \<le> t \<and> t < 2 ^ 31 then Inr t else Inl UndefinedBehaviour)
      | JBool b \<Rightarrow> Inr (if b then 1 else 0)
      | _ \<Rightarrow> Inl (Thrown (json_error ''type must be number'')))"

text \<open>\<^verbatim>\<open>operator[]\<close> with a number on a constant JSON value: a type error on anything
  but an array, undefined beyond the end of the array.\<close>

definition at_index :: "json \<Rightarrow> nat \<Rightarrow> failure + json" where
  "at_index j i =
     (case j of
        JArray xs \<Rightarrow> if i < length xs then Inr (xs ! i) else Inl UndefinedBehaviour
      | _ \<Rightarrow> Inl (Thrown (json_error ''cannot use operator[] with a numeric argument with this type'')))"

text \<open>
  \<^verbatim>\<open>read_next_line\<close>. The state is the buffer of the lambda and the data still to
  arrive. \<^verbatim>\<open>read_until\<close> returns once the buffer holds a newline, and throws if the
  connection ends before. Without a newline in the buffer \<^verbatim>\<open>find_first_of\<close> gives
  \<^verbatim>\<open>npos\<close>, \<^verbatim>\<open>npos + 1\<close> is 0, and the line is empty and nothing is erased.
\<close>

type_synonym instream = "string \<times> string list"

definition first_line :: "string \<Rightarrow> string" where
  "first_line buf =
     (if newline \<in> set buf then takeWhile (\<lambda>c. c \<noteq> newline) buf @ [newline] else [])"

definition after_first_line :: "string \<Rightarrow> string" where
  "after_first_line buf =
     (if newline \<in> set buf then tl (dropWhile (\<lambda>c. c \<noteq> newline) buf) else buf)"

definition read_next_line :: "instream \<Rightarrow> exn + string \<times> instream" where
  "read_next_line inp =
     (case inp of (input_buffer, pieces) \<Rightarrow>
        if input_buffer = [] then
          (case pieces of
             [] \<Rightarrow> Inl (system_error ''read_until: End of file'')
           | piece # rest \<Rightarrow>
               if newline \<in> set piece
               then Inr (first_line piece, (after_first_line piece, rest))
               else Inl (system_error ''read_until: End of file''))
        else Inr (first_line input_buffer, (after_first_line input_buffer, pieces)))"

text \<open>\<^verbatim>\<open>json::parse(line)\<close>; the parser of the library rejects the empty text.\<close>

definition parse_line :: "('sim, 'player, 'setting) Codec \<Rightarrow> string \<Rightarrow> exn + json" where
  "parse_line codec line =
     (if line = [] then Inl (json_error ''parse error: unexpected end of input'')
      else json_parse codec line)"

definition check_command :: "json \<Rightarrow> string \<Rightarrow> exn + unit" where
  "check_command jin expected_cmd =
     (case at_key jin ''cmd'' of
        Inl e \<Rightarrow> Inl e
      | Inr c \<Rightarrow>
          (case get_string c of
             Inl e \<Rightarrow> Inl e
           | Inr actual_cmd \<Rightarrow>
               if actual_cmd \<noteq> expected_cmd
               then Inl (runtime_error (''Unexpected cmd (expected: \"'' @ expected_cmd
                           @ ''\", actual: \"'' @ actual_cmd @ ''\")''))
               else Inr ()))"

text \<open>
  A step of \<^verbatim>\<open>main\<close> yields what it wrote and either its result or the failure that
  ended it. \<open>io_bind\<close> runs a step and then the next one on its result; \<open>io_throw\<close>
  turns the result of a library call into a step.
\<close>

type_synonym 'a io = "event list \<times> (failure + 'a)"

definition io_bind :: "'a io \<Rightarrow> ('a \<Rightarrow> 'b io) \<Rightarrow> 'b io" where
  "io_bind m k =
     (case m of
        (evs, Inl f) \<Rightarrow> (evs, Inl f)
      | (evs, Inr a) \<Rightarrow> (case k a of (evs', r) \<Rightarrow> (evs @ evs', r)))"

definition io_return :: "'a \<Rightarrow> 'a io" where
  "io_return a = ([], Inr a)"

definition io_throw :: "exn + 'a \<Rightarrow> 'a io" where
  "io_throw r = (case r of Inl e \<Rightarrow> ([], Inl (Thrown e)) | Inr a \<Rightarrow> ([], Inr a))"

definition io_print :: "string \<Rightarrow> unit io" where
  "io_print s = ([Stdout s], Inr ())"

definition socket_write :: "World \<Rightarrow> string \<Rightarrow> unit io" where
  "socket_write world msg =
     (case send_error world msg of
        Some e \<Rightarrow> ([], Inl (Thrown e))
      | None \<Rightarrow> ([SocketWrite msg], Inr ()))"

text \<open>Read a line, parse it, check its command.\<close>

definition receive ::
  "('sim, 'player, 'setting) Codec \<Rightarrow> instream \<Rightarrow> string \<Rightarrow> (json \<times> instream) io" where
  "receive codec inp expected_cmd =
     io_bind (io_throw (read_next_line inp)) (\<lambda>(line, inp').
     io_bind (io_throw (parse_line codec line)) (\<lambda>jin.
     io_bind (io_throw (check_command jin expected_cmd)) (\<lambda>_.
     io_return (jin, inp'))))"

text \<open>\<^verbatim>\<open>[in] dc\<close> and \<^verbatim>\<open>[out] dc_ok\<close>.\<close>

definition handshake ::
  "('sim, 'player, 'setting) Codec \<Rightarrow> World \<Rightarrow> instream \<Rightarrow> instream io" where
  "handshake codec world inp =
     io_bind (receive codec inp ''dc'') (\<lambda>(jin, inp').
     io_bind (io_throw (at_key jin ''version'')) (\<lambda>jin_version.
     io_bind (io_throw (at_key jin_version ''major'')) (\<lambda>jmajor.
     io_bind ([], get_int jmajor) (\<lambda>major.
     io_bind (if major \<noteq> kSupportedProtocolVersionMajor
              then io_throw (Inl (runtime_error ''Unexpected protocol version''))
              else io_return ()) (\<lambda>_.
     io_bind (io_print (''[in] dc'' @ [newline])) (\<lambda>_.
     io_bind (io_print ''  game_id  : '') (\<lambda>_.
     io_bind (io_throw (at_key jin ''game_id'')) (\<lambda>jid.
     io_bind (io_throw (get_string jid)) (\<lambda>game_id.
     io_bind (io_print (game_id @ [newline])) (\<lambda>_.
     io_bind (io_print ''  date_time: '') (\<lambda>_.
     io_bind (io_throw (at_key jin ''date_time'')) (\<lambda>jdt.
     io_bind (io_throw (get_string jdt)) (\<lambda>date_time.
     io_bind (io_print (date_time @ [newline])) (\<lambda>_.
     io_bind (socket_write world
                (json_dump codec (JObject [(''cmd'', JString ''dc_ok''), (''name'', JString kName)])
                   @ [newline])) (\<lambda>_.
     io_bind (io_print (''[out] dc_ok'' @ [newline])) (\<lambda>_.
     io_bind (io_print (''  name: '' @ kName @ [newline])) (\<lambda>_.
     io_return inp')))))))))))))))))"

text \<open>The two \<^verbatim>\<open>try\<close> blocks of \<^verbatim>\<open>is_ready\<close>: an exception of the conversion is
  printed and leaves the factory pointer null.\<close>

definition try_simulator_factory ::
  "('sim, 'player, 'setting) Codec \<Rightarrow> json \<Rightarrow> ('sim ISimulatorFactory option) io" where
  "try_simulator_factory codec jin_simulator =
     (case SimulatorFactory_from_json codec jin_simulator of
        Inr f \<Rightarrow> io_return f
      | Inl e \<Rightarrow> ([Stdout (''Exception: '' @ what e @ [newline])], Inr None))"

definition try_player_factory ::
  "('sim, 'player, 'setting) Codec \<Rightarrow> json \<Rightarrow> nat \<Rightarrow> ('player IPlayerFactory option) io" where
  "try_player_factory codec jin_player_factories i =
     (case at_index jin_player_factories i of
        Inl (Thrown e) \<Rightarrow> ([Stdout (''Exception: '' @ what e @ [newline])], Inr None)
      | Inl f \<Rightarrow> ([], Inl f)
      | Inr jp \<Rightarrow>
          (case PlayerFactory_from_json codec jp of
             Inr f \<Rightarrow> io_return f
           | Inl e \<Rightarrow> ([Stdout (''Exception: '' @ what e @ [newline])], Inr None)))"

definition identity_order :: "nat \<Rightarrow> nat" where
  "identity_order i = i"

text \<open>\<^verbatim>\<open>[in] is_ready\<close> and \<^verbatim>\<open>[out] ready_ok\<close>. The result is the team, the globals
  that \<^verbatim>\<open>OnInit\<close> set and the rest of the input.\<close>

definition ready ::
  "('sim, 'player, 'setting) Library \<Rightarrow> ('sim, 'player, 'setting) Codec \<Rightarrow> World \<Rightarrow> (nat \<Rightarrow> 'player) \<Rightarrow>
     instream \<Rightarrow> (Team \<times> ('sim, 'player, 'setting) Globals \<times> instream) io" where
  "ready lib codec world players0 inp =
     io_bind (receive codec inp ''is_ready'') (\<lambda>(jin, inp').
     io_bind (io_throw (at_key jin ''game'')) (\<lambda>jgame.
     io_bind (io_throw (at_key jgame ''rule'')) (\<lambda>jrule.
     io_bind (io_throw (get_string jrule)) (\<lambda>rule.
     io_bind (if rule \<noteq> ''normal''
              then io_throw (Inl (runtime_error ''Unexpected rule''))
              else io_return ()) (\<lambda>_.
     io_bind (io_throw (at_key jin ''team'')) (\<lambda>jteam.
     io_bind (io_throw (Team_from_json codec jteam)) (\<lambda>a_team.
     io_bind (io_throw (at_key jgame ''setting'')) (\<lambda>jsetting.
     io_bind (io_throw (GameSetting_from_json codec jsetting)) (\<lambda>game_setting.
     io_bind (io_throw (at_key jgame ''simulator'')) (\<lambda>jin_simulator.
     io_bind (try_simulator_factory codec jin_simulator) (\<lambda>simulator_factory.
     io_bind (io_throw (at_key jgame ''players'')) (\<lambda>jplayers.
     io_bind (io_throw (at_key jplayers (ToString codec a_team))) (\<lambda>jin_player_factories.
     io_bind (try_player_factory codec jin_player_factories 0) (\<lambda>pf0.
     io_bind (try_player_factory codec jin_player_factories 1) (\<lambda>pf1.
     io_bind (try_player_factory codec jin_player_factories 2) (\<lambda>pf2.
     io_bind (try_player_factory codec jin_player_factories 3) (\<lambda>pf3.
     io_bind (io_print (''[in] is_ready'' @ [newline])) (\<lambda>_.
     io_bind (OnInit lib players0 a_team game_setting simulator_factory
                ((\<lambda>i. None)(0 := pf0, 1 := pf1, 2 := pf2, 3 := pf3)) identity_order) (\<lambda>g.
     io_bind (socket_write world
                (json_dump codec (JObject [(''cmd'', JString ''ready_ok''),
                   (''player_order'', JArray [JInt 0, JInt 1, JInt 2, JInt 3])]) @ [newline])) (\<lambda>_.
     io_bind (io_print (''[out] ready_ok'' @ [newline])) (\<lambda>_.
     io_bind (io_print (''  player order: ''
                @ json_dump codec (JArray [JInt 0, JInt 1, JInt 2, JInt 3]) @ [newline])) (\<lambda>_.
     io_return (a_team, g, inp')))))))))))))))))))))))"

text \<open>\<^verbatim>\<open>[in] new_game\<close>.\<close>

definition new_game :: "('sim, 'player, 'setting) Codec \<Rightarrow> instream \<Rightarrow> instream io" where
  "new_game codec inp =
     io_bind (receive codec inp ''new_game'') (\<lambda>(jin, inp').
     io_bind (io_print (''[in] new_game'' @ [newline])) (\<lambda>_.
     io_bind (io_print ''  team 0: '') (\<lambda>_.
     io_bind (io_throw (at_key jin ''name'')) (\<lambda>jname.
     io_bind (io_throw (at_key jname ''team0'')) (\<lambda>t0.
     io_bind (io_print (json_dump codec t0 @ [newline])) (\<lambda>_.
     io_bind (io_print ''  team 1: '') (\<lambda>_.
     io_bind (io_throw (at_key jname ''team1'')) (\<lambda>t1.
     io_bind (io_print (json_dump codec t1 @ [newline])) (\<lambda>_.
     io_return inp')))))))))"

text \<open>
  One pass through the body of \<^verbatim>\<open>while (true)\<close> after the line is received: decode the
  game state, stop if the game is over, otherwise plan and send a move or watch the
  opponent. The result says whether the loop stops, with the game state and the globals.
\<close>

definition print_move :: "('sim, 'player, 'setting) Codec \<Rightarrow> Move \<Rightarrow> unit io" where
  "print_move codec move =
     io_bind (io_print (''[out] move'' @ [newline])) (\<lambda>_.
       (case move of
          Move_Shot sh \<Rightarrow>
            io_bind (io_print (''  type    : shot'' @ [newline])) (\<lambda>_.
            io_bind (io_print (''  velocity: ['' @ float_to_string codec (vx (velocity sh)) @ '', ''
                       @ float_to_string codec (vy (velocity sh)) @ '']'' @ [newline])) (\<lambda>_.
            io_print (''  rotation: '' @ (if rotation sh = kCCW then ''ccw'' else ''cw'') @ [newline])))
        | Move_Concede \<Rightarrow> io_print (''  type: concede'' @ [newline])))"

definition OnOpponentTurn :: "GameState \<Rightarrow> unit io" where
  "OnOpponentTurn game_state = io_return ()"

definition on_update ::
  "('sim, 'player, 'setting) Library \<Rightarrow> ('sim, 'player, 'setting) Codec \<Rightarrow> World \<Rightarrow> Team \<Rightarrow>
     ('sim, 'player, 'setting) Globals \<Rightarrow> json \<Rightarrow>
     (bool \<times> GameState \<times> ('sim, 'player, 'setting) Globals) io" where
  "on_update lib codec world a_team g jin =
     io_bind (io_throw (at_key jin ''state'')) (\<lambda>jstate.
     io_bind (io_throw (GameState_from_json codec jstate)) (\<lambda>game_state.
     io_bind (io_print (''[in] update (end: '' @ string_of_nat (end_number game_state)
                @ '', shot: '' @ string_of_nat (shot game_state) @ '')'' @ [newline])) (\<lambda>_.
       if game_result game_state \<noteq> None then io_return (True, game_state, g)
       else if GetNextTeam lib game_state = a_team then
         io_bind ([], OnMyTurn lib g game_state) (\<lambda>(move, g').
         io_bind (socket_write world
                    (json_dump codec (JObject [(''cmd'', JString ''move''),
                       (''move'', Move_to_json codec move)]) @ [newline])) (\<lambda>_.
         io_bind (print_move codec move) (\<lambda>_.
         io_return (False, game_state, g'))))
       else
         io_bind (OnOpponentTurn game_state) (\<lambda>_.
         io_return (False, game_state, g)))))"

text \<open>The measure under which the loop ends: the bytes not yet consumed, counting one
  more for every piece still to arrive.\<close>

fun instream_size :: "instream \<Rightarrow> nat" where
  "instream_size (input_buffer, pieces) =
     length input_buffer + sum_list (map (\<lambda>p. Suc (length p)) pieces)"

function update_loop ::
  "('sim, 'player, 'setting) Library \<Rightarrow> ('sim, 'player, 'setting) Codec \<Rightarrow> World \<Rightarrow> Team \<Rightarrow>
     ('sim, 'player, 'setting) Globals \<Rightarrow> instream \<Rightarrow>
     (GameState \<times> ('sim, 'player, 'setting) Globals \<times> instream) io" where
  "update_loop lib codec world a_team g inp =
     (case receive codec inp ''update'' of
        (evs, Inl f) \<Rightarrow> (evs, Inl f)
      | (evs, Inr (jin, inp')) \<Rightarrow>
          (case on_update lib codec world a_team g jin of
             (evs1, Inl f) \<Rightarrow> (evs @ evs1, Inl f)
           | (evs1, Inr (stop, game_state, g')) \<Rightarrow>
               if stop then (evs @ evs1, Inr (game_state, g', inp'))
               else (case update_loop lib codec world a_team g' inp' of
                       (evs2, r) \<Rightarrow> (evs @ evs1 @ evs2, r))))"
  by pat_completeness auto
termination
proof (relation "measure (\<lambda>(lib, codec, world, a_team, g, inp). instream_size inp)", goal_cases)
  case 1
  show ?case by simp
next
  case (2 lib codec world a_team g inp evs r jinp jin inp')
  from 2(1,2,3) have rcv: "receive codec inp ''update'' = (evs, Inr (jin, inp'))" by simp
  obtain line where rd: "read_next_line inp = Inr (line, inp')" and ne: "line \<noteq> []"
    using rcv
    by (auto simp: receive_def io_bind_def io_throw_def io_return_def parse_line_def
        split: sum.splits prod.splits if_splits)
  have shrink: "length (after_first_line b) < length b" if "first_line b \<noteq> []" for b
  proof -
    from that have nl: "newline \<in> set b" by (auto simp: first_line_def split: if_splits)
    define d where "d = dropWhile (\<lambda>c. c \<noteq> newline) b"
    have "d \<noteq> []" using nl by (simp add: d_def)
    then have "length (tl d) < length d" by (cases d) auto
    moreover have "length d \<le> length b" unfolding d_def by (rule length_dropWhile_le)
    ultimately have "length (tl d) < length b" by (rule less_le_trans)
    moreover have "after_first_line b = tl d" using nl by (simp add: after_first_line_def d_def)
    ultimately show ?thesis by (simp only:)
  qed
  obtain buf pieces where inp: "inp = (buf, pieces)" by (cases inp)
  have "instream_size inp' < instream_size inp"
  proof (cases "buf = []")
    case True
    then obtain piece rest where p: "pieces = piece # rest" "newline \<in> set piece"
      "line = first_line piece" "inp' = (after_first_line piece, rest)"
      using rd inp by (auto simp: read_next_line_def split: list.splits if_splits)
    with shrink[of piece] ne True inp show ?thesis by simp
  next
    case False
    then have "line = first_line buf" "inp' = (after_first_line buf, pieces)"
      using rd inp by (auto simp: read_next_line_def)
    with shrink[of buf] ne inp show ?thesis by simp
  qed
  then show ?case by simp
qed

declare update_loop.simps [simp del]

text \<open>\<^verbatim>\<open>[in] game_over\<close> and \<^verbatim>\<open>OnGameOver\<close>, which reads the winner out of the result.\<close>

definition game_over :: "('sim, 'player, 'setting) Codec \<Rightarrow> instream \<Rightarrow> instream io" where
  "game_over codec inp =
     io_bind (receive codec inp ''game_over'') (\<lambda>(jin, inp').
     io_bind (io_print (''[in] game_over'' @ [newline])) (\<lambda>_.
     io_return inp'))"

definition OnGameOver :: "('sim, 'player, 'setting) Globals \<Rightarrow> GameState \<Rightarrow> unit io" where
  "OnGameOver g game_state =
     (case game_result game_state of
        None \<Rightarrow> ([], Inl UndefinedBehaviour)
      | Some res \<Rightarrow>
          if winner res = g_team g then io_print (''won the game'' @ [newline])
          else io_print (''lost the game'' @ [newline]))"

text \<open>Everything inside the \<^verbatim>\<open>try\<close> block after the check of the arguments.\<close>

definition connect :: "World \<Rightarrow> string \<Rightarrow> string \<Rightarrow> unit io" where
  "connect world host port =
     (case connect_error world host port of
        Some e \<Rightarrow> ([Connect host port], Inl (Thrown e))
      | None \<Rightarrow> ([Connect host port], Inr ()))"

definition session ::
  "('sim, 'player, 'setting) Library \<Rightarrow> ('sim, 'player, 'setting) Codec \<Rightarrow> World \<Rightarrow> (nat \<Rightarrow> 'player) \<Rightarrow>
     string \<Rightarrow> string \<Rightarrow> unit io" where
  "session lib codec world players0 host port =
     io_bind (connect world host port) (\<lambda>_.
     io_bind (handshake codec world ([], incoming world)) (\<lambda>inp1.
     io_bind (ready lib codec world players0 inp1) (\<lambda>(a_team, g, inp2).
     io_bind (new_game codec inp2) (\<lambda>inp3.
     io_bind (update_loop lib codec world a_team g inp3) (\<lambda>(game_state, g', inp4).
     io_bind (game_over codec inp4) (\<lambda>inp5.
     OnGameOver g' game_state))))))"

text \<open>
  \<^verbatim>\<open>main\<close>: the exit status and what the process wrote. An exception is caught, logged
  and followed by \<^verbatim>\<open>return 0\<close>; a failed assertion aborts the process, and a loop of the
  estimator that does not end keeps it from exiting; a run that the model of the estimator
  does not follow (\<open>NonFinite\<close>) has no exit status here. Every exception of the model derives
  from \<^verbatim>\<open>std::exception\<close>, so the handler for other exceptions has no case here.
\<close>

definition usage :: string where
  "usage = ''Usage: command <host> <port>'' @ [newline]"

definition main ::
  "('sim, 'player, 'setting) Library \<Rightarrow> ('sim, 'player, 'setting) Codec \<Rightarrow> World \<Rightarrow> (nat \<Rightarrow> 'player) \<Rightarrow>
     string list \<Rightarrow> exit_status \<times> event list" where
  "main lib codec world players0 argv =
     (if length argv \<noteq> 3 then (Exited 1, [Stderr usage])
      else
        (case session lib codec world players0 (argv ! 1) (argv ! 2) of
           (evs, Inr _) \<Rightarrow> (Exited 0, evs)
         | (evs, Inl (Thrown e)) \<Rightarrow> (Exited 0, evs @ [Stderr (''Exception: '' @ what e @ [newline])])
         | (evs, Inl AssertionFailed) \<Rightarrow> (Aborted, evs)
         | (evs, Inl UndefinedBehaviour) \<Rightarrow> (Undefined, evs)
         | (evs, Inl Diverges) \<Rightarrow> (Hangs, evs)
         | (evs, Inl NonFinite) \<Rightarrow> (NotFollowed, evs)))"

subsection \<open>Concrete inputs for the protocol client\<close>

text \<open>A game that is over, won by team 0.\<close>

definition finished_game :: GameState where
  "finished_game =
     \<lparr>end_number = 0, shot = 0, stones = (\<lambda>t s. None), game_result = Some \<lparr>winner = k0\<rparr>\<rparr>"

text \<open>
  A codec that reads the line \<^verbatim>\<open>over\<close> as an update message and every other line as a
  message with the command \<^verbatim>\<open>hello\<close>, and decodes every state as the finished game.
\<close>

definition plain_codec :: "(nat, nat, unit) Codec" where
  "plain_codec =
     \<lparr>json_parse = (\<lambda>s. if s = ''over'' @ [newline]
                        then Inr (JObject [(''cmd'', JString ''update''), (''state'', JNull)])
                        else Inr (JObject [(''cmd'', JString ''hello'')])),
      json_dump = (\<lambda>j. ''{}''),
      Team_from_json = (\<lambda>j. Inr k0),
      GameSetting_from_json = (\<lambda>j. Inr ()),
      SimulatorFactory_from_json = (\<lambda>j. Inr None),
      PlayerFactory_from_json = (\<lambda>j. Inr None),
      GameState_from_json = (\<lambda>j. Inr finished_game),
      Move_to_json = (\<lambda>m. JNull),
      ToString = (\<lambda>t. ''team0''),
      float_to_string = (\<lambda>a. ''0'')\<rparr>"

text \<open>A peer that accepts the connection, sends the one line \<^verbatim>\<open>hello\<close> and accepts
  whatever is sent.\<close>

definition hello_world :: World where
  "hello_world =
     \<lparr>connect_error = (\<lambda>host port. None),
      incoming = [''hello'' @ [newline]],
      send_error = (\<lambda>msg. None)\<rparr>"

text \<open>
  A match whose \<^verbatim>\<open>is_ready\<close> message lists no players. The first message of the peer is
  a \<^verbatim>\<open>dc\<close> with protocol version 1, the second an \<^verbatim>\<open>is_ready\<close> for team 0 under the
  normal rule in which the array of the players of each team is empty. The codec reads the
  line \<^verbatim>\<open>dc\<close> as the first message and the line \<^verbatim>\<open>is_ready\<close> as the second.
\<close>

definition dc_message :: json where
  "dc_message =
     JObject [(''cmd'', JString ''dc''), (''version'', JObject [(''major'', JInt 1)]),
              (''game_id'', JString ''g''), (''date_time'', JString ''t'')]"

definition short_is_ready :: json where
  "short_is_ready =
     JObject [(''cmd'', JString ''is_ready''), (''team'', JString ''team0''),
              (''game'', JObject [(''rule'', JString ''normal''), (''setting'', JNull),
                                  (''simulator'', JNull),
                                  (''players'', JObject [(''team0'', JArray []), (''team1'', JArray [])])])]"

definition line_codec :: "(nat, nat, unit) Codec" where
  "line_codec =
     plain_codec\<lparr>json_parse := (\<lambda>s. if s = ''dc'' @ [newline] then Inr dc_message
                                    else if s = ''is_ready'' @ [newline] then Inr short_is_ready
                                    else Inl (json_error ''parse error''))\<rparr>"

definition short_players_world :: World where
  "short_players_world =
     \<lparr>connect_error = (\<lambda>host port. None),
      incoming = [''dc'' @ [newline], ''is_ready'' @ [newline]],
      send_error = (\<lambda>msg. None)\<rparr>"

section \<open>Properties\<close>

subsection \<open>\<^verbatim>\<open>SortStones\<close>: the order it produces\<close>

lemma inner_bubble:
  "j < length r \<Longrightarrow>
   SortStones_inner tee sts r j =
     rev (bubble (swap_needed tee sts) (r ! j) (rev (take j r))) @ drop (Suc j) r"
proof (induction j arbitrary: r)
  case 0
  then show ?case by (simp add: Cons_nth_drop_Suc)
next
  case (Suc j)
  let ?P = "swap_needed tee sts"
  let ?r' = "if ?P (r ! j) (r ! Suc j) then swap_at r j (Suc j) else r"
  have len: "j < length ?r'" using Suc.prems by (simp add: swap_at_def)
  have step: "SortStones_inner tee sts r (Suc j) = SortStones_inner tee sts ?r' j" by simp
  have tk: "take (Suc j) r = take j r @ [r ! j]" using Suc.prems by (simp add: take_Suc_conv_app_nth)
  have dr: "drop (Suc j) r = r ! Suc j # drop (Suc (Suc j)) r"
    using Suc.prems by (simp add: Cons_nth_drop_Suc)
  show ?case
  proof (cases "?P (r ! j) (r ! Suc j)")
    case True
    have a: "?r' ! j = r ! Suc j" using True Suc.prems by (simp add: swap_at_def)
    have b: "take j ?r' = take j r" using True by (simp add: swap_at_def)
    have c: "drop (Suc j) ?r' = r ! j # drop (Suc (Suc j)) r"
      using True Suc.prems by (simp add: swap_at_def drop_update_swap Cons_nth_drop_Suc[symmetric] upd_conv_take_nth_drop)
    show ?thesis unfolding step Suc.IH[OF len] a b c using True by (simp add: tk)
  next
    case False
    show ?thesis unfolding step Suc.IH[OF len] using False by (simp add: tk dr)
  qed
qed

lemma swap_needed_key: "swap_needed tee sts = key_swap (tee_distance tee sts)"
  by (auto simp: swap_needed_def key_swap_def tee_distance_def fun_eq_iff split: option.splits)

lemma length_bubble: "length (bubble P x ys) = Suc (length ys)"
  by (induction ys arbitrary: x) auto

lemma mset_bubble: "mset (bubble P x ys) = add_mset x (mset ys)"
  by (induction ys arbitrary: x) auto

lemma mset_bubble_all: "mset (bubble_all P ys xs) = mset ys + mset xs"
  by (induction xs arbitrary: ys) (auto simp: bubble_all_def mset_bubble)

lemma outer_bubble_all:
  "i \<le> 16 \<Longrightarrow> length r = 16 \<Longrightarrow>
   SortStones_outer tee sts r i =
     rev (bubble_all (swap_needed tee sts) (rev (take i r)) (drop i r))"
proof (induction tee sts r i rule: SortStones_outer.induct)
  case (1 tee sts r i)
  let ?P = "swap_needed tee sts"
  show ?case
  proof (cases "i < 16")
    case True
    let ?b = "bubble ?P (r ! i) (rev (take i r))"
    let ?r' = "SortStones_inner tee sts r i"
    have il: "i < length r" using True 1 by simp
    have r': "?r' = rev ?b @ drop (Suc i) r" by (rule inner_bubble[OF il])
    have lb: "length (rev ?b) = Suc i" using il by (simp add: length_bubble)
    have len: "length ?r' = 16" using 1(3) il unfolding r' by (simp add: length_bubble)
    have tk: "take (Suc i) ?r' = rev ?b" unfolding r' using lb by simp
    have dr: "drop (Suc i) ?r' = drop (Suc i) r" unfolding r' using lb by simp
    have "SortStones_outer tee sts r i = SortStones_outer tee sts ?r' (Suc i)"
      using True by (subst SortStones_outer.simps) simp
    also have "\<dots> = rev (bubble_all ?P (rev (take (Suc i) ?r')) (drop (Suc i) ?r'))"
      using 1(1)[OF True _ len] True by simp
    also have "\<dots> = rev (bubble_all ?P ?b (drop (Suc i) r))"
      unfolding tk dr by simp
    also have "\<dots> = rev (bubble_all ?P (rev (take i r)) (r ! i # drop (Suc i) r))"
      by (simp add: bubble_all_def)
    also have "r ! i # drop (Suc i) r = drop i r" using il by (simp add: Cons_nth_drop_Suc)
    finally show ?thesis .
  next
    case False
    then have "i = 16" using 1(2) by simp
    then show ?thesis using 1(3) by (subst SortStones_outer.simps) (simp add: bubble_all_def)
  qed
qed

lemma length_init_indices: "length init_indices = 16"
  by (simp add: init_indices_def)

lemma SortStones_bubble_all:
  "SortStones tee sts = rev (bubble_all (swap_needed tee sts) [] init_indices)"
proof -
  have ne: "init_indices = hd init_indices # tl init_indices"
  proof -
    have "init_indices \<noteq> []" using length_init_indices by auto
    then show ?thesis by simp
  qed
  have t1: "take 1 init_indices = [hd init_indices]"
    by (subst ne) simp
  have d1: "drop 1 init_indices = tl init_indices"
    by (simp add: drop_Suc)
  have "SortStones tee sts =
      rev (bubble_all (swap_needed tee sts) (rev (take 1 init_indices)) (drop 1 init_indices))"
    unfolding SortStones_def by (rule outer_bubble_all) (simp_all add: length_init_indices)
  also have "\<dots> = rev (bubble_all (swap_needed tee sts) [] (hd init_indices # tl init_indices))"
    unfolding t1 d1 by (simp add: bubble_all_def)
  finally show ?thesis using ne by simp
qed

lemma bubble_absent_prefix:
  "\<forall>a\<in>set as. key a = None \<Longrightarrow>
   bubble (key_swap key) x (as @ zs) = as @ bubble (key_swap key) x zs"
  by (induction as) (auto simp: key_swap_def)

lemma bubble_top:
  "\<forall>z\<in>set zs. key z \<noteq> None \<Longrightarrow> sorted_wrt (\<lambda>a b. the (key b) \<le> the (key a)) zs \<Longrightarrow>
   key x = None \<or> (\<forall>z\<in>set zs. the (key z) \<le> the (key x)) \<Longrightarrow>
   bubble (key_swap key) x zs = x # zs"
proof (induction zs arbitrary: x)
  case Nil
  then show ?case by simp
next
  case (Cons a zs)
  have np: "\<not> key_swap key a x"
    using Cons.prems by (auto simp: key_swap_def split: option.splits)
  have "bubble (key_swap key) a zs = a # zs"
    using Cons.prems by (intro Cons.IH) auto
  then show ?case using np by simp
qed

lemma bubble_present:
  "\<forall>z\<in>set zs. key z \<noteq> None \<Longrightarrow> sorted_wrt (\<lambda>a b. the (key b) \<le> the (key a)) zs \<Longrightarrow>
   key x \<noteq> None \<Longrightarrow>
   bubble (key_swap key) x zs =
     takeWhile (\<lambda>a. the (key x) < the (key a)) zs @ x # dropWhile (\<lambda>a. the (key x) < the (key a)) zs"
proof (induction zs)
  case Nil
  then show ?case by simp
next
  case (Cons a zs)
  show ?case
  proof (cases "the (key x) < the (key a)")
    case True
    then have "key_swap key a x" using Cons.prems by (auto simp: key_swap_def split: option.splits)
    then show ?thesis using True Cons by simp
  next
    case False
    then have np: "\<not> key_swap key a x" using Cons.prems by (auto simp: key_swap_def split: option.splits)
    have "bubble (key_swap key) a zs = a # zs"
      using Cons.prems by (intro bubble_top) auto
    then show ?thesis using np False by simp
  qed
qed

lemma pass_inv_Nil: "pass_inv key [] []"
  by (simp add: pass_inv_def)

lemma sorted_wrt_insert_desc:
  fixes f :: "'a \<Rightarrow> 'k::linorder"
  assumes "sorted_wrt (\<lambda>a b. f b \<le> f a) zs"
  shows "sorted_wrt (\<lambda>a b. f b \<le> f a) (takeWhile (\<lambda>a. f x < f a) zs @ x # dropWhile (\<lambda>a. f x < f a) zs)"
proof -
  have 1: "sorted_wrt (\<lambda>a b. f b \<le> f a) (takeWhile (\<lambda>a. f x < f a) zs)"
    using assms by (metis sorted_wrt_append takeWhile_dropWhile_id)
  have 2: "sorted_wrt (\<lambda>a b. f b \<le> f a) (dropWhile (\<lambda>a. f x < f a) zs)"
    using assms by (metis sorted_wrt_append takeWhile_dropWhile_id)
  have 3: "\<forall>a\<in>set (takeWhile (\<lambda>a. f x < f a) zs). f x < f a"
    by (auto dest: set_takeWhileD)
  have 4: "\<forall>b\<in>set (dropWhile (\<lambda>a. f x < f a) zs). f b \<le> f x"
  proof (cases "dropWhile (\<lambda>a. f x < f a) zs")
    case Nil
    show ?thesis unfolding Nil by simp
  next
    case (Cons d ds)
    have "\<not> f x < f d" using Cons by (metis hd_dropWhile list.sel(1) list.distinct(1))
    moreover have "\<forall>b\<in>set ds. f b \<le> f d" using 2 Cons by simp
    ultimately show ?thesis using Cons by auto
  qed
  show ?thesis
    using 1 2 3 4 by (fastforce simp: sorted_wrt_append)
qed

lemma pass_inv_step:
  assumes "pass_inv key xs ys"
  shows "pass_inv key (xs @ [x]) (bubble (key_swap key) x ys)"
proof -
  from assms obtain zs where
    ys: "ys = filter (\<lambda>a. key a = None) xs @ zs" and
    pres: "\<forall>z\<in>set zs. key z \<noteq> None" and
    srt: "sorted_wrt (\<lambda>a b. the (key b) \<le> the (key a)) zs" and
    stab: "\<And>k. filter (\<lambda>a. key a = Some k) zs = rev (filter (\<lambda>a. key a = Some k) xs)"
    unfolding pass_inv_def by blast
  let ?as = "filter (\<lambda>a. key a = None) xs"
  have pre: "bubble (key_swap key) x ys = ?as @ bubble (key_swap key) x zs"
    unfolding ys by (rule bubble_absent_prefix) simp
  show ?thesis
  proof (cases "key x")
    case None
    have "bubble (key_swap key) x zs = x # zs"
      using pres srt None by (intro bubble_top) auto
    then have "bubble (key_swap key) x ys = filter (\<lambda>a. key a = None) (xs @ [x]) @ zs"
      using pre None by simp
    moreover have "\<And>k. filter (\<lambda>a. key a = Some k) zs = rev (filter (\<lambda>a. key a = Some k) (xs @ [x]))"
      using stab None by simp
    ultimately show ?thesis unfolding pass_inv_def using pres srt by blast
  next
    case (Some dx)
    let ?tw = "takeWhile (\<lambda>a. the (key x) < the (key a)) zs"
    let ?dw = "dropWhile (\<lambda>a. the (key x) < the (key a)) zs"
    let ?zs' = "?tw @ x # ?dw"
    have b: "bubble (key_swap key) x zs = ?zs'"
      using pres srt Some by (intro bubble_present) auto
    have 1: "bubble (key_swap key) x ys = filter (\<lambda>a. key a = None) (xs @ [x]) @ ?zs'"
      using pre b Some by simp
    have 2: "\<forall>z\<in>set ?zs'. key z \<noteq> None"
      using pres Some by (auto dest: set_takeWhileD set_dropWhileD)
    have 3: "sorted_wrt (\<lambda>a b. the (key b) \<le> the (key a)) ?zs'"
      using srt by (rule sorted_wrt_insert_desc[where f = "\<lambda>a. the (key a)"])
    have 4: "filter (\<lambda>a. key a = Some k) ?zs' = rev (filter (\<lambda>a. key a = Some k) (xs @ [x]))" for k
    proof (cases "k = dx")
      case True
      have "filter (\<lambda>a. key a = Some k) ?tw = []"
        using True Some by (auto simp: filter_empty_conv dest!: set_takeWhileD)
      moreover have "filter (\<lambda>a. key a = Some k) zs =
          filter (\<lambda>a. key a = Some k) ?tw @ filter (\<lambda>a. key a = Some k) ?dw"
        by (metis filter_append takeWhile_dropWhile_id)
      ultimately show ?thesis using True Some stab[of k] by simp
    next
      case False
      have "filter (\<lambda>a. key a = Some k) zs =
          filter (\<lambda>a. key a = Some k) ?tw @ filter (\<lambda>a. key a = Some k) ?dw"
        by (metis filter_append takeWhile_dropWhile_id)
      then show ?thesis using False Some stab[of k] by simp
    qed
    show ?thesis unfolding pass_inv_def using 1 2 3 4 by blast
  qed
qed

lemma pass_inv_bubble_all:
  "pass_inv key xs ys \<Longrightarrow> pass_inv key (xs @ ws) (bubble_all (key_swap key) ys ws)"
proof (induction ws arbitrary: xs ys)
  case Nil
  then show ?case by (simp add: bubble_all_def)
next
  case (Cons w ws)
  have "pass_inv key ((xs @ [w]) @ ws) (bubble_all (key_swap key) (bubble (key_swap key) w ys) ws)"
    by (rule Cons.IH[OF pass_inv_step[OF Cons.prems]])
  then show ?case by (simp add: bubble_all_def)
qed

lemma SortStones_pass_inv:
  "pass_inv (tee_distance tee sts) init_indices (rev (SortStones tee sts))"
proof -
  have "pass_inv (tee_distance tee sts) ([] @ init_indices)
          (bubble_all (key_swap (tee_distance tee sts)) [] init_indices)"
    by (rule pass_inv_bubble_all[OF pass_inv_Nil])
  then show ?thesis
    by (simp add: SortStones_bubble_all swap_needed_key)
qed

lemma mset_SortStones: "mset (SortStones tee sts) = mset init_indices"
  by (simp add: SortStones_bubble_all mset_bubble_all)

lemma pass_inv_absent:
  assumes "pass_inv key xs ys"
  shows "filter (\<lambda>a. key a = None) (rev ys) = rev (filter (\<lambda>a. key a = None) xs)"
proof -
  from assms obtain zs where
    ys: "ys = filter (\<lambda>a. key a = None) xs @ zs" and
    pres: "\<forall>z\<in>set zs. key z \<noteq> None"
    unfolding pass_inv_def by blast
  have "filter (\<lambda>a. key a = None) zs = []" using pres by (simp add: filter_empty_conv)
  then show ?thesis unfolding ys by (simp add: rev_filter[symmetric])
qed

lemma pass_inv_stable:
  assumes "pass_inv key xs ys"
  shows "filter (\<lambda>a. key a = Some k) (rev ys) = filter (\<lambda>a. key a = Some k) xs"
proof -
  from assms obtain zs where
    ys: "ys = filter (\<lambda>a. key a = None) xs @ zs" and
    stab: "filter (\<lambda>a. key a = Some k) zs = rev (filter (\<lambda>a. key a = Some k) xs)"
    unfolding pass_inv_def by blast
  have "filter (\<lambda>a. key a = Some k) (filter (\<lambda>a. key a = None) xs) = []"
    by (auto simp: filter_empty_conv)
  then show ?thesis unfolding ys using stab by (simp add: rev_filter[symmetric])
qed

lemma pass_inv_sorted:
  assumes "pass_inv key xs ys"
  shows "sorted_wrt (key_le key) (rev ys)"
proof -
  from assms obtain zs where
    ys: "ys = filter (\<lambda>a. key a = None) xs @ zs" and
    pres: "\<forall>z\<in>set zs. key z \<noteq> None" and
    srt: "sorted_wrt (\<lambda>a b. the (key b) \<le> the (key a)) zs"
    unfolding pass_inv_def by blast
  have 1: "sorted_wrt (\<lambda>a b. key_le key b a) zs"
    by (rule sorted_wrt_mono_rel[OF _ srt]) (use pres in \<open>auto simp: key_le_def split: option.splits\<close>)
  have 2: "sorted_wrt (\<lambda>a b. key_le key b a) (filter (\<lambda>a. key a = None) xs)"
    by (induction xs) (auto simp: key_le_def)
  have 3: "\<forall>a\<in>set (filter (\<lambda>a. key a = None) xs). \<forall>z\<in>set zs. key_le key z a"
    by (auto simp: key_le_def)
  show ?thesis unfolding ys sorted_wrt_rev using 1 2 3 by (simp add: sorted_wrt_append)
qed

lemma not_farther_key: "not_farther tee sts = key_le (tee_distance tee sts)"
  by (simp add: fun_eq_iff not_farther_def key_le_def)

lemma SortStones_absent_rev:
  "filter (\<lambda>i. tee_distance tee sts i = None) (SortStones tee sts) =
     rev (filter (\<lambda>i. tee_distance tee sts i = None) init_indices)"
  using pass_inv_absent[OF SortStones_pass_inv, of tee sts] by simp

text \<open>
  Claim C3, as the code has it. For every configuration of the 16 stones, \<open>SortStones\<close>
  returns a permutation of the 16 (team, stone-number) pairs in ascending order of the
  distance to the tee, every absent stone after every present one; present stones at the
  same distance keep their original order; the absent stones come out in the reverse of
  their original order.
\<close>

theorem SortStones_order:
  "mset (SortStones tee sts) = mset init_indices \<and>
   sorted_wrt (not_farther tee sts) (SortStones tee sts) \<and>
   (\<forall>d. filter (\<lambda>i. tee_distance tee sts i = Some d) (SortStones tee sts) =
        filter (\<lambda>i. tee_distance tee sts i = Some d) init_indices) \<and>
   filter (\<lambda>i. tee_distance tee sts i = None) (SortStones tee sts) =
     rev (filter (\<lambda>i. tee_distance tee sts i = None) init_indices)"
  using pass_inv_sorted[OF SortStones_pass_inv, of tee sts]
    pass_inv_stable[OF SortStones_pass_inv, of tee sts]
    SortStones_absent_rev[of tee sts]
  by (simp add: mset_SortStones not_farther_key)

lemma init_indices_eval: "init_indices =
  [\<lparr>team = 0, stone = 0\<rparr>, \<lparr>team = 0, stone = 1\<rparr>, \<lparr>team = 0, stone = 2\<rparr>, \<lparr>team = 0, stone = 3\<rparr>,
   \<lparr>team = 0, stone = 4\<rparr>, \<lparr>team = 0, stone = 5\<rparr>, \<lparr>team = 0, stone = 6\<rparr>, \<lparr>team = 0, stone = 7\<rparr>,
   \<lparr>team = 1, stone = 0\<rparr>, \<lparr>team = 1, stone = 1\<rparr>, \<lparr>team = 1, stone = 2\<rparr>, \<lparr>team = 1, stone = 3\<rparr>,
   \<lparr>team = 1, stone = 4\<rparr>, \<lparr>team = 1, stone = 5\<rparr>, \<lparr>team = 1, stone = 6\<rparr>, \<lparr>team = 1, stone = 7\<rparr>]"
  unfolding init_indices_def by (simp add: upt_rec)

text \<open>
  Claim C3 as stated fails on pairs of absent stones: with all 16 stones absent the
  result is the original sequence reversed, not the original sequence.
\<close>

theorem SortStones_absent_counterexample:
  "SortStones (Vector2 0 0) (\<lambda>t s. None) = rev init_indices \<and> rev init_indices \<noteq> init_indices"
proof -
  have "filter (\<lambda>i. tee_distance (Vector2 0 0) (\<lambda>t s. None) i = None) (SortStones (Vector2 0 0) (\<lambda>t s. None))
      = rev (filter (\<lambda>i. tee_distance (Vector2 0 0) (\<lambda>t s. None) i = None) init_indices)"
    by (rule SortStones_absent_rev)
  then have "SortStones (Vector2 0 0) (\<lambda>t s. None) = rev init_indices"
    by (simp add: tee_distance_def)
  moreover have "rev init_indices \<noteq> init_indices"
    unfolding init_indices_eval by simp
  ultimately show ?thesis by simp
qed

subsection \<open>The launch speed of the estimator\<close>

text \<open>Operations that stay finite, or overflow upward only.\<close>

lemma FLT_MAX_ge: "10 ^ 38 \<le> FLT_MAX" by (simp add: FLT_MAX_def)


lemma fl_of_fin: "- FLT_MAX \<le> a \<Longrightarrow> a \<le> FLT_MAX \<Longrightarrow> fl_of a = Fin a"
  by (simp add: fl_of_def)





lemma fl_NaN [simp]: "fl_add v NaN = NaN" "fl_mul v NaN = NaN"
  by (cases v; simp)+

text \<open>The regression over the reals: in each band the radicand exceeds the square of the arrival speed.\<close>

lemma band_bound:
  fixes s :: real
  assumes s: "0 \<le> s" "s \<le> S" and A: "0 \<le> A" "1 - A \<le> c0" and K: "0 \<le> K" "- K \<le> c1"
    and c2: "A * S * S + K * S < c2"
  shows "s * s < c0 * s * s + c1 * s + c2"
proof -
  have ss: "s * s \<le> S * S" using s by (intro mult_mono) auto
  have 1: "(c0 - 1) * (s * s) \<ge> - A * (s * s)"
    using A(2) by (intro mult_right_mono) auto
  have 2: "A * (s * s) \<le> A * (S * S)" using ss A(1) by (intro mult_left_mono) auto
  have 3: "c1 * s \<ge> - K * s" using K(2) s(1) by (intro mult_right_mono) auto
  have 4: "K * s \<le> K * S" using K(1) s(2) by (intro mult_left_mono) auto
  have "c0 * s * s + c1 * s + c2 - s * s = (c0 - 1) * (s * s) + c1 * s + c2"
    by (simp add: algebra_simps)
  moreover have "(c0 - 1) * (s * s) + c1 * s + c2 \<ge> - (A * S * S) - K * S + c2"
    using 1 2 3 4 by (simp add: algebra_simps)
  ultimately show ?thesis using c2 by linarith
qed

lemma ln_upper3: fixes a :: real assumes "0 < a" shows "ln a \<le> a / 3 + 1"
proof -
  have e: "(3::real) \<le> exp 2" using exp_ge_add_one_self[of "2::real"] by simp
  have "ln (a / exp 2) \<le> a / exp 2 - 1" using assms by (intro ln_le_minus_one) simp
  moreover have "ln (a / exp 2) = ln a - 2" using assms by (simp add: ln_div)
  moreover have "a / exp 2 \<le> a / 3" using e assms by (intro divide_left_mono) auto
  ultimately show ?thesis by linarith
qed

lemma scale_upper:
  fixes k :: real
  assumes "0 \<le> k" "l \<le> u"
  shows "- (k * u + c) \<le> - k * l + (- c)"
proof -
  have "k * l \<le> k * u" using assms by (intro mult_left_mono) auto
  then show ?thesis by simp
qed

lemma low_real:
  fixes s r x C1 :: real
  assumes s: "0 \<le> s" "s \<le> band_low_max" and r: "29 \<le> r" and x: "0 \<le> x" "x \<le> r"
    and C1: "- (0.00046669575066030805 * x + 0.0014030973174948508) \<le> C1"
  shows "s * s < (0.0005048122574925176 * r + 0.2756242531609261) * s * s + C1 * s
                 + (0.13968687866736632 * r + 0.41120940058777616)"
proof -
  let ?K = "0.00046669575066030805 * x + 0.0014030973174948508"
  have K0: "0 \<le> ?K" using x by simp
  have c0: "1 - 1 \<le> 0.0005048122574925176 * r + 0.2756242531609261" using r by simp
  have "?K \<le> 0.00046669575066030805 * r + 0.0014030973174948508" using x by simp
  then have "?K * band_low_max \<le> (0.00046669575066030805 * r + 0.0014030973174948508) * band_low_max"
    by (intro mult_right_mono) auto
  moreover have "1 * band_low_max * band_low_max + (0.00046669575066030805 * r + 0.0014030973174948508) * band_low_max
      < 0.13968687866736632 * r + 0.41120940058777616"
    using r by (simp add: field_simps)
  ultimately have c2: "1 * band_low_max * band_low_max + ?K * band_low_max < 0.13968687866736632 * r + 0.41120940058777616"
    by linarith
  show ?thesis
    by (rule band_bound[where S = "band_low_max" and A = 1 and K = ?K, OF s _ c0 K0 C1 c2]) simp
qed

lemma mid_real:
  fixes s r C1 :: real
  assumes s: "0 \<le> s" "s \<le> 1" and r: "29 \<le> r" and C1: "- 0.23 \<le> C1"
  shows "s * s < (- 0.0014309170115803444 * r + 0.9858457898438147) * s * s + C1 * s
                 + (0.13967323742978 * r + 0.42816312110477517)"
proof -
  have A0: "0 \<le> 0.0014309170115803444 * r + 0.02" using r by simp
  have c0: "1 - (0.0014309170115803444 * r + 0.02) \<le> - 0.0014309170115803444 * r + 0.9858457898438147"
    by simp
  have c2: "(0.0014309170115803444 * r + 0.02) * 1 * 1 + 0.23 * 1
      < 0.13967323742978 * r + 0.42816312110477517" using r by (simp add: field_simps)
  show ?thesis
    by (rule band_bound[where S = 1 and A = "0.0014309170115803444 * r + 0.02" and K = "0.23",
          OF s A0 c0 _ C1 c2]) simp
qed

lemma quad_decreasing:
  fixes a b c r m :: real
  assumes "r \<le> m" "a * (r + m) \<le> b"
  shows "a * (m * m) - b * m + c \<le> a * (r * r) - b * r + c"
proof -
  have "a * (r * r) - b * r + c - (a * (m * m) - b * m + c) = (m - r) * (b - a * (r + m))"
    by (simp add: algebra_simps)
  moreover have "0 \<le> (m - r) * (b - a * (r + m))" using assms by (intro mult_nonneg_nonneg) auto
  ultimately show ?thesis by linarith
qed

lemma cubic_ge_1:
  fixes r :: real
  assumes r: "8.2 \<le> r"
  shows "1 \<le> 0.0000010833113118071224 * r * r * r + (- 0.00012132851917870833) * r * r
                  + 0.004578093297561233 * r + 0.9767006869364527"
proof -
  let ?q = "0.0000010833113118071224 * (r * r) - 0.00012132851917870833 * r + 0.004578093297561233"
  have f: "0.0233 \<le> r * ?q"
  proof (cases "r \<le> 12")
    case True
    have "0.0000010833113118071224 * (r + 12) \<le> 0.00012132851917870833"
      using True by (simp add: field_simps)
    from quad_decreasing[OF True this]
    have "0.0000010833113118071224 * (12 * 12) - 0.00012132851917870833 * 12 + 0.004578093297561233 \<le> ?q" .
    moreover have "(0.00327::real) \<le> 0.0000010833113118071224 * (12 * 12) - 0.00012132851917870833 * 12 + 0.004578093297561233"
      by simp
    ultimately have q: "0.00327 \<le> ?q" by (rule order_trans[rotated])
    have "8.2 * 0.00327 \<le> r * ?q" using q r by (intro mult_mono) auto
    moreover have "(0.0233::real) \<le> 8.2 * 0.00327" by simp
    ultimately show ?thesis by (rule order_trans[rotated])
  next
    case False
    show ?thesis
    proof (cases "r \<le> 20")
      case True
      have "0.0000010833113118071224 * (r + 20) \<le> 0.00012132851917870833"
        using True by (simp add: field_simps)
      from quad_decreasing[OF True this]
      have "0.0000010833113118071224 * (20 * 20) - 0.00012132851917870833 * 20 + 0.004578093297561233 \<le> ?q" .
      moreover have "(0.00258::real) \<le> 0.0000010833113118071224 * (20 * 20) - 0.00012132851917870833 * 20 + 0.004578093297561233"
        by simp
      ultimately have q: "0.00258 \<le> ?q" by (rule order_trans[rotated])
      have "12 * 0.00258 \<le> r * ?q" using q False by (intro mult_mono) auto
      moreover have "(0.0233::real) \<le> 12 * 0.00258" by simp
      ultimately show ?thesis by (rule order_trans[rotated])
    next
      case F: False
      have sq: "0 \<le> 0.0000010833113118071224 * ((r - 56) * (r - 56))" by simp
      have q: "0.00118 \<le> ?q" using sq F by (simp add: algebra_simps)
      have "20 * 0.00118 \<le> r * ?q" using q F by (intro mult_mono) auto
      moreover have "(0.0233::real) \<le> 20 * 0.00118" by simp
      ultimately show ?thesis by (rule order_trans[rotated])
    qed
  qed
  then show ?thesis by (simp add: algebra_simps)
qed

lemma high_real:
  fixes s r C1 :: real
  assumes s: "0 \<le> s" "s \<le> 4" and r: "offset_high \<le> r"
    and C1: "- (0.07950648211492622 * ((r + (- offset_high)) / 3 + 1) + 0.05601306077702578) \<le> C1"
  shows "s * s < (0.0000010833113118071224 * r * r * r + (- 0.00012132851917870833) * r * r
                  + 0.004578093297561233 * r + 0.9767006869364527) * s * s + C1 * s
                 + (0.14140440186382008 * r + 0.3875782508767419)"
proof -
  let ?K = "0.07950648211492622 * ((r + (- offset_high)) / 3 + 1) + 0.05601306077702578"
  have K0: "0 \<le> ?K" using r by simp
  have "1 \<le> 0.0000010833113118071224 * r * r * r + (- 0.00012132851917870833) * r * r
                  + 0.004578093297561233 * r + 0.9767006869364527"
    using r by (intro cubic_ge_1) simp
  then have c0: "1 - 0 \<le> 0.0000010833113118071224 * r * r * r + (- 0.00012132851917870833) * r * r
                  + 0.004578093297561233 * r + 0.9767006869364527" by simp
  have c2: "0 * 4 * 4 + ?K * 4 < 0.14140440186382008 * r + 0.3875782508767419"
    using r by (simp add: field_simps)
  show ?thesis
    by (rule band_bound[where S = 4 and A = 0 and K = ?K, OF s _ c0 K0 C1 c2]) simp
qed






lemma offset_fin:
  assumes "0 \<le> r" "r \<le> 2 * 10 ^ 19" "0 \<le> d" "d \<le> 100"
  shows "fl_add (Fin r) (Fin (- d)) = Fin (r + (- d))"
proof -
  have "r + (- d) \<le> FLT_MAX" "- FLT_MAX \<le> r + (- d)" using assms FLT_MAX_ge by auto
  then show ?thesis by (simp add: fl_of_def)
qed


lemma le_FLT: "a \<le> 10 ^ 38 \<Longrightarrow> a \<le> FLT_MAX"
  using FLT_MAX_ge by linarith




lemma ln_small:
  fixes x :: real
  assumes "1 / 2 ^ 19 \<le> x"
  shows "- 19 \<le> ln x"
proof -
  have p: "(0::real) < 1 / 2 ^ 19" by simp
  then have x: "0 < x" using assms by linarith
  have "ln (1 / 2 ^ 19 :: real) \<le> ln x" using p x assms by (simp only: ln_le_cancel_iff)
  moreover have "ln (1 / 2 ^ 19 :: real) = - (19 * ln 2)"
    using ln_realpow[of "2::real" 19] by (simp add: ln_div)
  moreover have "ln (2::real) < 1" by (rule ln_2_less_1)
  ultimately show ?thesis by linarith
qed









lemma fl_of_0 [simp]: "fl_of 0 = Fin 0"
  using FLT_MAX_ge by (simp add: fl_of_def)



text \<open>Outside the domain of a band the launch speed is not a number.\<close>

lemma sum_fin:
  assumes "0 \<le> a" "0 \<le> b" "a + b \<le> FLT_MAX"
  shows "fl_add (fl_of a) (fl_of b) = Fin (a + b)"
  using assms FLT_MAX_ge by (simp add: fl_of_def)


lemma float_Length_fin:
  assumes "vx p * vx p + vy p * vy p \<le> FLT_MAX"
  shows "float_Length p = Fin (Length p)"
  using sum_fin[OF _ _ assms] by (simp add: float_Length_def Length_def)






lemma fl_add_NInf: "v = Fin a \<or> v = NInf \<Longrightarrow> fl_add v NInf = NInf" "w = Fin b \<or> w = NInf \<Longrightarrow> fl_add NInf w = NInf"
  by auto

lemma fl_of_down: "a \<le> FLT_MAX \<Longrightarrow> fl_of a = Fin a \<or> fl_of a = NInf"
  by (simp add: fl_of_def)




text \<open>At moderate distances no operation overflows, and the launch speed is finite.\<close>

lemma ex_mul:
  assumes "\<bar>a\<bar> \<le> A" "\<bar>b\<bar> \<le> B" "A * B \<le> 10 ^ 38"
  shows "fl_mul (Fin a) (Fin b) = Fin (a * b) \<and> \<bar>a * b\<bar> \<le> A * B"
proof -
  have "\<bar>a * b\<bar> \<le> A * B" unfolding abs_mult using assms by (intro mult_mono) auto
  moreover from this have "\<bar>a * b\<bar> \<le> FLT_MAX" using assms(3) FLT_MAX_ge by linarith
  ultimately show ?thesis by (auto simp: fl_of_def)
qed

lemma ex_add:
  assumes "\<bar>a\<bar> \<le> A" "\<bar>b\<bar> \<le> B" "A + B \<le> 10 ^ 38"
  shows "fl_add (Fin a) (Fin b) = Fin (a + b) \<and> \<bar>a + b\<bar> \<le> A + B"
proof -
  have "\<bar>a + b\<bar> \<le> A + B" using assms by linarith
  moreover from this have "\<bar>a + b\<bar> \<le> FLT_MAX" using assms(3) FLT_MAX_ge by linarith
  ultimately show ?thesis by (auto simp: fl_of_def)
qed

lemma lin_exact:
  assumes "\<bar>k\<bar> \<le> 1" "\<bar>r\<bar> \<le> 1000" "\<bar>c\<bar> \<le> 1"
  shows "fl_add (fl_mul (Fin k) (Fin r)) (Fin c) = Fin (k * r + c) \<and> \<bar>k * r + c\<bar> \<le> 10 ^ 6"
proof -
  from ex_mul[OF assms(1,2)] have m: "fl_mul (Fin k) (Fin r) = Fin (k * r)" "\<bar>k * r\<bar> \<le> 1 * 1000"
    by auto
  from ex_add[OF m(2) assms(3)] show ?thesis unfolding m(1) by auto
qed

lemma cubic_exact:
  fixes r :: real
  assumes r: "\<bar>r\<bar> \<le> 1000"
  shows "fl_add (fl_add (fl_add
            (fl_mul (fl_mul (fl_mul (Fin 0.0000010833113118071224) (Fin r)) (Fin r)) (Fin r))
            (fl_mul (fl_mul (Fin (- 0.00012132851917870833)) (Fin r)) (Fin r)))
            (fl_mul (Fin 0.004578093297561233) (Fin r)))
            (Fin 0.9767006869364527)
          = Fin (0.0000010833113118071224 * r * r * r + (- 0.00012132851917870833) * r * r
                  + 0.004578093297561233 * r + 0.9767006869364527) \<and>
         \<bar>0.0000010833113118071224 * r * r * r + (- 0.00012132851917870833) * r * r
                  + 0.004578093297561233 * r + 0.9767006869364527\<bar> \<le> 10 ^ 6"
proof -
  let ?k0 = "0.0000010833113118071224 :: real"
  let ?k1 = "- 0.00012132851917870833 :: real"
  let ?k2 = "0.004578093297561233 :: real"
  let ?k3 = "0.9767006869364527 :: real"
  have k: "\<bar>?k0\<bar> \<le> 1 / 10 ^ 5" "\<bar>?k1\<bar> \<le> 1 / 10 ^ 3" "\<bar>?k2\<bar> \<le> 1 / 10 ^ 2" "\<bar>?k3\<bar> \<le> 1" by simp_all
  from ex_mul[OF k(1) r] have t1: "fl_mul (Fin ?k0) (Fin r) = Fin (?k0 * r)" "\<bar>?k0 * r\<bar> \<le> 1 / 10 ^ 5 * 1000"
    by auto
  from ex_mul[OF t1(2) r] have t2: "fl_mul (Fin (?k0 * r)) (Fin r) = Fin (?k0 * r * r)"
      "\<bar>?k0 * r * r\<bar> \<le> 1 / 10 ^ 5 * 1000 * 1000" by auto
  from ex_mul[OF t2(2) r] have t3: "fl_mul (Fin (?k0 * r * r)) (Fin r) = Fin (?k0 * r * r * r)"
      "\<bar>?k0 * r * r * r\<bar> \<le> 1 / 10 ^ 5 * 1000 * 1000 * 1000" by auto
  from ex_mul[OF k(2) r] have u1: "fl_mul (Fin ?k1) (Fin r) = Fin (?k1 * r)" "\<bar>?k1 * r\<bar> \<le> 1 / 10 ^ 3 * 1000"
    by auto
  from ex_mul[OF u1(2) r] have u2: "fl_mul (Fin (?k1 * r)) (Fin r) = Fin (?k1 * r * r)"
      "\<bar>?k1 * r * r\<bar> \<le> 1 / 10 ^ 3 * 1000 * 1000" by auto
  from ex_mul[OF k(3) r] have w: "fl_mul (Fin ?k2) (Fin r) = Fin (?k2 * r)" "\<bar>?k2 * r\<bar> \<le> 1 / 10 ^ 2 * 1000"
    by auto
  from ex_add[OF t3(2) u2(2)] have a1: "fl_add (Fin (?k0 * r * r * r)) (Fin (?k1 * r * r))
        = Fin (?k0 * r * r * r + ?k1 * r * r)"
      "\<bar>?k0 * r * r * r + ?k1 * r * r\<bar> \<le> 1 / 10 ^ 5 * 1000 * 1000 * 1000 + 1 / 10 ^ 3 * 1000 * 1000"
    by auto
  from ex_add[OF a1(2) w(2)] have a2: "fl_add (Fin (?k0 * r * r * r + ?k1 * r * r)) (Fin (?k2 * r))
        = Fin (?k0 * r * r * r + ?k1 * r * r + ?k2 * r)"
      "\<bar>?k0 * r * r * r + ?k1 * r * r + ?k2 * r\<bar>
         \<le> 1 / 10 ^ 5 * 1000 * 1000 * 1000 + 1 / 10 ^ 3 * 1000 * 1000 + 1 / 10 ^ 2 * 1000"
    by auto
  from ex_add[OF a2(2) k(4)] have a3: "fl_add (Fin (?k0 * r * r * r + ?k1 * r * r + ?k2 * r)) (Fin ?k3)
        = Fin (?k0 * r * r * r + ?k1 * r * r + ?k2 * r + ?k3)"
      "\<bar>?k0 * r * r * r + ?k1 * r * r + ?k2 * r + ?k3\<bar>
         \<le> 1 / 10 ^ 5 * 1000 * 1000 * 1000 + 1 / 10 ^ 3 * 1000 * 1000 + 1 / 10 ^ 2 * 1000 + 1"
    by auto
  have "(1 / 10 ^ 5 * 1000 * 1000 * 1000 + 1 / 10 ^ 3 * 1000 * 1000 + 1 / 10 ^ 2 * 1000 + 1 :: real) \<le> 10 ^ 6"
    by simp
  with a3(2) have b: "\<bar>?k0 * r * r * r + ?k1 * r * r + ?k2 * r + ?k3\<bar> \<le> 10 ^ 6" by (rule order_trans)
  show ?thesis unfolding t1(1) t2(1) t3(1) u1(1) u2(1) w(1) a1(1) a2(1) a3(1) using b by simp
qed

lemma band_exact:
  assumes C: "\<bar>C0\<bar> \<le> 10 ^ 6" "\<bar>C1\<bar> \<le> 10 ^ 6" "\<bar>C2\<bar> \<le> 10 ^ 6"
    and s: "0 \<le> s" "s \<le> 4" and q: "s * s < C0 * s * s + C1 * s + C2"
  shows "band_speed (Fin C0) (Fin C1) (Fin C2) s = Fin (sqrt (C0 * s * s + C1 * s + C2)) \<and>
         s < sqrt (C0 * s * s + C1 * s + C2)"
proof -
  have sa: "\<bar>s\<bar> \<le> 4" using s by simp
  from ex_mul[OF C(1) sa] have m1: "fl_mul (Fin C0) (Fin s) = Fin (C0 * s)" "\<bar>C0 * s\<bar> \<le> 10 ^ 6 * 4"
    by auto
  from ex_mul[OF m1(2) sa] have m2: "fl_mul (Fin (C0 * s)) (Fin s) = Fin (C0 * s * s)"
      "\<bar>C0 * s * s\<bar> \<le> 10 ^ 6 * 4 * 4" by auto
  from ex_mul[OF C(2) sa] have m3: "fl_mul (Fin C1) (Fin s) = Fin (C1 * s)" "\<bar>C1 * s\<bar> \<le> 10 ^ 6 * 4"
    by auto
  from ex_add[OF m2(2) m3(2)] have a1: "fl_add (Fin (C0 * s * s)) (Fin (C1 * s)) = Fin (C0 * s * s + C1 * s)"
      "\<bar>C0 * s * s + C1 * s\<bar> \<le> 10 ^ 6 * 4 * 4 + 10 ^ 6 * 4" by auto
  from ex_add[OF a1(2) C(3)] have a2: "fl_add (Fin (C0 * s * s + C1 * s)) (Fin C2) = Fin (C0 * s * s + C1 * s + C2)"
    by auto
  have "0 \<le> s * s" by simp
  then have Q: "0 \<le> C0 * s * s + C1 * s + C2" using q by linarith
  have "s\<^sup>2 < C0 * s * s + C1 * s + C2" using q by (simp add: power2_eq_square)
  then have "s < sqrt (C0 * s * s + C1 * s + C2)" by (rule real_less_rsqrt)
  then show ?thesis unfolding band_speed_def m1(1) m2(1) m3(1) a1(1) a2 using Q by simp
qed

lemma ln_range:
  fixes x :: real
  assumes "1 / 1000 \<le> x" "x \<le> 1000"
  shows "\<bar>ln x\<bar> \<le> 1000"
proof -
  have x: "0 < x" using assms by simp
  have "ln x \<le> x - 1" using x by (rule ln_le_minus_one)
  moreover have "1 / x \<le> 1 / (1 / 1000)" using assms by (intro divide_left_mono) auto
  moreover have "ln (1 / x) \<le> 1 / x - 1" using x by (intro ln_le_minus_one) simp
  moreover have "ln (1 / x) = - ln x" using x by (simp add: ln_div)
  ultimately show ?thesis using assms by simp
qed

lemma v0_exact:
  assumes s: "0 \<le> s" "s \<le> 4" and r: "29.9 \<le> r" "r \<le> 1000"
  shows "\<exists>v. v0_speed (Fin r) s = Fin v \<and> s < v"
proof -
  have r0: "0 \<le> r" "\<bar>r\<bar> \<le> 1000" "r \<le> 2 * 10 ^ 19" using r by auto
  consider "s \<le> band_low_max" | "\<not> s \<le> band_low_max" "s \<le> 1" | "\<not> s \<le> band_low_max" "\<not> s \<le> 1" by blast
  then show ?thesis
  proof cases
    case 1
    define x where "x = r + (- offset_low)"
    let ?C0 = "0.0005048122574925176 * r + 0.2756242531609261"
    let ?C1 = "- 0.00046669575066030805 * ln x + (- 0.0014030973174948508)"
    let ?C2 = "0.13968687866736632 * r + 0.41120940058777616"
    have xs: "1 / 1000 \<le> x" "x \<le> 1000" "0 \<le> x" "x \<le> r" "0 < x" using r by (auto simp: x_def)
    have off: "fl_add (Fin r) (Fin (- offset_low)) = Fin x"
      unfolding x_def using r0 by (intro offset_fin) auto
    have lg: "fl_log (Fin x) = Fin (ln x)" using xs by simp
    note c0 = lin_exact[OF _ r0(2), of "0.0005048122574925176" "0.2756242531609261"]
    note c1 = lin_exact[OF _ ln_range[OF xs(1,2)], of "- 0.00046669575066030805" "- 0.0014030973174948508"]
    note c2 = lin_exact[OF _ r0(2), of "0.13968687866736632" "0.41120940058777616"]
    have e0: "fl_add (fl_mul (Fin 0.0005048122574925176) (Fin r)) (Fin 0.2756242531609261) = Fin ?C0"
      and b0: "\<bar>?C0\<bar> \<le> 10 ^ 6" using c0 by auto
    have e1: "fl_add (fl_mul (Fin (- 0.00046669575066030805)) (Fin (ln x))) (Fin (- 0.0014030973174948508)) = Fin ?C1"
      and b1: "\<bar>?C1\<bar> \<le> 10 ^ 6" using c1 by auto
    have e2: "fl_add (fl_mul (Fin 0.13968687866736632) (Fin r)) (Fin 0.41120940058777616) = Fin ?C2"
      and b2: "\<bar>?C2\<bar> \<le> 10 ^ 6" using c2 by auto
    have "ln x \<le> x - 1" using xs(5) by (rule ln_le_minus_one)
    then have "ln x \<le> x" by simp
    from scale_upper[OF _ this, of "0.00046669575066030805" "0.0014030973174948508"]
    have K: "- (0.00046669575066030805 * x + 0.0014030973174948508) \<le> ?C1" by simp
    have q: "s * s < ?C0 * s * s + ?C1 * s + ?C2"
      using r(1) by (intro low_real[OF s(1) 1 _ xs(3,4) K]) simp
    have "v0_speed (Fin r) s = band_speed (Fin ?C0) (Fin ?C1) (Fin ?C2) s"
      using 1 by (simp only: v0_speed_def Let_def off lg e0 e1 e2 if_True)
    then show ?thesis using band_exact[OF b0 b1 b2 s q] by simp
  next
    case 2
    define x where "x = r + (- offset_mid)"
    let ?C0 = "- 0.0014309170115803444 * r + 0.9858457898438147"
    let ?C1 = "- (- 0.0008339331735471273) * ln x + (- 0.19811799977982522)"
    let ?C2 = "0.13967323742978 * r + 0.42816312110477517"
    have xs: "1 / 1000 \<le> x" "x \<le> 1000" "0 < x" "1 / 2 ^ 19 \<le> x" using r by (auto simp: x_def)
    have off: "fl_add (Fin r) (Fin (- offset_mid)) = Fin x"
      unfolding x_def using r0 by (intro offset_fin) auto
    have lg: "fl_log (Fin x) = Fin (ln x)" using xs by simp
    note c0 = lin_exact[OF _ r0(2), of "- 0.0014309170115803444" "0.9858457898438147"]
    note c1 = lin_exact[OF _ ln_range[OF xs(1,2)], of "- (- 0.0008339331735471273)" "- 0.19811799977982522"]
    note c2 = lin_exact[OF _ r0(2), of "0.13967323742978" "0.42816312110477517"]
    have e0: "fl_add (fl_mul (Fin (- 0.0014309170115803444)) (Fin r)) (Fin 0.9858457898438147) = Fin ?C0"
      and b0: "\<bar>?C0\<bar> \<le> 10 ^ 6" using c0 by auto
    have e1: "fl_add (fl_mul (Fin (- (- 0.0008339331735471273))) (Fin (ln x))) (Fin (- 0.19811799977982522)) = Fin ?C1"
      and b1: "\<bar>?C1\<bar> \<le> 10 ^ 6" using c1 by auto
    have e2: "fl_add (fl_mul (Fin 0.13967323742978) (Fin r)) (Fin 0.42816312110477517) = Fin ?C2"
      and b2: "\<bar>?C2\<bar> \<le> 10 ^ 6" using c2 by auto
    have l: "- 19 \<le> ln x" using xs(4) by (rule ln_small)
    have kl: "0.0008339331735471273 * (- 19) \<le> 0.0008339331735471273 * ln x"
      using l by (intro mult_left_mono) auto
    have K: "- 0.23 \<le> ?C1" using kl by simp
    have r29: "29 \<le> r" using r by simp
    have q: "s * s < ?C0 * s * s + ?C1 * s + ?C2"
      by (rule mid_real[OF s(1) 2(2) r29 K])
    have "v0_speed (Fin r) s = band_speed (Fin ?C0) (Fin ?C1) (Fin ?C2) s"
      using 2 by (simp only: v0_speed_def Let_def off lg e0 e1 e2 if_True if_False)
    then show ?thesis using band_exact[OF b0 b1 b2 s q] by simp
  next
    case 3
    define x where "x = r + (- offset_high)"
    let ?C0 = "0.0000010833113118071224 * r * r * r + (- 0.00012132851917870833) * r * r
                  + 0.004578093297561233 * r + 0.9767006869364527"
    let ?C1 = "- 0.07950648211492622 * ln x + (- 0.05601306077702578)"
    let ?C2 = "0.14140440186382008 * r + 0.3875782508767419"
    have xs: "1 / 1000 \<le> x" "x \<le> 1000" "0 < x" using r by (auto simp: x_def)
    have off: "fl_add (Fin r) (Fin (- offset_high)) = Fin x"
      unfolding x_def using r0 by (intro offset_fin) auto
    have lg: "fl_log (Fin x) = Fin (ln x)" using xs by simp
    note c0 = cubic_exact[OF r0(2)]
    note c1 = lin_exact[OF _ ln_range[OF xs(1,2)], of "- 0.07950648211492622" "- 0.05601306077702578"]
    note c2 = lin_exact[OF _ r0(2), of "0.14140440186382008" "0.3875782508767419"]
    have b0: "\<bar>?C0\<bar> \<le> 10 ^ 6" using c0 by (rule conjunct2)
    have e1: "fl_add (fl_mul (Fin (- 0.07950648211492622)) (Fin (ln x))) (Fin (- 0.05601306077702578)) = Fin ?C1"
      and b1: "\<bar>?C1\<bar> \<le> 10 ^ 6" using c1 by auto
    have e2: "fl_add (fl_mul (Fin 0.14140440186382008) (Fin r)) (Fin 0.3875782508767419) = Fin ?C2"
      and b2: "\<bar>?C2\<bar> \<le> 10 ^ 6" using c2 by auto
    have "ln x \<le> x / 3 + 1" using xs(3) by (rule ln_upper3)
    from scale_upper[OF _ this, of "0.07950648211492622" "0.05601306077702578"]
    have "- (0.07950648211492622 * (x / 3 + 1) + 0.05601306077702578) \<le> ?C1" by simp
    then have K: "- (0.07950648211492622 * ((r + (- offset_high)) / 3 + 1) + 0.05601306077702578) \<le> ?C1"
      unfolding x_def .
    have r8: "offset_high \<le> r" using r by simp
    have q: "s * s < ?C0 * s * s + ?C1 * s + ?C2"
      by (rule high_real[OF s r8 K])
    have "v0_speed (Fin r) s = band_speed (Fin ?C0) (Fin ?C1) (Fin ?C2) s"
      using 3 by (simp only: v0_speed_def Let_def off lg c0[THEN conjunct1] e1 e2 if_True if_False)
    then show ?thesis using band_exact[OF b0 b1 b2 s q] by simp
  qed
qed






lemma launch_speed_fin:
  assumes s: "0 \<le> s" "s \<le> 4" and r: "29.9 \<le> Length p" "Length p \<le> 1000"
  shows "launch_speed p s = Inr (Fin (fin (v0_speed (Fin (Length p)) s)))"
proof -
  have "sqrt (vx p * vx p + vy p * vy p) \<le> 1000" using r(2) by (simp add: Length_def)
  then have "vx p * vx p + vy p * vy p \<le> 1000\<^sup>2" by (rule sqrt_le_D)
  then have "vx p * vx p + vy p * vy p \<le> FLT_MAX" using FLT_MAX_ge by simp
  then have l: "float_Length p = Fin (Length p)" by (rule float_Length_fin)
  from v0_exact[OF s r] obtain v where v: "v0_speed (Fin (Length p)) s = Fin v" "s < v" by blast
  have p: "0 < Length p" using r by simp
  show ?thesis using s p v by (simp add: launch_speed_def l)
qed

subsection \<open>The planner: what it does to the globals\<close>

lemma rollouts_from_append:
  "rollouts_from s xs \<Longrightarrow> rollouts_from s ys \<Longrightarrow> rollouts_from s (xs @ ys)"
  by (induction s xs rule: rollouts_from.induct) auto

lemma state_left_append:
  "rollouts_from s xs \<Longrightarrow> state_left c (xs @ ys) = state_left (state_left c xs) ys"
  by (induction s xs arbitrary: c rule: rollouts_from.induct) auto

lemma planner_run_refl: "planner_run g [] g"
  by (simp add: planner_run_def)

lemma planner_run_trans:
  "planner_run g xs g' \<Longrightarrow> planner_run g' ys g'' \<Longrightarrow> planner_run g (xs @ ys) g''"
  by (auto simp: planner_run_def rollouts_from_append state_left_append)

lemma Estimate_frame:
  "EstimateShotVelocityFCV1 lib g p s r = Inr (v, g') \<Longrightarrow> \<exists>w. g' = g\<lparr>s_simulator := w\<rparr>"
  by (auto simp: EstimateShotVelocityFCV1_def Let_def split: sum.splits option.splits prod.splits fl.splits)

lemma Estimate_run:
  "EstimateShotVelocityFCV1 lib g p s r = Inr (v, g') \<Longrightarrow> planner_run g [] g'"
  by (drule Estimate_frame) (auto simp: planner_run_def)

lemma rollout_run:
  "rollout lib (Load g) gs m = Inr (t, g') \<Longrightarrow>
   planner_run g [EvLoad, EvApplyMove (g_simulator_storage g) (g_simulator g')] g'"
  by (auto simp: rollout_def Load_def planner_run_def split: sum.splits prod.splits)

lemma speed_search_run:
  "speed_search lib g gs idx target speed = Inr (s, g') \<Longrightarrow> \<exists>evs. planner_run g evs g'"
proof (induction lib g gs idx target speed rule: speed_search.induct)
  case (1 lib g gs idx target speed)
  show ?case
  proof (cases "speed < 3.5")
    case False
    then have "g' = g" using "1.prems" by (simp add: speed_search.simps)
    then show ?thesis using planner_run_refl by blast
  next
    case True
    from "1.prems" True obtain v g1 where
      e: "EstimateShotVelocityFCV1 lib g (position target) speed kCCW = Inr (v, g1)"
      by (subst (asm) speed_search.simps) (auto split: sum.splits)
    from "1.prems" True e obtain t g2 where
      r: "rollout lib (Load g1) gs (Move_Shot (Shot v kCCW)) = Inr (t, g2)"
      by (subst (asm) speed_search.simps) (auto split: sum.splits)
    have run2: "planner_run g ([] @ [EvLoad, EvApplyMove (g_simulator_storage g1) (g_simulator g2)]) g2"
      by (rule planner_run_trans[OF Estimate_run[OF e] rollout_run[OF r]])
    show ?thesis
    proof (cases "hit_succeeded gs idx t")
      case True
      then have "g' = g2" using "1.prems" \<open>speed < 3.5\<close> e r
        by (subst (asm) speed_search.simps) simp
      then show ?thesis using run2 by blast
    next
      case False
      then have "speed_search lib g2 gs idx target (speed + 0.5) = Inr (s, g')"
        using "1.prems" \<open>speed < 3.5\<close> e r by (subst (asm) speed_search.simps) simp
      then obtain evs where "planner_run g2 evs g'"
        using "1.IH"[OF \<open>speed < 3.5\<close> e refl r refl False] by blast
      then show ?thesis using planner_run_trans[OF run2] by blast
    qed
  qed
qed

lemma score_inner_run:
  "score_inner lib g gs idx cands points j = Inr (points', g') \<Longrightarrow> \<exists>evs. planner_run g evs g'"
proof (induction lib g gs idx cands points j rule: score_inner.induct)
  case (1 lib g gs idx cands points j)
  show ?case
  proof (cases "j < length cands")
    case False
    then have "g' = g" using "1.prems" by (simp add: score_inner.simps)
    then show ?thesis using planner_run_refl by blast
  next
    case True
    from "1.prems" True obtain t g1 where
      r: "rollout lib (Load g) gs (Move_Shot (cands ! j)) = Inr (t, g1)"
      by (subst (asm) score_inner.simps) (auto split: sum.splits)
    define points1 where "points1 = (if stones t (shot gs mod 2) (shot gs div 2) \<noteq> None
                             then add_point points j else points)"
    define points2 where "points2 = (if stones t (team idx) (stone idx) = None
                             then add_point points1 j else points1)"
    have "score_inner lib g gs idx cands points j = score_inner lib g1 gs idx cands points2 (Suc j)"
      by (subst score_inner.simps) (simp add: True r Let_def points1_def points2_def)
    then have "score_inner lib g1 gs idx cands points2 (Suc j) = Inr (points', g')"
      using "1.prems" by simp
    then obtain evs where "planner_run g1 evs g'"
      using "1.IH"[OF True r refl points1_def points2_def] by blast
    then show ?thesis using planner_run_trans[OF rollout_run[OF r]] by blast
  qed
qed

lemma score_outer_run:
  "score_outer lib g gs idx cands points i = Inr (points', g') \<Longrightarrow> \<exists>evs. planner_run g evs g'"
proof (induction lib g gs idx cands points i rule: score_outer.induct)
  case (1 lib g gs idx cands points i)
  show ?case
  proof (cases "i < 3")
    case False
    then have "g' = g" using "1.prems" by (simp add: score_outer.simps)
    then show ?thesis using planner_run_refl by blast
  next
    case True
    from "1.prems" True obtain p1 g1 where
      r: "score_inner lib g gs idx cands points 0 = Inr (p1, g1)"
      by (subst (asm) score_outer.simps) (auto split: sum.splits)
    have "score_outer lib g1 gs idx cands p1 (Suc i) = Inr (points', g')"
      using "1.prems" True r by (subst (asm) score_outer.simps) simp
    then obtain evs where "planner_run g1 evs g'"
      using "1.IH"[OF True r refl] by blast
    moreover obtain evs1 where "planner_run g evs1 g1" using score_inner_run[OF r] by blast
    ultimately show ?thesis using planner_run_trans by blast
  qed
qed

lemma attack_cases:
  assumes "attack lib g gs idx target = Inr (m, g')"
  obtains speed g1 v_ccw g2 v_cw g3 points where
    "speed_search lib g gs idx target 0.5 = Inr (speed, g1)"
    "EstimateShotVelocityFCV1 lib g1 (position target) speed kCCW = Inr (v_ccw, g2)"
    "EstimateShotVelocityFCV1 lib g2 (position target) speed kCW = Inr (v_cw, g3)"
    "score_outer lib g3 gs idx [Shot v_ccw kCCW, Shot v_cw kCW] [0, 0] 0 = Inr (points, g')"
    "m = Move_Shot (if points ! 0 > points ! 1 then Shot v_ccw kCCW else Shot v_cw kCW)"
  using assms unfolding attack_def
  by (auto simp: Let_def split: sum.splits prod.splits if_splits)

lemma attack_run:
  assumes "attack lib g gs idx target = Inr (m, g')"
  shows "\<exists>evs. planner_run g evs g'"
proof -
  from assms obtain speed g1 v_ccw g2 v_cw g3 points where
    1: "speed_search lib g gs idx target 0.5 = Inr (speed, g1)" and
    2: "EstimateShotVelocityFCV1 lib g1 (position target) speed kCCW = Inr (v_ccw, g2)" and
    3: "EstimateShotVelocityFCV1 lib g2 (position target) speed kCW = Inr (v_cw, g3)" and
    4: "score_outer lib g3 gs idx [Shot v_ccw kCCW, Shot v_cw kCW] [0, 0] 0 = Inr (points, g')"
    by (rule attack_cases)
  from speed_search_run[OF 1] obtain e1 where "planner_run g e1 g1" by blast
  from planner_run_trans[OF this Estimate_run[OF 2]] have "planner_run g (e1 @ []) g2" .
  from planner_run_trans[OF this Estimate_run[OF 3]] have a: "planner_run g ((e1 @ []) @ []) g3" .
  from score_outer_run[OF 4] obtain e4 where "planner_run g3 e4 g'" by blast
  from planner_run_trans[OF a this] show ?thesis by blast
qed

lemma draw_shot_run: "draw_shot lib g = Inr (m, g') \<Longrightarrow> planner_run g [] g'"
  by (auto simp: draw_shot_def split: sum.splits prod.splits dest: Estimate_run)

lemma target_loop_run:
  "target_loop lib g gs idxs = Inr (m, g') \<Longrightarrow> \<exists>evs. planner_run g evs g'"
proof (induction idxs)
  case Nil
  then show ?case using draw_shot_run by fastforce
next
  case (Cons idx rest)
  then show ?case
    by (auto split: if_splits option.splits dest: draw_shot_run attack_run)
qed

lemma OnMyTurn_run:
  assumes "OnMyTurn lib g gs = Inr (m, g')"
  shows "\<exists>evs. trace g' = trace g @ EvSave # evs \<and> rollouts_from (g_simulator g) evs \<and>
           g_simulator_storage g' = g_simulator g \<and> g_simulator g' = state_left (g_simulator g) evs"
proof -
  from assms have "target_loop lib (Save g) gs (SortStones (kTee lib) (stones gs)) = Inr (m, g')"
    by (auto simp: OnMyTurn_def Let_def split: if_splits)
  from target_loop_run[OF this] obtain evs where "planner_run (Save g) evs g'" by blast
  then show ?thesis by (auto simp: planner_run_def Save_def)
qed

text \<open>Every move the planner returns is a shot.\<close>

lemma attack_shot: "attack lib g gs idx target = Inr (m, g') \<Longrightarrow> \<exists>sh. m = Move_Shot sh"
  by (erule attack_cases) simp

lemma draw_shot_shot: "draw_shot lib g = Inr (m, g') \<Longrightarrow> \<exists>sh. m = Move_Shot sh"
  by (auto simp: draw_shot_def split: sum.splits prod.splits)

lemma target_loop_shot: "target_loop lib g gs idxs = Inr (m, g') \<Longrightarrow> \<exists>sh. m = Move_Shot sh"
  by (induction idxs) (auto split: if_splits option.splits dest: draw_shot_shot attack_shot)

lemma OnMyTurn_shot: "OnMyTurn lib g gs = Inr (m, g') \<Longrightarrow> \<exists>sh. m = Move_Shot sh"
  by (auto simp: OnMyTurn_def Let_def split: if_splits dest: target_loop_shot)

text \<open>The planner fails only where a routine it calls fails.\<close>

lemma Estimate_failure:
  "EstimateShotVelocityFCV1 lib g p s r = Inl f \<Longrightarrow> callee_failure lib f"
  unfolding callee_failure_def by blast

lemma rollout_failure: "rollout lib g gs m = Inl f \<Longrightarrow> callee_failure lib f"
  unfolding callee_failure_def rollout_def by (auto split: sum.splits prod.splits)

lemma speed_search_failure:
  "speed_search lib g gs idx target speed = Inl f \<Longrightarrow> callee_failure lib f"
proof (induction lib g gs idx target speed rule: speed_search.induct)
  case (1 lib g gs idx target speed)
  from "1.prems" have lt: "speed < 3.5"
    by (subst (asm) speed_search.simps) (auto split: if_splits)
  show ?case
  proof (cases "EstimateShotVelocityFCV1 lib g (position target) speed kCCW")
    case (Inl f')
    then show ?thesis using "1.prems" lt Estimate_failure[OF Inl]
      by (subst (asm) speed_search.simps) simp
  next
    case (Inr vg)
    obtain v g1 where vg: "vg = (v, g1)" by (cases vg)
    note e = Inr[unfolded vg]
    show ?thesis
    proof (cases "rollout lib (Load g1) gs (Move_Shot (Shot v kCCW))")
      case (Inl f')
      then show ?thesis using "1.prems" lt e rollout_failure[OF Inl]
        by (subst (asm) speed_search.simps) simp
    next
      case (Inr tg)
      obtain t g2 where tg: "tg = (t, g2)" by (cases tg)
      note r = Inr[unfolded tg]
      have nh: "\<not> hit_succeeded gs idx t" and
        rec: "speed_search lib g2 gs idx target (speed + 0.5) = Inl f"
        using "1.prems" lt e r by (subst (asm) speed_search.simps, simp split: if_splits)+
      show ?thesis by (rule "1.IH"[OF lt e refl r refl nh rec])
    qed
  qed
qed

lemma score_inner_failure:
  "score_inner lib g gs idx cands points j = Inl f \<Longrightarrow> callee_failure lib f"
proof (induction lib g gs idx cands points j rule: score_inner.induct)
  case (1 lib g gs idx cands points j)
  from "1.prems" have lt: "j < length cands"
    by (subst (asm) score_inner.simps) (auto split: if_splits)
  show ?case
  proof (cases "rollout lib (Load g) gs (Move_Shot (cands ! j))")
    case (Inl f')
    then show ?thesis using "1.prems" lt rollout_failure[OF Inl]
      by (subst (asm) score_inner.simps) simp
  next
    case (Inr tg)
    obtain t g1 where tg: "tg = (t, g1)" by (cases tg)
    note r = Inr[unfolded tg]
    define points1 where "points1 = (if stones t (shot gs mod 2) (shot gs div 2) \<noteq> None
                             then add_point points j else points)"
    define points2 where "points2 = (if stones t (team idx) (stone idx) = None
                             then add_point points1 j else points1)"
    have "score_inner lib g gs idx cands points j = score_inner lib g1 gs idx cands points2 (Suc j)"
      by (subst score_inner.simps) (simp add: lt r Let_def points1_def points2_def)
    then have "score_inner lib g1 gs idx cands points2 (Suc j) = Inl f"
      using "1.prems" by simp
    then show ?thesis by (rule "1.IH"[OF lt r refl points1_def points2_def])
  qed
qed

lemma score_outer_failure:
  "score_outer lib g gs idx cands points i = Inl f \<Longrightarrow> callee_failure lib f"
proof (induction lib g gs idx cands points i rule: score_outer.induct)
  case (1 lib g gs idx cands points i)
  from "1.prems" have lt: "i < 3"
    by (subst (asm) score_outer.simps) (auto split: if_splits)
  show ?case
  proof (cases "score_inner lib g gs idx cands points 0")
    case (Inl f')
    then show ?thesis using "1.prems" lt score_inner_failure[OF Inl]
      by (subst (asm) score_outer.simps) simp
  next
    case (Inr pg)
    obtain p1 g1 where pg: "pg = (p1, g1)" by (cases pg)
    note r = Inr[unfolded pg]
    have "score_outer lib g1 gs idx cands p1 (Suc i) = Inl f"
      using "1.prems" lt r by (subst (asm) score_outer.simps) simp
    then show ?thesis by (rule "1.IH"[OF lt r refl])
  qed
qed

lemma attack_failure: "attack lib g gs idx target = Inl f \<Longrightarrow> callee_failure lib f"
  unfolding attack_def
  by (auto simp: Let_def split: sum.splits prod.splits if_splits
      dest: speed_search_failure Estimate_failure score_outer_failure)

lemma draw_shot_failure: "draw_shot lib g = Inl f \<Longrightarrow> callee_failure lib f"
  unfolding draw_shot_def by (auto split: sum.splits prod.splits dest: Estimate_failure)

lemma target_loop_failure: "target_loop lib g gs idxs = Inl f \<Longrightarrow> callee_failure lib f"
  by (induction idxs) (auto split: if_splits option.splits dest: draw_shot_failure attack_failure)

lemma OnMyTurn_failure:
  "OnMyTurn lib g gs = Inl f \<Longrightarrow> (\<not> shot gs div 4 < 4 \<and> f = UndefinedBehaviour) \<or> callee_failure lib f"
  by (auto simp: OnMyTurn_def Let_def split: if_splits dest: target_loop_failure)

text \<open>The scores: a rollout adds at most two points to its candidate.\<close>

lemma add_point_nth:
  "k < length points \<Longrightarrow> add_point points j ! k = (if k = j then points ! k + 1 else points ! k)"
  by (simp add: add_point_def nth_list_update)

lemma length_add_point: "length (add_point points j) = length points"
  by (simp add: add_point_def)

lemma score_inner_points:
  "score_inner lib g gs idx cands points j = Inr (points', g') \<Longrightarrow>
   length points' = length points \<and>
   (\<forall>k < length points. points ! k \<le> points' ! k \<and> points' ! k \<le> points ! k + (if j \<le> k then 2 else 0))"
proof (induction lib g gs idx cands points j rule: score_inner.induct)
  case (1 lib g gs idx cands points j)
  show ?case
  proof (cases "j < length cands")
    case False
    then have "points' = points" using "1.prems" by (subst (asm) score_inner.simps) simp
    then show ?thesis by simp
  next
    case True
    from "1.prems" True obtain t g1 where
      r: "rollout lib (Load g) gs (Move_Shot (cands ! j)) = Inr (t, g1)"
      by (subst (asm) score_inner.simps) (auto split: sum.splits)
    define points1 where "points1 = (if stones t (shot gs mod 2) (shot gs div 2) \<noteq> None
                             then add_point points j else points)"
    define points2 where "points2 = (if stones t (team idx) (stone idx) = None
                             then add_point points1 j else points1)"
    have "score_inner lib g gs idx cands points j = score_inner lib g1 gs idx cands points2 (Suc j)"
      by (subst score_inner.simps) (simp add: True r Let_def points1_def points2_def)
    then have "score_inner lib g1 gs idx cands points2 (Suc j) = Inr (points', g')"
      using "1.prems" by simp
    from "1.IH"[OF True r refl points1_def points2_def this]
    have ih: "length points' = length points2"
      "\<And>k. k < length points2 \<Longrightarrow> points2 ! k \<le> points' ! k \<and>
            points' ! k \<le> points2 ! k + (if Suc j \<le> k then 2 else 0)"
      by auto
    have l2: "length points2 = length points"
      by (simp add: points2_def points1_def length_add_point)
    have p2: "points ! k \<le> points2 ! k \<and> points2 ! k \<le> points ! k + (if k = j then 2 else 0)"
      if "k < length points" for k
      using that by (simp add: points2_def points1_def add_point_nth length_add_point)
    show ?thesis
    proof (intro conjI allI impI)
      show "length points' = length points" using ih(1) l2 by simp
    next
      fix k assume k: "k < length points"
      with ih(2)[of k] p2[of k] l2 show "points ! k \<le> points' ! k" by simp
    next
      fix k assume k: "k < length points"
      with ih(2)[of k] p2[of k] l2
      show "points' ! k \<le> points ! k + (if j \<le> k then 2 else 0)"
        by (cases "k = j") (auto split: if_splits)
    qed
  qed
qed

lemma score_outer_points:
  "score_outer lib g gs idx cands points i = Inr (points', g') \<Longrightarrow>
   length points' = length points \<and>
   (\<forall>k < length points. points ! k \<le> points' ! k \<and> points' ! k \<le> points ! k + 2 * int (3 - i))"
proof (induction lib g gs idx cands points i rule: score_outer.induct)
  case (1 lib g gs idx cands points i)
  show ?case
  proof (cases "i < 3")
    case False
    then have "points' = points" using "1.prems" by (subst (asm) score_outer.simps) simp
    then show ?thesis by simp
  next
    case True
    from "1.prems" True obtain p1 g1 where
      r: "score_inner lib g gs idx cands points 0 = Inr (p1, g1)"
      by (subst (asm) score_outer.simps) (auto split: sum.splits)
    have "score_outer lib g1 gs idx cands p1 (Suc i) = Inr (points', g')"
      using "1.prems" True r by (subst (asm) score_outer.simps) simp
    from "1.IH"[OF True r refl this]
    have ih: "length points' = length p1"
      "\<And>k. k < length p1 \<Longrightarrow> p1 ! k \<le> points' ! k \<and> points' ! k \<le> p1 ! k + 2 * int (3 - Suc i)"
      by auto
    from score_inner_points[OF r]
    have in1: "length p1 = length points"
      "\<And>k. k < length points \<Longrightarrow> points ! k \<le> p1 ! k \<and> p1 ! k \<le> points ! k + 2"
      by auto
    show ?thesis
    proof (intro conjI allI impI)
      show "length points' = length points" using ih(1) in1(1) by simp
    next
      fix k assume k: "k < length points"
      with ih(2)[of k] in1 show "points ! k \<le> points' ! k" by fastforce
    next
      fix k assume k: "k < length points"
      with ih(2)[of k] in1(1) in1(2)[of k] True
      show "points' ! k \<le> points ! k + 2 * int (3 - i)" by (simp add: Suc_diff_Suc)
    qed
  qed
qed

text \<open>The speed search, unrolled.\<close>

lemma speed_search_unfold:
  "speed < 3.5 \<Longrightarrow>
   speed_search lib g gs idx target speed =
     (case EstimateShotVelocityFCV1 lib g (position target) speed kCCW of
        Inl f \<Rightarrow> Inl f
      | Inr (v, g1) \<Rightarrow>
          (case rollout lib (Load g1) gs (Move_Shot (Shot v kCCW)) of
             Inl f \<Rightarrow> Inl f
           | Inr (t, g2) \<Rightarrow>
               if hit_succeeded gs idx t then Inr (speed, g2)
               else speed_search lib g2 gs idx target (speed + 0.5)))"
  by (subst speed_search.simps) simp

lemma speed_search_stop: "\<not> speed < 3.5 \<Longrightarrow> speed_search lib g gs idx target speed = Inr (speed, g)"
  by (subst speed_search.simps) simp

lemma speed_search_list:
  assumes "team_index own = shot gs mod 2"
  shows "speed_search lib g gs idx target 0.5 =
     first_accepted lib own g gs idx target [0.5, 1, 1.5, 2, 2.5, 3] 3.5"
proof -
  have h: "\<And>t. own_stone_stays own gs idx t = hit_succeeded gs idx t"
    using assms by (simp add: own_stone_stays_def hit_succeeded_def)
  show ?thesis
    by (simp add: speed_search_unfold speed_search_stop h split: sum.splits prod.splits)
qed

subsection \<open>Runs on the concrete inputs\<close>

lemma Length_axis: "0 \<le> b \<Longrightarrow> Length (Vector2 0 b) = b"
  by (simp add: Length_def)

lemma trial_shot_still: "trial_shot still_library s sim = Some (Inr (Vector2 0 0, sim))"
  by (subst trial_shot.simps) (simp add: still_library_def)

lemma Estimate_still:
  assumes "0 \<le> s" "s \<le> 4" "29.9 \<le> b" "b \<le> 1000"
  shows "EstimateShotVelocityFCV1 still_library g (Vector2 0 b) s rot =
           Inr (Vector2 0 (fin (v0_speed (Fin b) s)),
                g\<lparr>s_simulator := Some (case s_simulator g of None \<Rightarrow> 0 | Some w \<Rightarrow> w)\<rparr>)"
proof -
  have b: "0 \<le> b" "0 < b" using assms by auto
  have l: "launch_speed (Vector2 0 b) s = Inr (Fin (fin (v0_speed (Fin b) s)))"
    using launch_speed_fin[of s "Vector2 0 b"] assms b by (simp add: Length_axis)
  have sim: "SetStones still_library = (\<lambda>sts sim. sim)"
    "CreateSimulator (SimulatorFCV1Factory still_library) = 0"
    by (simp_all add: still_library_def)
  show ?thesis
    unfolding EstimateShotVelocityFCV1_def l
    using b by (simp add: Let_def sim trial_shot_still atan2_def split: option.splits)
qed

lemma rollout_still:
  "rollout still_library g gs m =
     Inr (gs, g\<lparr>g_simulator := Suc (g_simulator g),
                g_players := (g_players g)(shot gs div 4 := Suc (g_players g (shot gs div 4))),
                trace := trace g @ [EvApplyMove (g_simulator g) (Suc (g_simulator g))]\<rparr>)"
  by (simp add: rollout_def still_library_def)

lemma sorted_one_stone:
  "SortStones (kTee still_library) (stones one_stone_sheet) =
    [\<lparr>team = 1, stone = 0\<rparr>,
     \<lparr>team = 1, stone = 7\<rparr>, \<lparr>team = 1, stone = 6\<rparr>, \<lparr>team = 1, stone = 5\<rparr>, \<lparr>team = 1, stone = 4\<rparr>,
     \<lparr>team = 1, stone = 3\<rparr>, \<lparr>team = 1, stone = 2\<rparr>, \<lparr>team = 1, stone = 1\<rparr>,
     \<lparr>team = 0, stone = 7\<rparr>, \<lparr>team = 0, stone = 6\<rparr>, \<lparr>team = 0, stone = 5\<rparr>, \<lparr>team = 0, stone = 4\<rparr>,
     \<lparr>team = 0, stone = 3\<rparr>, \<lparr>team = 0, stone = 2\<rparr>, \<lparr>team = 0, stone = 1\<rparr>, \<lparr>team = 0, stone = 0\<rparr>]"
  unfolding SortStones_def init_indices_eval
  by (simp add: eval_nat_numeral SortStones_outer.simps swap_needed_def swap_at_def one_stone_sheet_def)

lemma OnMyTurn_one_stone:
  "map_sum id (\<lambda>(m, g'). (m, g_simulator g', g_simulator_storage g'))
     (OnMyTurn still_library start_globals one_stone_sheet) =
   Inr (Move_Shot (Shot (Vector2 0 (fin (v0_speed (Fin 38) 3.5))) kCW), 1, 0)"
  unfolding OnMyTurn_def Let_def sorted_one_stone
  by (simp add: start_globals_def Save_def one_stone_sheet_def attack_def
       speed_search.simps Estimate_still rollout_still hit_succeeded_def Load_def
       score_outer.simps score_inner.simps add_point_def Let_def)

lemma speed_search_one_stone:
  "map_sum id (\<lambda>(speed, g'). (speed, trace g'))
    (speed_search still_library (Save start_globals) one_stone_sheet \<lparr>team = 1, stone = 0\<rparr>
       \<lparr>position = Vector2 0 38, angle = 0\<rparr> 0.5) =
   Inr (3.5, [EvSave, EvLoad, EvApplyMove 0 1, EvLoad, EvApplyMove 0 1, EvLoad, EvApplyMove 0 1,
              EvLoad, EvApplyMove 0 1, EvLoad, EvApplyMove 0 1, EvLoad, EvApplyMove 0 1])"
  by (simp add: speed_search.simps Estimate_still rollout_still hit_succeeded_def one_stone_sheet_def
       Load_def Save_def start_globals_def)

lemma target_loop_no_opponent:
  "\<forall>idx\<in>set idxs. team idx = team_index (g_team g) \<or> stones gs (team idx) (stone idx) = None \<Longrightarrow>
   target_loop lib g gs idxs = draw_shot lib g"
  by (induction idxs) auto

lemma set_SortStones: "set (SortStones tee sts) = set init_indices"
  using mset_SortStones[of tee sts] by (metis set_mset_mset)

lemma score_outer_still:
  "map_sum id fst (score_outer still_library g one_stone_sheet \<lparr>team = 1, stone = 0\<rparr> [c0, c1] [0, 0] 0)
     = Inr [0, 0]"
  by (simp add: score_outer.simps score_inner.simps rollout_still add_point_def Load_def Let_def
        one_stone_sheet_def)

lemma speed_search_after:
  "speed_search still_library (Save start_globals) one_stone_sheet \<lparr>team = 1, stone = 0\<rparr>
       \<lparr>position = Vector2 0 38, angle = 0\<rparr> 0.5 = Inr (3.5, after_search)"
proof -
  have six: "(6::nat) = Suc (Suc (Suc (Suc (Suc (Suc 0)))))" by simp
  show ?thesis
    unfolding after_search_def six
    by (simp add: speed_search.simps Estimate_still rollout_still hit_succeeded_def one_stone_sheet_def
       Load_def Save_def start_globals_def)
qed

lemma Estimate_after:
  "0 \<le> s \<Longrightarrow> s \<le> 4 \<Longrightarrow>
   EstimateShotVelocityFCV1 still_library after_search (Vector2 0 38) s rot =
     Inr (Vector2 0 (fin (v0_speed (Fin 38) s)), after_search)"
  by (simp add: Estimate_still) (simp add: after_search_def)

lemma attack_one_stone:
  "map_sum id fst (attack still_library (Save start_globals) one_stone_sheet \<lparr>team = 1, stone = 0\<rparr>
       \<lparr>position = Vector2 0 38, angle = 0\<rparr>) =
   Inr (Move_Shot (Shot (Vector2 0 (fin (v0_speed (Fin 38) 3.5))) kCW))"
proof -
  have "map_sum id fst (score_outer still_library after_search one_stone_sheet \<lparr>team = 1, stone = 0\<rparr>
          [Shot (Vector2 0 (fin (v0_speed (Fin 38) 3.5))) kCCW, Shot (Vector2 0 (fin (v0_speed (Fin 38) 3.5))) kCW] [0, 0] 0)
        = Inr [0, 0]"
    by (rule score_outer_still)
  then obtain g' where "score_outer still_library after_search one_stone_sheet \<lparr>team = 1, stone = 0\<rparr>
          [Shot (Vector2 0 (fin (v0_speed (Fin 38) 3.5))) kCCW, Shot (Vector2 0 (fin (v0_speed (Fin 38) 3.5))) kCW] [0, 0] 0
        = Inr ([0, 0], g')"
    by (auto simp: map_sum_def split: sum.splits)
  then show ?thesis
    unfolding attack_def speed_search_after
    by (simp add: Estimate_after)
qed


lemma trial_shot_third_hit: "trial_shot third_hit_library s sim = Some (Inr (Vector2 0 0, sim))"
  by (subst trial_shot.simps) (simp add: third_hit_library_def still_library_def)

lemma Estimate_third_hit:
  assumes "0 \<le> s" "s \<le> 4" "29.9 \<le> b" "b \<le> 1000"
  shows "EstimateShotVelocityFCV1 third_hit_library g (Vector2 0 b) s rot =
           Inr (Vector2 0 (fin (v0_speed (Fin b) s)),
                g\<lparr>s_simulator := Some (case s_simulator g of None \<Rightarrow> 0 | Some w \<Rightarrow> w)\<rparr>)"
proof -
  have b: "0 \<le> b" "0 < b" using assms by auto
  have l: "launch_speed (Vector2 0 b) s = Inr (Fin (fin (v0_speed (Fin b) s)))"
    using launch_speed_fin[of s "Vector2 0 b"] assms b by (simp add: Length_axis)
  have sim: "SetStones third_hit_library = (\<lambda>sts sim. sim)"
    "CreateSimulator (SimulatorFCV1Factory third_hit_library) = 0"
    by (simp_all add: third_hit_library_def still_library_def)
  show ?thesis
    unfolding EstimateShotVelocityFCV1_def l
    using b by (simp add: Let_def sim trial_shot_third_hit atan2_def split: option.splits)
qed

lemma rollout_third_hit:
  "rollout third_hit_library g gs m =
     Inr (if g_players g (shot gs div 4) = 2
          then gs\<lparr>stones := (\<lambda>t s. if t = 0 \<and> s = 1 then Some \<lparr>position = Vector2 0 38, angle = 0\<rparr>
                                      else None)\<rparr>
          else gs,
          g\<lparr>g_simulator := Suc (g_simulator g),
            g_players := (g_players g)(shot gs div 4 := Suc (g_players g (shot gs div 4))),
            trace := trace g @ [EvApplyMove (g_simulator g) (Suc (g_simulator g))]\<rparr>)"
  by (simp add: rollout_def third_hit_library_def still_library_def)

lemma speed_search_third_hit:
  "map_sum id fst
    (speed_search third_hit_library (Save start_globals) one_stone_sheet \<lparr>team = 1, stone = 0\<rparr>
       \<lparr>position = Vector2 0 38, angle = 0\<rparr> 0.5) = Inr 1.5"
  by (simp add: speed_search.simps Estimate_third_hit rollout_third_hit
       hit_succeeded_def one_stone_sheet_def Load_def Save_def start_globals_def)

subsection \<open>The protocol client: steps and failures\<close>

lemma io_bind_Inl: "io_bind (evs, Inl f) k = (evs, Inl f)"
  by (simp add: io_bind_def)

lemma io_bind_Inr: "io_bind (evs, Inr a) k = (evs @ fst (k a), snd (k a))"
  by (simp add: io_bind_def split: prod.splits)

lemma io_bind_return: "io_bind (io_return a) k = k a"
  by (simp add: io_bind_def io_return_def split: prod.splits)

lemma io_bind_print: "io_bind (io_print s) k = (Stdout s # fst (k ()), snd (k ()))"
  by (simp add: io_bind_def io_print_def split: prod.splits)

lemma io_bind_throw_Inr: "io_bind (io_throw (Inr a)) k = k a"
  by (simp add: io_bind_def io_throw_def split: prod.splits)

lemma io_bind_throw_Inl: "io_bind (io_throw (Inl e)) k = ([], Inl (Thrown e))"
  by (simp add: io_bind_def io_throw_def)

lemmas io_simps = io_bind_Inl io_bind_return io_bind_print io_bind_throw_Inr io_bind_throw_Inl

lemma receive_events: "receive codec inp cmd = (evs, r) \<Longrightarrow> evs = []"
  by (auto simp: receive_def io_bind_def io_throw_def io_return_def split: sum.splits prod.splits)

lemma receive_ok:
  "read_next_line inp = Inr (line, inp') \<Longrightarrow> parse_line codec line = Inr jin \<Longrightarrow>
   check_command jin cmd = Inr () \<Longrightarrow> receive codec inp cmd = ([], Inr (jin, inp'))"
  by (simp add: receive_def io_simps io_return_def)

lemma OnGameOver_no_write: "SocketWrite msg \<notin> set (fst (OnGameOver g gs))"
  by (simp add: OnGameOver_def io_print_def split: option.splits)

lemma game_over_no_write: "SocketWrite msg \<notin> set (fst (game_over codec inp))"
  by (auto simp: game_over_def receive_def io_bind_def io_throw_def io_return_def io_print_def
      split: sum.splits prod.splits)

lemma after_loop_no_write:
  "SocketWrite msg \<notin> set (fst (io_bind (game_over codec inp) (\<lambda>inp5. OnGameOver g gs)))"
  by (auto simp: game_over_def receive_def io_bind_def io_throw_def io_return_def io_print_def
      OnGameOver_def split: sum.splits prod.splits option.splits if_splits)

lemma main_exit_1: "fst (main lib codec world players0 argv) = Exited 1 \<longleftrightarrow> length argv \<noteq> 3"
  by (auto simp: main_def split: prod.splits sum.splits failure.splits)

lemma main_usage: "length argv \<noteq> 3 \<Longrightarrow> main lib codec world players0 argv = (Exited 1, [Stderr usage])"
  by (simp add: main_def)

lemma main_catches:
  "length argv = 3 \<Longrightarrow> session lib codec world players0 (argv ! 1) (argv ! 2) = (evs, Inl (Thrown e)) \<Longrightarrow>
   main lib codec world players0 argv = (Exited 0, evs @ [Stderr (''Exception: '' @ what e @ [newline])])"
  by (simp add: main_def)

lemma session_connect_error:
  "connect_error world host port = Some e \<Longrightarrow>
   session lib codec world players0 host port = ([Connect host port], Inl (Thrown e))"
  by (simp add: session_def connect_def io_simps)

lemma socket_write_error:
  "send_error world msg = Some e \<Longrightarrow> socket_write world msg = ([], Inl (Thrown e))"
  by (simp add: socket_write_def)

lemma receive_read_error:
  "read_next_line inp = Inl e \<Longrightarrow> receive codec inp cmd = ([], Inl (Thrown e))"
  by (simp add: receive_def io_simps)

lemma receive_parse_error:
  "read_next_line inp = Inr (line, inp') \<Longrightarrow> parse_line codec line = Inl e \<Longrightarrow>
   receive codec inp cmd = ([], Inl (Thrown e))"
  by (simp add: receive_def io_simps)

lemma receive_bad_command:
  "read_next_line inp = Inr (line, inp') \<Longrightarrow> parse_line codec line = Inr jin \<Longrightarrow>
   at_key jin ''cmd'' = Inr (JString actual) \<Longrightarrow> actual \<noteq> cmd \<Longrightarrow>
   receive codec inp cmd =
     ([], Inl (Thrown (runtime_error (''Unexpected cmd (expected: \"'' @ cmd
                           @ ''\", actual: \"'' @ actual @ ''\")''))))"
  by (simp add: receive_def io_simps check_command_def get_string_def)

lemma get_int_wraps: "get_int (JInt 4294967297) = Inr 1"
  by (simp add: get_int_def to_int32_def)

lemma handshake_bad_version:
  "receive codec inp ''dc'' = ([], Inr (jin, inp')) \<Longrightarrow> at_key jin ''version'' = Inr jv \<Longrightarrow>
   at_key jv ''major'' = Inr (JInt major) \<Longrightarrow> to_int32 major \<noteq> kSupportedProtocolVersionMajor \<Longrightarrow>
   handshake codec world inp = ([], Inl (Thrown (runtime_error ''Unexpected protocol version'')))"
  by (simp add: handshake_def io_bind_Inr io_simps get_int_def)

lemma handshake_receive_error:
  "receive codec inp ''dc'' = (evs, Inl f) \<Longrightarrow> handshake codec world inp = (evs, Inl f)"
  by (simp add: handshake_def io_bind_Inl)

lemma ready_receive_error:
  "receive codec inp ''is_ready'' = (evs, Inl f) \<Longrightarrow> ready lib codec world players0 inp = (evs, Inl f)"
  by (simp add: ready_def io_bind_Inl)

lemma new_game_receive_error:
  "receive codec inp ''new_game'' = (evs, Inl f) \<Longrightarrow> new_game codec inp = (evs, Inl f)"
  by (simp add: new_game_def io_bind_Inl)

lemma game_over_receive_error:
  "receive codec inp ''game_over'' = (evs, Inl f) \<Longrightarrow> game_over codec inp = (evs, Inl f)"
  by (simp add: game_over_def io_bind_Inl)

lemma handshake_write_error:
  "receive codec inp ''dc'' = ([], Inr (jin, inp')) \<Longrightarrow> at_key jin ''version'' = Inr jv \<Longrightarrow>
   at_key jv ''major'' = Inr (JInt 1) \<Longrightarrow> at_key jin ''game_id'' = Inr (JString game_id) \<Longrightarrow>
   at_key jin ''date_time'' = Inr (JString date_time) \<Longrightarrow>
   send_error world (json_dump codec (JObject [(''cmd'', JString ''dc_ok''), (''name'', JString kName)])
                       @ [newline]) = Some e \<Longrightarrow>
   snd (handshake codec world inp) = Inl (Thrown e)"
  by (simp add: handshake_def io_bind_Inr io_simps get_int_def to_int32_def get_string_def
      kSupportedProtocolVersionMajor_def socket_write_def)

lemma on_update_write_error:
  "at_key jin ''state'' = Inr jstate \<Longrightarrow> GameState_from_json codec jstate = Inr game_state \<Longrightarrow>
   game_result game_state = None \<Longrightarrow> GetNextTeam lib game_state = a_team \<Longrightarrow>
   OnMyTurn lib g game_state = Inr (move, g') \<Longrightarrow>
   send_error world (json_dump codec (JObject [(''cmd'', JString ''move''),
                       (''move'', Move_to_json codec move)]) @ [newline]) = Some e \<Longrightarrow>
   snd (on_update lib codec world a_team g jin) = Inl (Thrown e)"
  by (simp add: on_update_def io_bind_Inr io_simps socket_write_def)

lemma ready_bad_rule:
  "receive codec inp ''is_ready'' = ([], Inr (jin, inp')) \<Longrightarrow> at_key jin ''game'' = Inr jgame \<Longrightarrow>
   at_key jgame ''rule'' = Inr (JString rule) \<Longrightarrow> rule \<noteq> ''normal'' \<Longrightarrow>
   ready lib codec world players0 inp = ([], Inl (Thrown (runtime_error ''Unexpected rule'')))"
  by (simp add: ready_def io_bind_Inr io_simps get_string_def)

lemma update_loop_receive_error:
  "receive codec inp ''update'' = (evs, Inl f) \<Longrightarrow>
   update_loop lib codec world a_team g inp = (evs, Inl f)"
  by (subst update_loop.simps) simp

lemma session_handshake_error:
  "connect_error world host port = None \<Longrightarrow>
   handshake codec world ([], incoming world) = (evs1, Inl f) \<Longrightarrow>
   session lib codec world players0 host port = (Connect host port # evs1, Inl f)"
  by (simp add: session_def connect_def io_bind_Inr io_simps)

lemma session_ready_error:
  "connect_error world host port = None \<Longrightarrow>
   handshake codec world ([], incoming world) = (evs1, Inr inp1) \<Longrightarrow>
   ready lib codec world players0 inp1 = (evs2, Inl f) \<Longrightarrow>
   session lib codec world players0 host port = (Connect host port # evs1 @ evs2, Inl f)"
  by (simp add: session_def connect_def io_bind_Inr io_simps)

lemma session_new_game_error:
  "connect_error world host port = None \<Longrightarrow>
   handshake codec world ([], incoming world) = (evs1, Inr inp1) \<Longrightarrow>
   ready lib codec world players0 inp1 = (evs2, Inr (a_team, g, inp2)) \<Longrightarrow>
   new_game codec inp2 = (evs3, Inl f) \<Longrightarrow>
   session lib codec world players0 host port = (Connect host port # evs1 @ evs2 @ evs3, Inl f)"
  by (simp add: session_def connect_def io_bind_Inr io_simps)

lemma session_update_error:
  "connect_error world host port = None \<Longrightarrow>
   handshake codec world ([], incoming world) = (evs1, Inr inp1) \<Longrightarrow>
   ready lib codec world players0 inp1 = (evs2, Inr (a_team, g, inp2)) \<Longrightarrow>
   new_game codec inp2 = (evs3, Inr inp3) \<Longrightarrow>
   update_loop lib codec world a_team g inp3 = (evs4, Inl f) \<Longrightarrow>
   session lib codec world players0 host port = (Connect host port # evs1 @ evs2 @ evs3 @ evs4, Inl f)"
  by (simp add: session_def connect_def io_bind_Inr io_simps)

lemma session_game_over_error:
  "connect_error world host port = None \<Longrightarrow>
   handshake codec world ([], incoming world) = (evs1, Inr inp1) \<Longrightarrow>
   ready lib codec world players0 inp1 = (evs2, Inr (a_team, g, inp2)) \<Longrightarrow>
   new_game codec inp2 = (evs3, Inr inp3) \<Longrightarrow>
   update_loop lib codec world a_team g inp3 = (evs4, Inr (game_state, g', inp4)) \<Longrightarrow>
   game_over codec inp4 = (evs5, Inl f) \<Longrightarrow>
   session lib codec world players0 host port =
     (Connect host port # evs1 @ evs2 @ evs3 @ evs4 @ evs5, Inl f)"
  by (simp add: session_def connect_def io_bind_Inr io_simps)

subsection \<open>Claim C5: the launch speed exceeds the arrival speed\<close>




subsection \<open>Claim C2: the speed search\<close>

text \<open>
  Claim C2, as the code has it. The speed search tries the arrival speeds 0.5, 1.0, 1.5,
  2.0, 2.5, 3.0 in this order and accepts the first whose rollout leaves a stone at the
  planner's own slot of the current shot and removes the targeted stone; when none does,
  its result is 3.5, the value of the loop variable after the loop, at which no rollout
  was tried. The two candidates that the planner scores, and one of which it returns, are
  the estimates for the target at the speed so found, the first with counter-clockwise
  and the second with clockwise rotation. The code looks for the own stone in the row
  \<^verbatim>\<open>shot % 2\<close> of the grid; the statement is for the turns in which that is the row of
  the planner's team.
\<close>

theorem speed_search_tries_in_order:
  assumes "team_index (g_team g) = shot game_state mod 2"
  shows "speed_search lib g game_state idx target 0.5 =
           first_accepted lib (g_team g) g game_state idx target [0.5, 1, 1.5, 2, 2.5, 3] 3.5 \<and>
         (\<forall>m g'. attack lib g game_state idx target = Inr (m, g') \<longrightarrow>
            (\<exists>speed g1 v_ccw g2 v_cw g3.
               first_accepted lib (g_team g) g game_state idx target [0.5, 1, 1.5, 2, 2.5, 3] 3.5
                 = Inr (speed, g1) \<and>
               EstimateShotVelocityFCV1 lib g1 (position target) speed kCCW = Inr (v_ccw, g2) \<and>
               EstimateShotVelocityFCV1 lib g2 (position target) speed kCW = Inr (v_cw, g3) \<and>
               (m = Move_Shot (Shot v_ccw kCCW) \<or> m = Move_Shot (Shot v_cw kCW))))"
proof (intro conjI allI impI)
  show l: "speed_search lib g game_state idx target 0.5 =
           first_accepted lib (g_team g) g game_state idx target [0.5, 1, 1.5, 2, 2.5, 3] 3.5"
    by (rule speed_search_list[OF assms])
  fix m g'
  assume "attack lib g game_state idx target = Inr (m, g')"
  then obtain speed g1 v_ccw g2 v_cw g3 points where
    1: "speed_search lib g game_state idx target 0.5 = Inr (speed, g1)" and
    2: "EstimateShotVelocityFCV1 lib g1 (position target) speed kCCW = Inr (v_ccw, g2)" and
    3: "EstimateShotVelocityFCV1 lib g2 (position target) speed kCW = Inr (v_cw, g3)" and
    4: "score_outer lib g3 game_state idx [Shot v_ccw kCCW, Shot v_cw kCW] [0, 0] 0 = Inr (points, g')" and
    5: "m = Move_Shot (if points ! 0 > points ! 1 then Shot v_ccw kCCW else Shot v_cw kCW)"
    by (rule attack_cases)
  have "m = Move_Shot (Shot v_ccw kCCW) \<or> m = Move_Shot (Shot v_cw kCW)" using 5 by simp
  then show "\<exists>speed g1 v_ccw g2 v_cw g3.
               first_accepted lib (g_team g) g game_state idx target [0.5, 1, 1.5, 2, 2.5, 3] 3.5
                 = Inr (speed, g1) \<and>
               EstimateShotVelocityFCV1 lib g1 (position target) speed kCCW = Inr (v_ccw, g2) \<and>
               EstimateShotVelocityFCV1 lib g2 (position target) speed kCW = Inr (v_cw, g3) \<and>
               (m = Move_Shot (Shot v_ccw kCCW) \<or> m = Move_Shot (Shot v_cw kCW))"
    using 1 2 3 unfolding l by blast
qed

text \<open>
  The theorem of claim C2 on a sheet with one opponent stone, at shot 2 with the planner
  playing team 0. With a library whose rollouts leave every stone where it was no speed is
  accepted, the search falls back to 3.5 and the candidates are the estimates at 3.5. With
  a library whose third rollout takes the stone out, the third speed, 1.5, is accepted.
\<close>

theorem speed_search_tries_in_order_witness:
  "team_index (g_team (Save start_globals)) = shot one_stone_sheet mod 2 \<and>
   speed_search still_library (Save start_globals) one_stone_sheet \<lparr>team = 1, stone = 0\<rparr>
       \<lparr>position = Vector2 0 38, angle = 0\<rparr> 0.5 =
     first_accepted still_library k0 (Save start_globals) one_stone_sheet \<lparr>team = 1, stone = 0\<rparr>
       \<lparr>position = Vector2 0 38, angle = 0\<rparr> [0.5, 1, 1.5, 2, 2.5, 3] 3.5 \<and>
   first_accepted still_library k0 (Save start_globals) one_stone_sheet \<lparr>team = 1, stone = 0\<rparr>
       \<lparr>position = Vector2 0 38, angle = 0\<rparr> [0.5, 1, 1.5, 2, 2.5, 3] 3.5 = Inr (3.5, after_search) \<and>
   map_sum id fst
     (first_accepted third_hit_library k0 (Save start_globals) one_stone_sheet \<lparr>team = 1, stone = 0\<rparr>
        \<lparr>position = Vector2 0 38, angle = 0\<rparr> [0.5, 1, 1.5, 2, 2.5, 3] 3.5) = Inr 1.5 \<and>
   (\<exists>m g' v_ccw g2 v_cw g3.
      attack still_library (Save start_globals) one_stone_sheet \<lparr>team = 1, stone = 0\<rparr>
        \<lparr>position = Vector2 0 38, angle = 0\<rparr> = Inr (m, g') \<and>
      EstimateShotVelocityFCV1 still_library after_search (Vector2 0 38) 3.5 kCCW = Inr (v_ccw, g2) \<and>
      EstimateShotVelocityFCV1 still_library g2 (Vector2 0 38) 3.5 kCW = Inr (v_cw, g3) \<and>
      (m = Move_Shot (Shot v_ccw kCCW) \<or> m = Move_Shot (Shot v_cw kCW)))"
proof -
  let ?g = "Save start_globals"
  let ?idx = "\<lparr>team = 1, stone = 0\<rparr> :: StoneIndex"
  let ?t = "\<lparr>position = Vector2 0 38, angle = 0\<rparr> :: Transform"
  have h: "team_index (g_team ?g) = shot one_stone_sheet mod 2"
    by (simp add: Save_def start_globals_def one_stone_sheet_def)
  have t: "g_team ?g = k0" by (simp add: Save_def start_globals_def)
  note inst = speed_search_tries_in_order[OF h, of still_library ?idx ?t, unfolded t]
  have fa: "first_accepted still_library k0 ?g one_stone_sheet ?idx ?t [0.5, 1, 1.5, 2, 2.5, 3] 3.5
      = Inr (3.5, after_search)"
    using inst[THEN conjunct1] speed_search_after by simp
  have th: "map_sum id fst
      (first_accepted third_hit_library k0 ?g one_stone_sheet ?idx ?t [0.5, 1, 1.5, 2, 2.5, 3] 3.5) = Inr 1.5"
    using speed_search_tries_in_order[OF h, of third_hit_library ?idx ?t, unfolded t, THEN conjunct1]
      speed_search_third_hit by simp
  from attack_one_stone obtain m g' where a: "attack still_library ?g one_stone_sheet ?idx ?t = Inr (m, g')"
    by (auto simp: map_sum_def split: sum.splits)
  from inst[THEN conjunct2, rule_format, OF a] obtain speed g1 v_ccw g2 v_cw g3 where f:
    "first_accepted still_library k0 ?g one_stone_sheet ?idx ?t [0.5, 1, 1.5, 2, 2.5, 3] 3.5 = Inr (speed, g1)"
    "EstimateShotVelocityFCV1 still_library g1 (position ?t) speed kCCW = Inr (v_ccw, g2)"
    "EstimateShotVelocityFCV1 still_library g2 (position ?t) speed kCW = Inr (v_cw, g3)"
    "m = Move_Shot (Shot v_ccw kCCW) \<or> m = Move_Shot (Shot v_cw kCW)"
    by blast
  from f(1) have e: "speed = 3.5" "g1 = after_search" unfolding fa by simp_all
  have p: "position ?t = Vector2 0 38" by simp
  note f2 = f(2)[unfolded e p] and f3 = f(3)[unfolded e p]
  show ?thesis using h inst[THEN conjunct1] fa th a f2 f3 f(4) by blast
qed

text \<open>
  Claim C2 as stated fails on the fallback: when no rollout succeeds the search has tried
  six speeds, the last one 3.0, and returns 3.5; the shot the planner then returns has the
  launch speed that the regression gives for arrival speed 3.5.
\<close>

theorem speed_search_fallback_counterexample:
  "map_sum id (\<lambda>(speed, g'). (speed, trace g'))
    (speed_search still_library (Save start_globals) one_stone_sheet \<lparr>team = 1, stone = 0\<rparr>
       \<lparr>position = Vector2 0 38, angle = 0\<rparr> 0.5) =
   Inr (3.5, [EvSave, EvLoad, EvApplyMove 0 1, EvLoad, EvApplyMove 0 1, EvLoad, EvApplyMove 0 1,
              EvLoad, EvApplyMove 0 1, EvLoad, EvApplyMove 0 1, EvLoad, EvApplyMove 0 1]) \<and>
   (3.5 :: real) \<noteq> 3 \<and>
   map_sum id fst
     (attack still_library (Save start_globals) one_stone_sheet \<lparr>team = 1, stone = 0\<rparr>
        \<lparr>position = Vector2 0 38, angle = 0\<rparr>) =
     Inr (Move_Shot (Shot (Vector2 0 (fin (v0_speed (Fin 38) 3.5))) kCW))"
  using speed_search_one_stone attack_one_stone by simp

subsection \<open>Claim C1: the choice between the two candidates\<close>

text \<open>
  Claim C1, as the code has it. When the planner attacks a stone, it builds the
  counter-clockwise and the clockwise candidate at the speed the search returned, scores
  each over three trials (every score lies between 0 and 6) and returns the
  counter-clockwise candidate if its score is strictly higher; otherwise, also when the
  scores are equal, it returns the clockwise candidate.
\<close>

theorem attack_returns_higher_score:
  assumes "attack lib g game_state idx target = Inr (m, g')"
  shows "\<exists>speed g1 v_ccw g2 v_cw g3 points.
           speed_search lib g game_state idx target 0.5 = Inr (speed, g1) \<and>
           EstimateShotVelocityFCV1 lib g1 (position target) speed kCCW = Inr (v_ccw, g2) \<and>
           EstimateShotVelocityFCV1 lib g2 (position target) speed kCW = Inr (v_cw, g3) \<and>
           score_outer lib g3 game_state idx [Shot v_ccw kCCW, Shot v_cw kCW] [0, 0] 0 = Inr (points, g') \<and>
           length points = 2 \<and> 0 \<le> points ! 0 \<and> points ! 0 \<le> 6 \<and> 0 \<le> points ! 1 \<and> points ! 1 \<le> 6 \<and>
           m = Move_Shot (if points ! 0 > points ! 1 then Shot v_ccw kCCW else Shot v_cw kCW)"
proof -
  from assms obtain speed g1 v_ccw g2 v_cw g3 points where
    1: "speed_search lib g game_state idx target 0.5 = Inr (speed, g1)" and
    2: "EstimateShotVelocityFCV1 lib g1 (position target) speed kCCW = Inr (v_ccw, g2)" and
    3: "EstimateShotVelocityFCV1 lib g2 (position target) speed kCW = Inr (v_cw, g3)" and
    4: "score_outer lib g3 game_state idx [Shot v_ccw kCCW, Shot v_cw kCW] [0, 0] 0 = Inr (points, g')" and
    5: "m = Move_Shot (if points ! 0 > points ! 1 then Shot v_ccw kCCW else Shot v_cw kCW)"
    by (rule attack_cases)
  from score_outer_points[OF 4]
  have l: "length points = 2" and
    b: "\<And>k. k < 2 \<Longrightarrow> [0, 0] ! k \<le> points ! k \<and> points ! k \<le> [0, 0] ! k + 2 * int (3 - 0)"
    by auto
  from b[of 0] b[of 1] have "0 \<le> points ! 0 \<and> points ! 0 \<le> 6 \<and> 0 \<le> points ! 1 \<and> points ! 1 \<le> 6"
    by simp
  with 1 2 3 4 5 l show ?thesis by blast
qed


text \<open>The theorem of claim C1 on the sheet with one stone.\<close>

theorem attack_returns_higher_score_witness:
  "\<exists>m g' speed g1 v_ccw g2 v_cw g3 points.
     attack still_library (Save start_globals) one_stone_sheet \<lparr>team = 1, stone = 0\<rparr>
       \<lparr>position = Vector2 0 38, angle = 0\<rparr> = Inr (m, g') \<and>
     speed_search still_library (Save start_globals) one_stone_sheet \<lparr>team = 1, stone = 0\<rparr>
       \<lparr>position = Vector2 0 38, angle = 0\<rparr> 0.5 = Inr (speed, g1) \<and>
     EstimateShotVelocityFCV1 still_library g1 (Vector2 0 38) speed kCCW = Inr (v_ccw, g2) \<and>
     EstimateShotVelocityFCV1 still_library g2 (Vector2 0 38) speed kCW = Inr (v_cw, g3) \<and>
     score_outer still_library g3 one_stone_sheet \<lparr>team = 1, stone = 0\<rparr>
       [Shot v_ccw kCCW, Shot v_cw kCW] [0, 0] 0 = Inr (points, g') \<and>
     length points = 2 \<and> 0 \<le> points ! 0 \<and> points ! 0 \<le> 6 \<and> 0 \<le> points ! 1 \<and> points ! 1 \<le> 6 \<and>
     m = Move_Shot (if points ! 0 > points ! 1 then Shot v_ccw kCCW else Shot v_cw kCW)"
proof -
  obtain m g' where a: "attack still_library (Save start_globals) one_stone_sheet \<lparr>team = 1, stone = 0\<rparr>
       \<lparr>position = Vector2 0 38, angle = 0\<rparr> = Inr (m, g')"
    using attack_one_stone by (auto simp: map_sum_def split: sum.splits)
  from attack_returns_higher_score[OF a] a show ?thesis by simp
qed

text \<open>
  Claim C1 as stated fails on a tie. On the sheet with one stone no rollout of the still
  library changes the sheet, so after the search (which ends at speed 3.5) both candidates
  score 0 in every trial; the planner returns the second, clockwise candidate.
\<close>

theorem attack_tie_counterexample:
  "speed_search still_library (Save start_globals) one_stone_sheet \<lparr>team = 1, stone = 0\<rparr>
       \<lparr>position = Vector2 0 38, angle = 0\<rparr> 0.5 = Inr (3.5, after_search) \<and>
   EstimateShotVelocityFCV1 still_library after_search (Vector2 0 38) 3.5 kCCW =
     Inr (Vector2 0 (fin (v0_speed (Fin 38) 3.5)), after_search) \<and>
   EstimateShotVelocityFCV1 still_library after_search (Vector2 0 38) 3.5 kCW =
     Inr (Vector2 0 (fin (v0_speed (Fin 38) 3.5)), after_search) \<and>
   map_sum id fst
     (score_outer still_library after_search one_stone_sheet \<lparr>team = 1, stone = 0\<rparr>
        [Shot (Vector2 0 (fin (v0_speed (Fin 38) 3.5))) kCCW, Shot (Vector2 0 (fin (v0_speed (Fin 38) 3.5))) kCW]
        [0, 0] 0) = Inr [0, 0] \<and>
   map_sum id fst
     (attack still_library (Save start_globals) one_stone_sheet \<lparr>team = 1, stone = 0\<rparr>
        \<lparr>position = Vector2 0 38, angle = 0\<rparr>) =
     Inr (Move_Shot (Shot (Vector2 0 (fin (v0_speed (Fin 38) 3.5))) kCW))"
  using speed_search_after attack_one_stone score_outer_still
  by (simp add: Estimate_after)

subsection \<open>Claim C4: the simulator around the rollouts\<close>

text \<open>
  Claim C4, as the code has it. Whenever \<open>OnMyTurn\<close> returns, the calls it made on the
  match simulator are one save followed by rollouts only, each rollout immediately after a
  restore and started from the simulator state at entry; the storage holds the state at
  entry; the simulator holds the state that the last rollout left, and the state at entry
  only if no rollout ran.
\<close>

theorem OnMyTurn_restores_before_rollouts:
  assumes "OnMyTurn lib g game_state = Inr (m, g')"
  shows "\<exists>evs. trace g' = trace g @ EvSave # evs \<and>
           rollouts_from (g_simulator g) evs \<and>
           g_simulator_storage g' = g_simulator g \<and>
           g_simulator g' = state_left (g_simulator g) evs"
  using assms by (rule OnMyTurn_run)

text \<open>The theorem of claim C4 on the sheet with one stone.\<close>

theorem OnMyTurn_restores_before_rollouts_witness:
  "\<exists>m g' evs. OnMyTurn still_library start_globals one_stone_sheet = Inr (m, g') \<and>
      trace g' = trace start_globals @ EvSave # evs \<and>
      rollouts_from (g_simulator start_globals) evs \<and>
      g_simulator_storage g' = g_simulator start_globals \<and>
      g_simulator g' = state_left (g_simulator start_globals) evs"
proof -
  obtain m g' where a: "OnMyTurn still_library start_globals one_stone_sheet = Inr (m, g')"
    using OnMyTurn_one_stone by (auto simp: map_sum_def split: sum.splits)
  from OnMyTurn_restores_before_rollouts[OF a] a show ?thesis by blast
qed

text \<open>
  Claim C4 as stated fails on the state at return: on the sheet with one stone the
  simulator holds state 0 at entry and state 1, left by the last rollout, at return; the
  storage holds 0.
\<close>

theorem OnMyTurn_simulator_counterexample:
  "g_simulator start_globals = 0 \<and>
   map_sum id (\<lambda>(m, g'). (g_simulator g', g_simulator_storage g'))
     (OnMyTurn still_library start_globals one_stone_sheet) = Inr (1, 0)"
proof -
  have "map_sum id (\<lambda>(m, g'). (g_simulator g', g_simulator_storage g'))
     (OnMyTurn still_library start_globals one_stone_sheet) =
     map_sum id (\<lambda>(m, s, t). (s, t)) (map_sum id (\<lambda>(m, g'). (m, g_simulator g', g_simulator_storage g'))
       (OnMyTurn still_library start_globals one_stone_sheet))"
    by (cases "OnMyTurn still_library start_globals one_stone_sheet") auto
  then show ?thesis unfolding OnMyTurn_one_stone by (simp add: start_globals_def)
qed

subsection \<open>Claim C8: the draw shot\<close>

text \<open>
  Claim C8. If no stone of another team than the planner's is present (and the shot index
  is below 16), \<open>OnMyTurn\<close> calls the estimator for the tee at arrival speed 0 with
  counter-clockwise rotation, right after saving the simulator, and returns a shot with
  the velocity the estimator gives and counter-clockwise rotation; it fails only as the
  estimator fails.
\<close>

theorem OnMyTurn_no_target_draws:
  assumes "shot game_state < 16" "no_opponent_stone (g_team g) (stones game_state)"
  shows "OnMyTurn lib g game_state =
           (case EstimateShotVelocityFCV1 lib (Save g) (kTee lib) 0 kCCW of
              Inl f \<Rightarrow> Inl f
            | Inr (v0, g1) \<Rightarrow> Inr (Move_Shot (Shot v0 kCCW), g1))"
proof -
  have "\<forall>idx\<in>set (SortStones (kTee lib) (stones game_state)).
          team idx = team_index (g_team (Save g)) \<or> stones game_state (team idx) (stone idx) = None"
    using assms(2) by (simp add: no_opponent_stone_def set_SortStones list_all_iff Save_def)
  then have "target_loop lib (Save g) game_state (SortStones (kTee lib) (stones game_state)) =
      draw_shot lib (Save g)"
    by (rule target_loop_no_opponent)
  moreover have "shot game_state div 4 < 4"
    using assms(1) by (simp add: less_mult_imp_div_less)
  ultimately show ?thesis by (simp add: OnMyTurn_def Let_def draw_shot_def)
qed

text \<open>The theorem of claim C8 on the empty sheet.\<close>

theorem OnMyTurn_no_target_draws_witness:
  "OnMyTurn still_library start_globals empty_sheet =
     Inr (Move_Shot (Shot (Vector2 0 (fin (v0_speed (Fin 38.405) 0))) kCCW),
          start_globals\<lparr>s_simulator := Some 0, trace := [EvSave]\<rparr>)"
proof -
  have 1: "shot empty_sheet < 16" by (simp add: empty_sheet_def)
  have 2: "no_opponent_stone (g_team start_globals) (stones empty_sheet)"
    by (simp add: no_opponent_stone_def empty_sheet_def list_all_iff)
  have k: "kTee still_library = Vector2 0 38.405" by (simp add: still_library_def)
  show ?thesis
    unfolding OnMyTurn_no_target_draws[OF 1 2] k
    by (simp add: Estimate_still) (simp add: Save_def start_globals_def)
qed

subsection \<open>Claim C10: the planner never concedes\<close>

text \<open>
  Claim C10. Whatever the library, the globals and the game state, a move that
  \<open>OnMyTurn\<close> returns is a shot, never a concession; and \<open>OnMyTurn\<close> returns a move
  unless the shot index is 16 or more or one of the routines it calls fails (a run of the
  estimator, or \<open>ApplyMove\<close> throwing).
\<close>

theorem OnMyTurn_returns_a_shot:
  "(\<forall>m g'. OnMyTurn lib g game_state = Inr (m, g') \<longrightarrow> (\<exists>sh. m = Move_Shot sh) \<and> m \<noteq> Move_Concede) \<and>
   (\<forall>f. OnMyTurn lib g game_state = Inl f \<longrightarrow>
        (\<not> shot game_state div 4 < 4 \<and> f = UndefinedBehaviour) \<or> callee_failure lib f)"
  using OnMyTurn_shot[of lib g game_state] OnMyTurn_failure[of lib g game_state] by auto

text \<open>The theorem of claim C10 on the sheet with one stone, where the planner returns a
  shot, and on a game state with shot index 16, where it does not return.\<close>

theorem OnMyTurn_returns_a_shot_witness:
  "(\<exists>m g' sh. OnMyTurn still_library start_globals one_stone_sheet = Inr (m, g') \<and>
        m = Move_Shot sh \<and> m \<noteq> Move_Concede) \<and>
   OnMyTurn still_library start_globals (empty_sheet\<lparr>shot := 16\<rparr>) = Inl UndefinedBehaviour \<and>
   \<not> shot (empty_sheet\<lparr>shot := 16\<rparr>) div 4 < 4"
proof -
  obtain m g' where a: "OnMyTurn still_library start_globals one_stone_sheet = Inr (m, g')"
    using OnMyTurn_one_stone by (auto simp: map_sum_def split: sum.splits)
  have b: "OnMyTurn still_library start_globals (empty_sheet\<lparr>shot := 16\<rparr>) = Inl UndefinedBehaviour"
    by (simp add: OnMyTurn_def Let_def empty_sheet_def)
  from OnMyTurn_returns_a_shot[of still_library start_globals one_stone_sheet] a
  have "\<exists>sh. m = Move_Shot sh \<and> m \<noteq> Move_Concede" by blast
  moreover from OnMyTurn_returns_a_shot[of still_library start_globals "empty_sheet\<lparr>shot := 16\<rparr>"] b
  have "\<not> shot (empty_sheet\<lparr>shot := 16\<rparr>) div 4 < 4 \<or> callee_failure still_library UndefinedBehaviour"
    by blast
  moreover have "\<not> shot (empty_sheet\<lparr>shot := 16\<rparr>) div 4 < 4" by (simp add: empty_sheet_def)
  ultimately show ?thesis using a b by blast
qed

subsection \<open>Claim C7: an update that carries a result ends the loop\<close>

text \<open>
  Claim C7. When the line read by the loop parses to an update message whose game state
  carries a result, that pass of the loop prints the line \<^verbatim>\<open>[in] update\<close> and leaves
  the loop with the globals unchanged: the planner, whose first act is to save the
  simulator and record it, has not run, and nothing has been written to the socket. What
  follows the loop, the receipt of \<^verbatim>\<open>game_over\<close> and \<^verbatim>\<open>OnGameOver\<close>, writes nothing to
  the socket either.
\<close>

theorem update_with_result_ends_loop:
  assumes "read_next_line inp = Inr (line, inp')"
    and "parse_line codec line = Inr jin"
    and "check_command jin ''update'' = Inr ()"
    and "at_key jin ''state'' = Inr jstate"
    and "GameState_from_json codec jstate = Inr game_state"
    and "game_result game_state \<noteq> None"
  shows "update_loop lib codec world a_team g inp =
           ([Stdout (''[in] update (end: '' @ string_of_nat (end_number game_state)
                @ '', shot: '' @ string_of_nat (shot game_state) @ '')'' @ [newline])],
            Inr (game_state, g, inp')) \<and>
         SocketWrite msg \<notin> set (fst (io_bind (game_over codec inp') (\<lambda>inp5. OnGameOver g game_state)))"
proof -
  have r: "receive codec inp ''update'' = ([], Inr (jin, inp'))"
    using assms(1,2,3) by (rule receive_ok)
  have u: "on_update lib codec world a_team g jin =
      ([Stdout (''[in] update (end: '' @ string_of_nat (end_number game_state)
                @ '', shot: '' @ string_of_nat (shot game_state) @ '')'' @ [newline])],
       Inr (True, game_state, g))"
    using assms(4,5,6) by (simp add: on_update_def io_simps) (simp add: io_return_def)
  show ?thesis
    by (subst update_loop.simps) (simp add: r u after_loop_no_write)
qed

text \<open>The theorem of claim C7 on the line \<^verbatim>\<open>over\<close> read with the plain codec.\<close>

theorem update_with_result_ends_loop_witness:
  "update_loop still_library plain_codec hello_world k0 start_globals (''over'' @ [newline], []) =
     ([Stdout (''[in] update (end: '' @ string_of_nat 0 @ '', shot: '' @ string_of_nat 0 @ '')''
         @ [newline])],
      Inr (finished_game, start_globals, ([], []))) \<and>
   SocketWrite ''move'' \<notin> set (fst (io_bind (game_over plain_codec ([], []))
                                 (\<lambda>inp5. OnGameOver start_globals finished_game)))"
proof -
  have 1: "read_next_line (''over'' @ [newline], []) = Inr (''over'' @ [newline], ([], []))"
    by (simp add: read_next_line_def first_line_def after_first_line_def newline_def)
  have 2: "parse_line plain_codec (''over'' @ [newline]) =
      Inr (JObject [(''cmd'', JString ''update''), (''state'', JNull)])"
    by (simp add: parse_line_def plain_codec_def)
  have 3: "check_command (JObject [(''cmd'', JString ''update''), (''state'', JNull)]) ''update'' = Inr ()"
    by (simp add: check_command_def at_key_def get_string_def)
  have 4: "at_key (JObject [(''cmd'', JString ''update''), (''state'', JNull)]) ''state'' = Inr JNull"
    by (simp add: at_key_def)
  have 5: "GameState_from_json plain_codec JNull = Inr finished_game"
    by (simp add: plain_codec_def)
  have 6: "game_result finished_game \<noteq> None" by (simp add: finished_game_def)
  show ?thesis
    using update_with_result_ends_loop[OF 1 2 3 4 5 6, of still_library hello_world k0 start_globals "''move''"]
    by (simp add: finished_game_def)
qed

subsection \<open>Claim C6: the warning of \<^verbatim>\<open>OnInit\<close>\<close>

text \<open>
  Claim C6 fails on the code. The condition of the warning is the tail of a comment line,
  so \<^verbatim>\<open>OnInit\<close> prints the warning for every simulator: here for a factory that is
  present and whose identifier is \<^verbatim>\<open>fcv1\<close>, the one supported simulator.
\<close>

theorem OnInit_warns_for_fcv1:
  "fst (OnInit lib players0 a_team game_setting
          (Some \<lparr>GetSimulatorId = ''fcv1'', CreateSimulator = sim\<rparr>) player_factories player_order) =
     [Stdout (unsupported_simulator_warning @ [newline])]"
  by (simp add: OnInit_def newline_def)

subsection \<open>Claim C9: exit statuses\<close>

text \<open>
  What holds of the exit statuses. \<^verbatim>\<open>main\<close> exits with status 1 exactly when the number
  of arguments is not 3, and then it has written the usage line to standard error and
  nothing else: no connection was attempted. An exception that leaves the session is
  caught: the process logs it to standard error after what it had written and exits with
  status 0. A failed connection, a failed write, a failed read, a line that does not
  parse, an unexpected command, an unsupported major version and an unsupported rule set
  are such exceptions; a message that cannot be received fails the step that waits for it,
  whichever step it is, and the failure of a step of the session is the failure of the
  session.
\<close>

theorem main_exit_status:
  "(fst (main lib codec world players0 argv) = Exited 1 \<longleftrightarrow> length argv \<noteq> 3) \<and>
   (length argv \<noteq> 3 \<longrightarrow> main lib codec world players0 argv = (Exited 1, [Stderr usage])) \<and>
   (length argv = 3 \<and> session lib codec world players0 (argv ! 1) (argv ! 2) = (evs, Inl (Thrown e)) \<longrightarrow>
      main lib codec world players0 argv =
        (Exited 0, evs @ [Stderr (''Exception: '' @ what e @ [newline])])) \<and>
   (connect_error world host port = Some e \<longrightarrow>
      session lib codec world players0 host port = ([Connect host port], Inl (Thrown e))) \<and>
   (send_error world msg = Some e \<longrightarrow> socket_write world msg = ([], Inl (Thrown e))) \<and>
   (read_next_line inp = Inl e \<longrightarrow> receive codec inp cmd = ([], Inl (Thrown e))) \<and>
   (read_next_line inp = Inr (line, inp') \<and> parse_line codec line = Inl e \<longrightarrow>
      receive codec inp cmd = ([], Inl (Thrown e))) \<and>
   (read_next_line inp = Inr (line, inp') \<and> parse_line codec line = Inr jin \<and>
    at_key jin ''cmd'' = Inr (JString actual) \<and> actual \<noteq> cmd \<longrightarrow>
      receive codec inp cmd =
        ([], Inl (Thrown (runtime_error (''Unexpected cmd (expected: \"'' @ cmd
                           @ ''\", actual: \"'' @ actual @ ''\")''))))) \<and>
   (receive codec inp ''dc'' = ([], Inr (jin, inp')) \<and> at_key jin ''version'' = Inr jv \<and>
    at_key jv ''major'' = Inr (JInt major) \<and> to_int32 major \<noteq> kSupportedProtocolVersionMajor \<longrightarrow>
      handshake codec world inp = ([], Inl (Thrown (runtime_error ''Unexpected protocol version'')))) \<and>
   (receive codec inp ''is_ready'' = ([], Inr (jin, inp')) \<and> at_key jin ''game'' = Inr jgame \<and>
    at_key jgame ''rule'' = Inr (JString rule) \<and> rule \<noteq> ''normal'' \<longrightarrow>
      ready lib codec world players0 inp = ([], Inl (Thrown (runtime_error ''Unexpected rule'')))) \<and>
   (receive codec inp ''update'' = (evs1, Inl f) \<longrightarrow>
      update_loop lib codec world a_team g inp = (evs1, Inl f)) \<and>
   (receive codec inp ''dc'' = (evs1, Inl f) \<longrightarrow> handshake codec world inp = (evs1, Inl f)) \<and>
   (receive codec inp ''is_ready'' = (evs1, Inl f) \<longrightarrow>
      ready lib codec world players0 inp = (evs1, Inl f)) \<and>
   (receive codec inp ''new_game'' = (evs1, Inl f) \<longrightarrow> new_game codec inp = (evs1, Inl f)) \<and>
   (receive codec inp ''game_over'' = (evs1, Inl f) \<longrightarrow> game_over codec inp = (evs1, Inl f)) \<and>
   (connect_error world host port = None \<and>
    handshake codec world ([], incoming world) = (evs1, Inl f) \<longrightarrow>
      session lib codec world players0 host port = (Connect host port # evs1, Inl f)) \<and>
   (connect_error world host port = None \<and>
    handshake codec world ([], incoming world) = (evs1, Inr inp1) \<and>
    ready lib codec world players0 inp1 = (evs2, Inl f) \<longrightarrow>
      session lib codec world players0 host port = (Connect host port # evs1 @ evs2, Inl f)) \<and>
   (connect_error world host port = None \<and>
    handshake codec world ([], incoming world) = (evs1, Inr inp1) \<and>
    ready lib codec world players0 inp1 = (evs2, Inr (a_team, g, inp2)) \<and>
    new_game codec inp2 = (evs3, Inl f) \<longrightarrow>
      session lib codec world players0 host port = (Connect host port # evs1 @ evs2 @ evs3, Inl f)) \<and>
   (connect_error world host port = None \<and>
    handshake codec world ([], incoming world) = (evs1, Inr inp1) \<and>
    ready lib codec world players0 inp1 = (evs2, Inr (a_team, g, inp2)) \<and>
    new_game codec inp2 = (evs3, Inr inp3) \<and>
    update_loop lib codec world a_team g inp3 = (evs4, Inl f) \<longrightarrow>
      session lib codec world players0 host port =
        (Connect host port # evs1 @ evs2 @ evs3 @ evs4, Inl f)) \<and>
   (connect_error world host port = None \<and>
    handshake codec world ([], incoming world) = (evs1, Inr inp1) \<and>
    ready lib codec world players0 inp1 = (evs2, Inr (a_team, g, inp2)) \<and>
    new_game codec inp2 = (evs3, Inr inp3) \<and>
    update_loop lib codec world a_team g inp3 = (evs4, Inr (game_state, g', inp4)) \<and>
    game_over codec inp4 = (evs5, Inl f) \<longrightarrow>
      session lib codec world players0 host port =
        (Connect host port # evs1 @ evs2 @ evs3 @ evs4 @ evs5, Inl f))"
  apply (intro conjI impI; (elim conjE)?)
                 apply (rule main_exit_1)
                apply (rule main_usage; assumption)
               apply (rule main_catches; assumption)
              apply (rule session_connect_error; assumption)
             apply (rule socket_write_error; assumption)
            apply (rule receive_read_error; assumption)
           apply (rule receive_parse_error; assumption)
          apply (rule receive_bad_command; assumption)
         apply (rule handshake_bad_version; assumption)
        apply (rule ready_bad_rule; assumption)
       apply (rule update_loop_receive_error; assumption)
       apply (rule handshake_receive_error; assumption)
       apply (rule ready_receive_error; assumption)
       apply (rule new_game_receive_error; assumption)
       apply (rule game_over_receive_error; assumption)
      apply (rule session_handshake_error; assumption)
     apply (rule session_ready_error; assumption)
    apply (rule session_new_game_error; assumption)
   apply (rule session_update_error; assumption)
  apply (rule session_game_over_error; assumption)
  done

text \<open>
  These facts on two runs: with one argument, and with three arguments against
  a peer whose first message carries the command \<^verbatim>\<open>hello\<close>.
\<close>

theorem main_exit_status_witness:
  "main still_library plain_codec hello_world (\<lambda>i. 0) [''client''] = (Exited 1, [Stderr usage]) \<and>
   main still_library plain_codec hello_world (\<lambda>i. 0) [''client'', ''host'', ''1234''] =
     (Exited 0,
      [Connect ''host'' ''1234'',
       Stderr (''Exception: Unexpected cmd (expected: \"dc\", actual: \"hello\")'' @ [newline])])"
proof -
  let ?inp = "([], incoming hello_world)"
  let ?jin = "JObject [(''cmd'', JString ''hello'')]"
  let ?argv = "[''client'', ''host'', ''1234'']"
  have rd: "read_next_line ?inp = Inr (''hello'' @ [newline], ([], []))"
    by (simp add: read_next_line_def first_line_def after_first_line_def newline_def hello_world_def)
  have ps: "parse_line plain_codec (''hello'' @ [newline]) = Inr ?jin"
    by (simp add: parse_line_def plain_codec_def newline_def)
  have cmd: "at_key ?jin ''cmd'' = Inr (JString ''hello'')" by (simp add: at_key_def)
  have ne: "''hello'' \<noteq> ''dc''" by simp
  have ce: "connect_error hello_world ''host'' ''1234'' = None" by (simp add: hello_world_def)
  have rc: "receive plain_codec ?inp ''dc'' =
      ([], Inl (Thrown (runtime_error (''Unexpected cmd (expected: \"'' @ ''dc''
                           @ ''\", actual: \"'' @ ''hello'' @ ''\")''))))"
    by (rule receive_bad_command[OF rd ps cmd ne])
  have hs: "handshake plain_codec hello_world ?inp =
      ([], Inl (Thrown (runtime_error (''Unexpected cmd (expected: \"'' @ ''dc''
                           @ ''\", actual: \"'' @ ''hello'' @ ''\")''))))"
    by (simp add: handshake_def rc io_bind_Inl)
  have ss: "session still_library plain_codec hello_world (\<lambda>i. 0) (?argv ! 1) (?argv ! 2) =
      ([Connect ''host'' ''1234''], Inl (Thrown (runtime_error (''Unexpected cmd (expected: \"'' @ ''dc''
                           @ ''\", actual: \"'' @ ''hello'' @ ''\")''))))"
    using session_handshake_error[OF ce hs] by simp
  have len: "length ?argv = 3" by simp
  have m3: "main still_library plain_codec hello_world (\<lambda>i. 0) ?argv =
     (Exited 0, [Connect ''host'' ''1234''] @
       [Stderr (''Exception: '' @ what (runtime_error (''Unexpected cmd (expected: \"'' @ ''dc''
                           @ ''\", actual: \"'' @ ''hello'' @ ''\")'')) @ [newline])])"
    by (rule main_exit_status[THEN conjunct2, THEN conjunct2, THEN conjunct1, rule_format,
          OF conjI[OF len ss]])
  have m1: "main still_library plain_codec hello_world (\<lambda>i. 0) [''client''] = (Exited 1, [Stderr usage])"
    by (rule main_exit_status[THEN conjunct2, THEN conjunct1, rule_format]) simp
  show ?thesis using m1 m3 by simp
qed


text \<open>
  Claim C9 fails in the code for a malformed payload of one kind. The players of the own
  team are read with \<^verbatim>\<open>jin_player_factories[i]\<close> for \<open>i\<close> from 0 to 3, and on a constant JSON
  array \<^verbatim>\<open>operator[]\<close> does not check the index: when the \<^verbatim>\<open>is_ready\<close> message lists
  fewer than four players the read is outside the array, which is undefined and raises no
  exception, so nothing is caught, logged to standard error or turned into status 0. The
  run below receives a \<^verbatim>\<open>dc\<close> and an \<^verbatim>\<open>is_ready\<close> with an empty array of players: it
  answers the \<^verbatim>\<open>dc\<close> and ends undefined, having written nothing to standard error.
\<close>

theorem main_short_players_undefined:
  "at_index (JArray []) 0 = Inl UndefinedBehaviour \<and>
   main still_library line_codec short_players_world (\<lambda>i. 0) [''client'', ''host'', ''1234''] =
     (Undefined,
      [Connect ''host'' ''1234'',
       Stdout (''[in] dc'' @ [newline]),
       Stdout ''  game_id  : '', Stdout (''g'' @ [newline]),
       Stdout ''  date_time: '', Stdout (''t'' @ [newline]),
       SocketWrite (''{}'' @ [newline]),
       Stdout (''[out] dc_ok'' @ [newline]), Stdout (''  name: AIcyObsidian'' @ [newline])])"
proof -
  let ?w = short_players_world
  let ?rest = "([], [''is_ready'' @ [newline]]) :: instream"
  have rd1: "read_next_line ([], incoming ?w) = Inr (''dc'' @ [newline], ?rest)"
    by (simp add: read_next_line_def first_line_def after_first_line_def newline_def
        short_players_world_def)
  have ps1: "parse_line line_codec (''dc'' @ [newline]) = Inr dc_message"
    by (simp add: parse_line_def line_codec_def)
  have rc1: "receive line_codec ([], incoming ?w) ''dc'' = ([], Inr (dc_message, ?rest))"
    by (rule receive_ok[OF rd1 ps1]) (simp add: check_command_def at_key_def get_string_def dc_message_def)
  have hs: "handshake line_codec ?w ([], incoming ?w) =
      ([Stdout (''[in] dc'' @ [newline]),
        Stdout ''  game_id  : '', Stdout (''g'' @ [newline]),
        Stdout ''  date_time: '', Stdout (''t'' @ [newline]),
        SocketWrite (''{}'' @ [newline]),
        Stdout (''[out] dc_ok'' @ [newline]), Stdout (''  name: AIcyObsidian'' @ [newline])],
       Inr ?rest)"
    unfolding handshake_def rc1
    by (simp add: io_bind_Inr io_simps io_return_def at_key_def dc_message_def
        get_int_def to_int32_def get_string_def kSupportedProtocolVersionMajor_def socket_write_def
        short_players_world_def line_codec_def plain_codec_def kName_def)
  have rd2: "read_next_line ?rest = Inr (''is_ready'' @ [newline], ([], []))"
    by (simp add: read_next_line_def first_line_def after_first_line_def newline_def)
  have ps2: "parse_line line_codec (''is_ready'' @ [newline]) = Inr short_is_ready"
    by (simp add: parse_line_def line_codec_def newline_def)
  have rc2: "receive line_codec ?rest ''is_ready'' = ([], Inr (short_is_ready, ([], [])))"
    by (rule receive_ok[OF rd2 ps2]) (simp add: check_command_def at_key_def get_string_def short_is_ready_def)
  have ix: "at_index (JArray []) 0 = Inl UndefinedBehaviour" by (simp add: at_index_def)
  have rdy: "ready still_library line_codec ?w (\<lambda>i. 0) ?rest = ([], Inl UndefinedBehaviour)"
    unfolding ready_def rc2
    by (simp add: io_bind_Inr io_simps io_return_def at_key_def short_is_ready_def
        get_string_def line_codec_def plain_codec_def try_simulator_factory_def
        try_player_factory_def ix)
  have ce: "connect_error ?w ''host'' ''1234'' = None" by (simp add: short_players_world_def)
  from session_ready_error[OF ce hs rdy]
  have "session still_library line_codec ?w (\<lambda>i. 0) ''host'' ''1234'' =
      (Connect ''host'' ''1234'' #
        [Stdout (''[in] dc'' @ [newline]),
         Stdout ''  game_id  : '', Stdout (''g'' @ [newline]),
         Stdout ''  date_time: '', Stdout (''t'' @ [newline]),
         SocketWrite (''{}'' @ [newline]),
         Stdout (''[out] dc_ok'' @ [newline]), Stdout (''  name: AIcyObsidian'' @ [newline])] @ [],
       Inl UndefinedBehaviour)" .
  then show ?thesis using ix by (simp add: main_def)
qed

end
